(* ===== verification/Tunnel_Errors.thy ===== *)
theory Tunnel_Errors
  imports Tunnel_Prelude
begin

text \<open>
  The protocol errors of \<open>crates/secure-tunnel/src/lib.rs\<close> (\<open>TunnelError\<close>), their \<open>Display\<close>
  texts, and the error values of the binaries.  The binaries use \<open>anyhow::Error\<close>, which is
  read here as its chain of messages, outermost first: \<open>context\<close> adds one in front, and
  the alternate format \<open>{error:#}\<close> joins them with a colon and a space.  The error type of the Noise
  library is the type parameter \<open>'e\<close>; its messages are a parameter of the functions that
  need them.
\<close>

datatype 'e tunnel_error =
    InvalidPreface
  | UnsupportedVersion byte byte
  | HandshakeMessageTooLarge nat
  | PlaintextTooLarge nat
  | CiphertextTooLarge nat
  | TruncatedFrame nat nat
  | TrailingFrameBytes
  | HandshakeOrder
  | ClosedSession
  | UnauthorisedClient
  | MissingServerStaticIdentity
  | TooManyServerStaticIdentities nat
  | InvalidKeyMaterial
  | Noise 'e
  | PoisonedCipherState

definition MAX_HANDSHAKE_MESSAGE :: nat where "MAX_HANDSHAKE_MESSAGE = 4096"
definition MAX_PLAINTEXT_RECORD :: nat where "MAX_PLAINTEXT_RECORD = 16384"
definition MAX_CIPHERTEXT_RECORD :: nat where "MAX_CIPHERTEXT_RECORD = 16400"
definition MAX_SERVER_STATIC_IDENTITIES :: nat where "MAX_SERVER_STATIC_IDENTITIES = 8"
definition MAX_CONCURRENT_CONNECTIONS :: nat where "MAX_CONCURRENT_CONNECTIONS = 1024"

lemmas tunnel_limits =
  MAX_HANDSHAKE_MESSAGE_def MAX_PLAINTEXT_RECORD_def MAX_CIPHERTEXT_RECORD_def
  MAX_SERVER_STATIC_IDENTITIES_def MAX_CONCURRENT_CONNECTIONS_def

text \<open>The \<open>#[error(...)]\<close> texts.\<close>

fun display_tunnel_error :: "'e tunnel_error \<Rightarrow> string" where
  "display_tunnel_error InvalidPreface = ''invalid protocol preface''"
| "display_tunnel_error (UnsupportedVersion major minor) =
     ''unsupported protocol version '' @ show_nat (unat major) @ ''.'' @ show_nat (unat minor)"
| "display_tunnel_error (HandshakeMessageTooLarge n) =
     ''handshake message is too large: '' @ show_nat n @ '' bytes''"
| "display_tunnel_error (PlaintextTooLarge n) =
     ''plaintext record is too large: '' @ show_nat n @ '' bytes''"
| "display_tunnel_error (CiphertextTooLarge n) =
     ''ciphertext record is too large: '' @ show_nat n @ '' bytes''"
| "display_tunnel_error (TruncatedFrame expected actual) =
     ''truncated frame: expected '' @ show_nat expected @ '' bytes, got '' @ show_nat actual"
| "display_tunnel_error TrailingFrameBytes = ''frame contains trailing bytes''"
| "display_tunnel_error HandshakeOrder = ''handshake operation is out of order''"
| "display_tunnel_error ClosedSession =
     ''handshake or transport session is closed after completion or failure''"
| "display_tunnel_error UnauthorisedClient = ''client static key is not authorised''"
| "display_tunnel_error MissingServerStaticIdentity =
     ''at least one server static identity is required''"
| "display_tunnel_error (TooManyServerStaticIdentities n) =
     ''too many server static identities: '' @ show_nat n @ '' (maximum ''
       @ show_nat MAX_SERVER_STATIC_IDENTITIES @ '')''"
| "display_tunnel_error InvalidKeyMaterial = ''invalid Noise static key material''"
| "display_tunnel_error (Noise e) = ''cryptographic operation failed''"
| "display_tunnel_error PoisonedCipherState = ''transport cipher state lock poisoned''"

text \<open>\<open>anyhow::Error\<close> as a message chain; \<open>#[from] snow::Error\<close> makes the Noise error the source
  of the \<open>Noise\<close> variant, so its messages follow.\<close>

type_synonym anyhow = "string list"

fun tunnel_error_chain :: "('e \<Rightarrow> string list) \<Rightarrow> 'e tunnel_error \<Rightarrow> anyhow" where
  "tunnel_error_chain snow_chain (Noise e) =
     display_tunnel_error (Noise e) # snow_chain e"
| "tunnel_error_chain snow_chain e = [display_tunnel_error e]"

definition context_msg :: "string \<Rightarrow> anyhow + 'a \<Rightarrow> anyhow + 'a" where
  "context_msg msg r = map_err (\<lambda>e. msg # e) r"

fun join_chain :: "anyhow \<Rightarrow> string" where
  "join_chain [] = []"
| "join_chain [m] = m"
| "join_chain (m # ms) = m @ '': '' @ join_chain ms"

lemma context_msg_simps [simp]:
  "context_msg msg (Inr x) = Inr x"
  "context_msg msg (Inl e) = Inl (msg # e)"
  by (simp_all add: context_msg_def)

lemma context_msg_Inr_iff [result_iff]: "context_msg msg r = Inr x \<longleftrightarrow> r = Inr x"
  by (cases r) auto

lemma join_chain_Cons: "ms \<noteq> [] \<Longrightarrow> join_chain (m # ms) = m @ '': '' @ join_chain ms"
  by (cases ms) auto

text \<open>Every message of a chain is visible in the joined text.\<close>

lemma join_chain_contains:
  "m \<in> set ms \<Longrightarrow> str_contains m pat \<Longrightarrow> str_contains (join_chain ms) pat"
  by (induction ms rule: join_chain.induct)
     (auto simp del: append_Cons simp: str_contains_append1 str_contains_append2 append_Cons [symmetric])

end
