(* ===== verification/Framing.thy ===== *)
theory Framing
  imports Tunnel_Errors
begin

text \<open>
  The clear preface and the two length-prefixed frame formats of
  \<open>crates/secure-tunnel/src/lib.rs\<close>: \<open>Preface\<close>, \<open>encode_handshake_frame\<close>,
  \<open>decode_handshake_frame\<close>, \<open>decode_record_frame\<close> and the shared \<open>decode_frame\<close>.  The
  locale \<open>frame_codec\<close> is the contract of a length-prefixed format (a header that determines
  the length, a decoder that inverts it); both formats are interpretations of it.
\<close>

section \<open>Preface\<close>

text \<open>\<open>*b"CDXT\x01\x00"\<close>\<close>

definition PREFACE :: bytes where
  "PREFACE = [0x43, 0x44, 0x58, 0x54, 0x01, 0x00]"

datatype preface = V1

definition preface_encode :: "preface \<Rightarrow> bytes" where
  "preface_encode p = PREFACE"

definition preface_parse :: "bytes \<Rightarrow> 'e tunnel_error + preface" where
  "preface_parse value =
     (if length value \<noteq> length PREFACE \<or> take 4 value \<noteq> take 4 PREFACE then Inl InvalidPreface
      else if value ! 4 \<noteq> 1 then Inl (UnsupportedVersion (value ! 4) (value ! 5))
      else if value ! 5 \<noteq> 0 then Inl (UnsupportedVersion (value ! 4) (value ! 5))
      else Inr V1)"

lemma preface_length [wire_length]: "length (preface_encode p) = 6"
  by (simp add: preface_encode_def PREFACE_def)

lemma length6E:
  assumes "length xs = 6"
  obtains a b c d e f where "xs = [a, b, c, d, e, f]"
  using assms by (auto simp: numeral_eq_Suc length_Suc_conv)

lemma preface_parse_accepts:
  "preface_parse v = (Inr p :: 'e tunnel_error + preface) \<longleftrightarrow> v = preface_encode p"
proof (cases "length v = 6")
  case True
  then obtain a b c d e f where "v = [a, b, c, d, e, f]" by (rule length6E)
  then show ?thesis
    by (cases p) (auto simp: preface_parse_def preface_encode_def PREFACE_def numeral_eq_Suc)
next
  case False
  then have "preface_parse v = (Inl InvalidPreface :: 'e tunnel_error + preface)"
    by (simp add: preface_parse_def PREFACE_def)
  with False show ?thesis by (auto simp: preface_encode_def PREFACE_def)
qed

lemma preface_parse_encode [simp]: "preface_parse (preface_encode p) = Inr p"
  by (simp add: preface_parse_accepts)

lemma preface_parse_rejects:
  "preface_parse v =
     (if length v = 6 \<and> take 4 v = take 4 PREFACE
      then (if (v ! 4, v ! 5) = (1, 0) then Inr V1
            else Inl (UnsupportedVersion (v ! 4) (v ! 5)))
      else Inl InvalidPreface :: 'e tunnel_error + preface)"
  by (auto simp: preface_parse_def PREFACE_def)

section \<open>Frames\<close>

definition encode_handshake_frame :: "bytes \<Rightarrow> 'e tunnel_error + bytes" where
  "encode_handshake_frame message =
     (if MAX_HANDSHAKE_MESSAGE < length message
      then Inl (HandshakeMessageTooLarge (length message))
      else rbind (ok_or (u16_try_from (length message)) (HandshakeMessageTooLarge (length message)))
             (\<lambda>len. Inr (u16_to_be_bytes len @ message)))"

definition decode_frame :: "bytes \<Rightarrow> nat \<Rightarrow> nat \<Rightarrow> bool \<Rightarrow> 'e tunnel_error + bytes" where
  "decode_frame frame header_len maximum handshake =
     (if length frame < header_len then Inl (TruncatedFrame header_len (length frame))
      else let claimed =
             (if header_len = 2 then unat (u16_from_be_bytes (frame ! 0) (frame ! 1))
              else unat (u32_from_be_bytes (frame ! 0) (frame ! 1) (frame ! 2) (frame ! 3))) in
        if maximum < claimed
        then Inl (if handshake then HandshakeMessageTooLarge claimed else CiphertextTooLarge claimed)
        else let expected = header_len + claimed in
          if length frame < expected then Inl (TruncatedFrame expected (length frame))
          else if expected < length frame then Inl TrailingFrameBytes
          else Inr (drop header_len frame))"

definition decode_handshake_frame :: "bytes \<Rightarrow> 'e tunnel_error + bytes" where
  "decode_handshake_frame frame = decode_frame frame 2 MAX_HANDSHAKE_MESSAGE True"

definition decode_record_frame :: "bytes \<Rightarrow> 'e tunnel_error + bytes" where
  "decode_record_frame frame = decode_frame frame 4 MAX_CIPHERTEXT_RECORD False"

text \<open>The headers the encoders write, as functions of the payload length, and the frame they make.\<close>

definition handshake_header :: "nat \<Rightarrow> bytes" where
  "handshake_header n = u16_to_be_bytes (of_nat n)"

definition record_header :: "nat \<Rightarrow> bytes" where
  "record_header n = u32_to_be_bytes (of_nat n)"

definition framed :: "(nat \<Rightarrow> bytes) \<Rightarrow> bytes \<Rightarrow> bytes" where
  "framed header p = header (length p) @ p"

lemma encode_handshake_frame_eq:
  "encode_handshake_frame m =
     (if length m \<le> MAX_HANDSHAKE_MESSAGE then Inr (framed handshake_header m)
      else Inl (HandshakeMessageTooLarge (length m)))"
  by (auto simp: encode_handshake_frame_def u16_try_from_def framed_def handshake_header_def
      MAX_HANDSHAKE_MESSAGE_def)

lemma handshake_header_length [wire_length, simp]: "length (handshake_header n) = 2"
  by (simp add: handshake_header_def)

lemma record_header_length [wire_length, simp]: "length (record_header n) = 4"
  by (simp add: record_header_def)

lemma handshake_header_bytes:
  "n < 2 ^ 16 \<Longrightarrow>
     unat (u16_from_be_bytes (handshake_header n ! 0) (handshake_header n ! 1)) = n"
  by (simp add: handshake_header_def u16_to_be_bytes_def unat_of_nat_u16)

lemma record_header_bytes:
  "n < 2 ^ 32 \<Longrightarrow>
     unat (u32_from_be_bytes (record_header n ! 0) (record_header n ! 1)
             (record_header n ! 2) (record_header n ! 3)) = n"
  unfolding record_header_def u32_to_be_bytes_nth u32_from_to_be_bytes by (rule unat_of_nat_u32)

text \<open>Conversely, the bytes that name a length are the header of that length.\<close>

lemma handshake_header_of_bytes: "handshake_header (unat (u16_from_be_bytes a b)) = [a, b]"
  by (simp add: handshake_header_def)

lemma record_header_of_bytes: "record_header (unat (u32_from_be_bytes a b c d)) = [a, b, c, d]"
  by (simp add: record_header_def)

section \<open>The contract of a length-prefixed format\<close>

locale frame_codec =
  fixes header :: "nat \<Rightarrow> bytes" and width :: nat and maximum :: nat
    and decode :: "bytes \<Rightarrow> 'err + bytes"
  assumes width_pos: "0 < width"
    and header_width: "length (header n) = width"
    and header_inj: "n \<le> maximum \<Longrightarrow> m \<le> maximum \<Longrightarrow> header n = header m \<Longrightarrow> n = m"
    and decode_header: "length p \<le> maximum \<Longrightarrow> decode (header (length p) @ p) = Inr p"
    and decode_sound: "decode f = Inr p \<Longrightarrow> length p \<le> maximum \<and> f = header (length p) @ p"
begin

lemma decode_framed: "length p \<le> maximum \<Longrightarrow> decode (framed header p) = Inr p"
  by (simp add: framed_def decode_header)

lemma decode_iff: "decode f = Inr p \<longleftrightarrow> length p \<le> maximum \<and> f = framed header p"
  by (auto simp: framed_def decode_header dest: decode_sound)

lemma framed_length: "length (framed header p) = width + length p"
  by (simp add: framed_def header_width)

lemma framed_nonempty: "framed header p \<noteq> []"
  using framed_length [of p] width_pos by auto

lemma framed_prefix_free:
  assumes "length p \<le> maximum" and "length q \<le> maximum"
    and eq: "framed header p @ x = framed header q @ y"
  shows "p = q \<and> x = y"
proof -
  have "header (length p) @ (p @ x) = header (length q) @ (q @ y)"
    using eq by (simp only: framed_def append_assoc)
  moreover have "length (header (length p)) = length (header (length q))"
    by (simp only: header_width)
  ultimately have "header (length p) = header (length q) \<and> p @ x = q @ y"
    by (metis append_eq_append_conv)
  then have hp: "header (length p) = header (length q)" and rest: "p @ x = q @ y"
    by blast+
  have "length p = length q"
    using assms(1,2) hp by (rule header_inj)
  with rest show ?thesis by simp
qed

text \<open>A byte stream that is a sequence of frames is one in a single way.\<close>

lemma framed_stream_unique:
  assumes "\<forall>p \<in> set ps. length p \<le> maximum" and "\<forall>q \<in> set qs. length q \<le> maximum"
    and "concat (map (framed header) ps) = concat (map (framed header) qs)"
  shows "ps = qs"
  using assms
proof (induction ps arbitrary: qs)
  case Nil
  then show ?case by (cases qs) (simp_all add: framed_nonempty)
next
  case (Cons p ps)
  from Cons.prems(3) obtain q qs' where qs: "qs = q # qs'"
    by (cases qs) (simp_all add: framed_nonempty)
  have "framed header p @ concat (map (framed header) ps)
          = framed header q @ concat (map (framed header) qs')"
    using Cons.prems(3) qs by simp
  then have "p = q \<and> concat (map (framed header) ps) = concat (map (framed header) qs')"
    using Cons.prems(1,2) qs by (intro framed_prefix_free) auto
  then have "p = q" and rest: "concat (map (framed header) ps) = concat (map (framed header) qs')"
    by simp_all
  have "ps = qs'"
    using Cons.prems(1,2) qs rest by (intro Cons.IH) simp_all
  with \<open>p = q\<close> qs show ?case by simp
qed

end

text \<open>Both formats meet it.\<close>

lemma decode_handshake_frame_sound:
  assumes "decode_handshake_frame f = (Inr p :: 'e tunnel_error + bytes)"
  shows "length p \<le> MAX_HANDSHAKE_MESSAGE \<and> f = handshake_header (length p) @ p"
proof -
  have "2 \<le> length f"
    using assms by (auto simp: decode_handshake_frame_def decode_frame_def split: if_splits)
  then obtain a b rest where f: "f = a # b # rest" by (rule list2E)
  with assms have "unat (u16_from_be_bytes a b) = length rest" and "p = rest"
    and "length rest \<le> MAX_HANDSHAKE_MESSAGE"
    by (auto simp: decode_handshake_frame_def decode_frame_def Let_def split: if_splits)
  moreover from this(1) have "handshake_header (length rest) = [a, b]"
    using handshake_header_of_bytes [of a b] by simp
  ultimately show ?thesis using f by simp
qed

lemma decode_record_frame_sound:
  assumes "decode_record_frame f = (Inr p :: 'e tunnel_error + bytes)"
  shows "length p \<le> MAX_CIPHERTEXT_RECORD \<and> f = record_header (length p) @ p"
proof -
  have "4 \<le> length f"
    using assms by (auto simp: decode_record_frame_def decode_frame_def split: if_splits)
  then obtain a b c d rest where f: "f = a # b # c # d # rest" by (rule list4E)
  with assms have "unat (u32_from_be_bytes a b c d) = length rest" and "p = rest"
    and "length rest \<le> MAX_CIPHERTEXT_RECORD"
    by (auto simp: decode_record_frame_def decode_frame_def Let_def numeral_eq_Suc split: if_splits)
  moreover from this(1) have "record_header (length rest) = [a, b, c, d]"
    using record_header_of_bytes [of a b c d] by simp
  ultimately show ?thesis using f by simp
qed

lemma decode_handshake_frame_header:
  "length p \<le> MAX_HANDSHAKE_MESSAGE \<Longrightarrow>
     decode_handshake_frame (handshake_header (length p) @ p) = (Inr p :: 'e tunnel_error + bytes)"
  using handshake_header_bytes [of "length p"]
  by (simp add: decode_handshake_frame_def decode_frame_def nth_append MAX_HANDSHAKE_MESSAGE_def)

lemma decode_record_frame_header:
  "length p \<le> MAX_CIPHERTEXT_RECORD \<Longrightarrow>
     decode_record_frame (record_header (length p) @ p) = (Inr p :: 'e tunnel_error + bytes)"
  using record_header_bytes [of "length p"]
  by (simp add: decode_record_frame_def decode_frame_def nth_append MAX_CIPHERTEXT_RECORD_def)

interpretation hs_frame: frame_codec handshake_header 2 MAX_HANDSHAKE_MESSAGE
  "decode_handshake_frame :: bytes \<Rightarrow> 'e tunnel_error + bytes"
proof unfold_locales
  fix n m :: nat
  assume "n \<le> MAX_HANDSHAKE_MESSAGE" and "m \<le> MAX_HANDSHAKE_MESSAGE"
    and "handshake_header n = handshake_header m"
  then show "n = m"
    using handshake_header_bytes [of n] handshake_header_bytes [of m]
    by (simp add: MAX_HANDSHAKE_MESSAGE_def)
qed (simp_all add: decode_handshake_frame_header decode_handshake_frame_sound)

interpretation rec_frame: frame_codec record_header 4 MAX_CIPHERTEXT_RECORD
  "decode_record_frame :: bytes \<Rightarrow> 'e tunnel_error + bytes"
proof unfold_locales
  fix n m :: nat
  assume "n \<le> MAX_CIPHERTEXT_RECORD" and "m \<le> MAX_CIPHERTEXT_RECORD"
    and "record_header n = record_header m"
  then show "n = m"
    using record_header_bytes [of n] record_header_bytes [of m]
    by (simp add: MAX_CIPHERTEXT_RECORD_def)
qed (simp_all add: decode_record_frame_header decode_record_frame_sound)

section \<open>Properties\<close>

text \<open>A handshake frame and its message determine each other: \<open>encode_handshake_frame\<close> makes the
  frame \<open>f\<close> from \<open>m\<close> exactly when \<open>decode_handshake_frame\<close> reads \<open>m\<close> from \<open>f\<close>; in particular
  both refuse a message above the limit and there is no second encoding of a message.\<close>

lemma handshake_frame_codec:
  "encode_handshake_frame m = (Inr f :: 'e tunnel_error + bytes) \<longleftrightarrow>
     decode_handshake_frame f = (Inr m :: 'd tunnel_error + bytes)"
  by (auto simp: encode_handshake_frame_eq hs_frame.decode_iff)

lemma decode_record_frame_truncated:
  assumes "length c \<le> MAX_CIPHERTEXT_RECORD" and "k < 4 + length c"
  shows "decode_record_frame (take k (framed record_header c))
           = (Inl (TruncatedFrame (if k < 4 then 4 else 4 + length c) k) :: 'e tunnel_error + bytes)"
proof -
  have "unat (u32_from_be_bytes (record_header (length c) ! 0) (record_header (length c) ! 1)
             (record_header (length c) ! 2) (record_header (length c) ! 3)) = length c"
    using assms(1) by (intro record_header_bytes) (simp add: tunnel_limits)
  moreover have "framed record_header c ! i = record_header (length c) ! i" if "i < 4" for i
    using that by (simp add: framed_def nth_append)
  ultimately show ?thesis
    using assms
    by (cases "k < 4")
       (simp_all add: decode_record_frame_def decode_frame_def Let_def min_def rec_frame.framed_length)
qed

lemma decode_handshake_frame_truncated:
  assumes "length m \<le> MAX_HANDSHAKE_MESSAGE" and "k < 2 + length m"
  shows "decode_handshake_frame (take k (framed handshake_header m))
           = (Inl (TruncatedFrame (if k < 2 then 2 else 2 + length m) k) :: 'e tunnel_error + bytes)"
proof -
  have "unat (u16_from_be_bytes (handshake_header (length m) ! 0) (handshake_header (length m) ! 1)) = length m"
    using assms(1) by (intro handshake_header_bytes) (simp add: tunnel_limits)
  moreover have "framed handshake_header m ! i = handshake_header (length m) ! i" if "i < 2" for i
    using that by (simp add: framed_def nth_append)
  ultimately show ?thesis
    using assms
    by (cases "k < 2")
       (simp_all add: decode_handshake_frame_def decode_frame_def Let_def min_def hs_frame.framed_length)
qed

lemma decode_trailing:
  "length c \<le> MAX_CIPHERTEXT_RECORD \<Longrightarrow> x \<noteq> [] \<Longrightarrow>
     decode_record_frame (framed record_header c @ x) = (Inl TrailingFrameBytes :: 'e tunnel_error + bytes)"
  "length m \<le> MAX_HANDSHAKE_MESSAGE \<Longrightarrow> x \<noteq> [] \<Longrightarrow>
     decode_handshake_frame (framed handshake_header m @ x) = (Inl TrailingFrameBytes :: 'e tunnel_error + bytes)"
  using record_header_bytes [of "length c"] handshake_header_bytes [of "length m"]
  by (simp_all add: framed_def decode_record_frame_def decode_handshake_frame_def decode_frame_def
      nth_append tunnel_limits)

text \<open>C18: Decoding is exact.  A record frame of which the last bytes are missing is reported as
  truncated (with the number of bytes it should have), and one with anything after it as carrying
  trailing bytes; the same holds for a handshake frame.\<close>

lemma damaged_frames_are_rejected:
  assumes "length c \<le> MAX_CIPHERTEXT_RECORD" and "length m \<le> MAX_HANDSHAKE_MESSAGE" and "x \<noteq> []"
    and "k < 4 + length c" and "j < 2 + length m"
  shows "decode_record_frame (framed record_header c @ x) = (Inl TrailingFrameBytes :: 'e tunnel_error + bytes)
    \<and> decode_record_frame (take k (framed record_header c))
        = (Inl (TruncatedFrame (if k < 4 then 4 else 4 + length c) k) :: 'e tunnel_error + bytes)
    \<and> decode_handshake_frame (framed handshake_header m @ x) = (Inl TrailingFrameBytes :: 'e tunnel_error + bytes)
    \<and> decode_handshake_frame (take j (framed handshake_header m))
        = (Inl (TruncatedFrame (if j < 2 then 2 else 2 + length m) j) :: 'e tunnel_error + bytes)"
  using decode_trailing(1) [OF assms(1,3)] decode_trailing(2) [OF assms(2,3)]
    decode_record_frame_truncated [OF assms(1,4)] decode_handshake_frame_truncated [OF assms(2,5)]
  by blast

lemma damaged_frames_are_rejected_witness:
  "decode_record_frame (framed record_header [7, 8] @ [9]) = (Inl TrailingFrameBytes :: unit tunnel_error + bytes)
   \<and> decode_record_frame (take 5 (framed record_header [7, 8])) = (Inl (TruncatedFrame 6 5) :: unit tunnel_error + bytes)
   \<and> decode_handshake_frame (framed handshake_header [6] @ [9]) = (Inl TrailingFrameBytes :: unit tunnel_error + bytes)
   \<and> decode_handshake_frame (take 1 (framed handshake_header [6])) = (Inl (TruncatedFrame 2 1) :: unit tunnel_error + bytes)"
proof -
  have len: "length [7, 8 :: byte] = 2" "length [6 :: byte] = 1" by simp_all
  from damaged_frames_are_rejected [of "[7, 8]" "[6]" "[9]" 5 1, where 'e = unit] show ?thesis
    unfolding len by (simp add: tunnel_limits del: take_append One_nat_def)
qed

text \<open>A byte stream is a concatenation of record frames in one way only: two sequences of
  ciphertexts within the limit that give the same bytes are the same sequence.\<close>

lemma record_stream_unique:
  assumes "\<forall>c \<in> set cs. length c \<le> MAX_CIPHERTEXT_RECORD" and "\<forall>d \<in> set ds. length d \<le> MAX_CIPHERTEXT_RECORD"
    and "concat (map (\<lambda>c. record_header (length c) @ c) cs) = concat (map (\<lambda>d. record_header (length d) @ d) ds)"
  shows "cs = ds"
  using rec_frame.framed_stream_unique [OF assms(1,2)] assms(3) by (simp add: framed_def [abs_def])

lemma record_stream_unique_witness:
  "[[1, 2 :: byte], [3]] = [[1, 2], [3]]
   \<and> concat (map (\<lambda>c. record_header (length c) @ c) [[1, 2], [3]]) = [0, 0, 0, 2, 1, 2, 0, 0, 0, 1, 3]"
proof
  show "[[1, 2 :: byte], [3]] = [[1, 2], [3]]"
    by (rule record_stream_unique) (simp_all add: tunnel_limits)
  show "concat (map (\<lambda>c. record_header (length c) @ c) [[1, 2], [3]]) = [0, 0, 0, 2, 1, 2, 0, 0, 0, 1, 3]"
    by (simp add: record_header_def u32_to_be_bytes_def)
qed

text \<open>The preface parser accepts the six bytes of the only version and nothing else, and reports
  any other version of the same protocol by its two numbers.\<close>

lemma preface_parse_exact:
  "(preface_parse v = (Inr V1 :: 'e tunnel_error + preface)) = (v = preface_encode V1)
   \<and> (preface_parse v = (Inl (UnsupportedVersion a b) :: 'e tunnel_error + preface))
     = (v = take 4 PREFACE @ [a, b] \<and> (a, b) \<noteq> (1, 0))"
proof (rule conjI)
  show "(preface_parse v = (Inr V1 :: 'e tunnel_error + preface)) = (v = preface_encode V1)"
    by (rule preface_parse_accepts)
  show "(preface_parse v = (Inl (UnsupportedVersion a b) :: 'e tunnel_error + preface))
     = (v = take 4 PREFACE @ [a, b] \<and> (a, b) \<noteq> (1, 0))"
  proof (cases "length v = 6")
    case True
    then obtain p q r s t u where v: "v = [p, q, r, s, t, u]" by (rule length6E)
    show ?thesis unfolding v preface_parse_def PREFACE_def
      by (simp add: numeral_eq_Suc) auto
  next
    case False
    then show ?thesis by (auto simp: preface_parse_def PREFACE_def)
  qed
qed

end
