(* ===== verification/Wire_IO.thy ===== *)
theory Wire_IO
  imports Framing
begin

text \<open>
  Reading frames from a socket: \<open>read_record_frame\<close>, \<open>read_length_framed\<close> and
  \<open>read_handshake_frame\<close> of both binaries.

  The asynchronous reader (crate \<open>tokio\<close>) is not in the repository, so the two operations the
  code uses, \<open>read\<close> and \<open>read_exact\<close>, are fields of \<open>reader_ops\<close>, an argument of the
  definitions.  Their documented behaviour is the locale \<open>byte_stream\<close>: a reader stands for the
  bytes that will still arrive and for what happens after them.  The interpretation is
  \<open>net_ops\<close>, a stream whose bytes arrive in chunks of any size, as TCP delivers them.
\<close>

section \<open>Readers\<close>

datatype io_error = UnexpectedEof | OtherIo string

record 'r reader_ops =
  rd_read :: "'r \<Rightarrow> nat \<Rightarrow> (io_error + bytes) poll \<times> 'r"
  rd_read_exact :: "'r \<Rightarrow> nat \<Rightarrow> (io_error + bytes) poll \<times> 'r"

text \<open>\<open>op(...).await?\<close> followed by the rest of the function: a future that is still pending
  suspends the caller, an error returns from it.\<close>

definition await_bind ::
    "('e + 'a) poll \<times> 'r \<Rightarrow> ('a \<Rightarrow> 'r \<Rightarrow> ('e + 'b) poll \<times> 'r) \<Rightarrow> ('e + 'b) poll \<times> 'r" where
  "await_bind m k =
     (case m of
        (Pending, r) \<Rightarrow> (Pending, r)
      | (Ready (Inl e), r) \<Rightarrow> (Ready (Inl e), r)
      | (Ready (Inr x), r) \<Rightarrow> k x r)"

definition await_err :: "('e \<Rightarrow> 'f) \<Rightarrow> ('e + 'a) poll \<times> 'r \<Rightarrow> ('f + 'a) poll \<times> 'r" where
  "await_err f m = (case m of (Pending, r) \<Rightarrow> (Pending, r) | (Ready x, r) \<Rightarrow> (Ready (map_err f x), r))"

lemma await_bind_simps [simp]:
  "await_bind (Pending, r) k = (Pending, r)"
  "await_bind (Ready (Inl e), r) k = (Ready (Inl e), r)"
  "await_bind (Ready (Inr x), r) k = k x r"
  by (simp_all add: await_bind_def)

lemma await_err_simps [simp]:
  "await_err f (Pending, r) = (Pending, r)"
  "await_err f (Ready x, r) = (Ready (map_err f x), r)"
  by (simp_all add: await_err_def)

section \<open>Frame readers of the binaries\<close>

datatype wire_error = WireIo io_error | InvalidFrameLength nat | OversizedFrame

definition client_read_record_frame ::
    "'r reader_ops \<Rightarrow> 'r \<Rightarrow> (wire_error + bytes option) poll \<times> 'r" where
  "client_read_record_frame R reader =
     await_bind (await_err WireIo (rd_read R reader 1)) (\<lambda>first reader.
       if length first = 0 then (Ready (Inr None), reader)
       else await_bind (await_err WireIo (rd_read_exact R reader 3)) (\<lambda>rest reader.
         let header = first @ rest;
             len = unat (u32_from_be_bytes (header ! 0) (header ! 1) (header ! 2) (header ! 3))
         in if len = 0 \<or> MAX_CIPHERTEXT_RECORD < len
            then (Ready (Inl (InvalidFrameLength len)), reader)
            else await_bind (await_err WireIo (rd_read_exact R reader len)) (\<lambda>body reader.
              (Ready (Inr (Some (header @ body))), reader))))"

definition server_read_record_frame ::
    "'r reader_ops \<Rightarrow> 'r \<Rightarrow> (wire_error + bytes option) poll \<times> 'r" where
  "server_read_record_frame R reader =
     await_bind (await_err WireIo (rd_read R reader 1)) (\<lambda>first reader.
       if length first = 0 then (Ready (Inr None), reader)
       else await_bind (await_err WireIo (rd_read_exact R reader 3)) (\<lambda>rest reader.
         let header = first @ rest;
             len = unat (u32_from_be_bytes (header ! 0) (header ! 1) (header ! 2) (header ! 3))
         in if len = 0 \<or> MAX_CIPHERTEXT_RECORD < len
            then (Ready (Inl (InvalidFrameLength len)), reader)
            else await_bind (await_err WireIo (rd_read_exact R reader len)) (\<lambda>body reader.
              (Ready (Inr (Some (header @ body))), reader))))"

definition client_read_length_framed ::
    "'r reader_ops \<Rightarrow> 'r \<Rightarrow> nat \<Rightarrow> nat \<Rightarrow> (wire_error + bytes) poll \<times> 'r" where
  "client_read_length_framed R reader header_len maximum =
     await_bind (await_err WireIo (rd_read_exact R reader header_len)) (\<lambda>header reader.
       let len = (if header_len = 2 then unat (u16_from_be_bytes (header ! 0) (header ! 1))
                  else unat (u32_from_be_bytes (header ! 0) (header ! 1) (header ! 2) (header ! 3)))
       in if maximum < len then (Ready (Inl OversizedFrame), reader)
          else await_bind (await_err WireIo (rd_read_exact R reader len)) (\<lambda>body reader.
            (Ready (Inr (header @ body)), reader)))"

definition client_read_handshake_frame :: "'r reader_ops \<Rightarrow> 'r \<Rightarrow> (wire_error + bytes) poll \<times> 'r" where
  "client_read_handshake_frame R reader = client_read_length_framed R reader 2 MAX_HANDSHAKE_MESSAGE"

definition server_read_length_framed ::
    "'r reader_ops \<Rightarrow> 'r \<Rightarrow> nat \<Rightarrow> nat \<Rightarrow> (wire_error + bytes) poll \<times> 'r" where
  "server_read_length_framed R reader header_len maximum =
     await_bind (await_err WireIo (rd_read_exact R reader header_len)) (\<lambda>header reader.
       let len = (if header_len = 2 then unat (u16_from_be_bytes (header ! 0) (header ! 1))
                  else unat (u32_from_be_bytes (header ! 0) (header ! 1) (header ! 2) (header ! 3)))
       in if maximum < len then (Ready (Inl OversizedFrame), reader)
          else await_bind (await_err WireIo (rd_read_exact R reader len)) (\<lambda>body reader.
            (Ready (Inr (header @ body)), reader)))"

definition server_read_handshake_frame :: "'r reader_ops \<Rightarrow> 'r \<Rightarrow> (wire_error + bytes) poll \<times> 'r" where
  "server_read_handshake_frame R reader = server_read_length_framed R reader 2 MAX_HANDSHAKE_MESSAGE"

lemma read_record_frame_same: "server_read_record_frame = client_read_record_frame"
  by (simp add: fun_eq_iff server_read_record_frame_def client_read_record_frame_def)

lemma read_handshake_frame_same: "server_read_handshake_frame = client_read_handshake_frame"
  by (simp add: fun_eq_iff server_read_handshake_frame_def client_read_handshake_frame_def
      server_read_length_framed_def client_read_length_framed_def)

section \<open>What the readers compute on a byte stream\<close>

datatype stream_end = AtEof | Broken io_error | Stalled

text \<open>How \<open>read\<close> and \<open>read_exact\<close> report that the bytes have run out.\<close>

fun read_at_end :: "stream_end \<Rightarrow> (io_error + bytes) poll" where
  "read_at_end AtEof = Ready (Inr [])"
| "read_at_end (Broken e) = Ready (Inl e)"
| "read_at_end Stalled = Pending"

fun short_read :: "stream_end \<Rightarrow> (io_error + 'a) poll" where
  "short_read AtEof = Ready (Inl UnexpectedEof)"
| "short_read (Broken e) = Ready (Inl e)"
| "short_read Stalled = Pending"

text \<open>The frame readers as parsers of the bytes that will arrive.\<close>

definition parse_record :: "bytes \<Rightarrow> stream_end \<Rightarrow> (wire_error + bytes option) poll \<times> bytes" where
  "parse_record bs en =
     (if bs = [] then
        (case en of AtEof \<Rightarrow> (Ready (Inr None), [])
         | Broken e \<Rightarrow> (Ready (Inl (WireIo e)), []) | Stalled \<Rightarrow> (Pending, []))
      else if length bs < 4 then (fst (await_err WireIo (short_read en, ())), [])
      else let len = unat (u32_from_be_bytes (bs ! 0) (bs ! 1) (bs ! 2) (bs ! 3)) in
        if len = 0 \<or> MAX_CIPHERTEXT_RECORD < len then (Ready (Inl (InvalidFrameLength len)), drop 4 bs)
        else if length bs < 4 + len then (fst (await_err WireIo (short_read en, ())), [])
        else (Ready (Inr (Some (take (4 + len) bs))), drop (4 + len) bs))"

definition parse_handshake :: "bytes \<Rightarrow> stream_end \<Rightarrow> (wire_error + bytes) poll \<times> bytes" where
  "parse_handshake bs en =
     (if length bs < 2 then (fst (await_err WireIo (short_read en, ())), [])
      else let len = unat (u16_from_be_bytes (bs ! 0) (bs ! 1)) in
        if MAX_HANDSHAKE_MESSAGE < len then (Ready (Inl OversizedFrame), drop 2 bs)
        else if length bs < 2 + len then (fst (await_err WireIo (short_read en, ())), [])
        else (Ready (Inr (take (2 + len) bs)), drop (2 + len) bs))"

section \<open>The contract of a reader\<close>

locale byte_stream =
  fixes R :: "'r reader_ops" and content :: "'r \<Rightarrow> bytes" and at_end :: "'r \<Rightarrow> stream_end"
  assumes read_data: "0 < n \<Longrightarrow> content r \<noteq> [] \<Longrightarrow>
      \<exists>k r'. 0 < k \<and> k \<le> n \<and> k \<le> length (content r) \<and>
        rd_read R r n = (Ready (Inr (take k (content r))), r') \<and>
        content r' = drop k (content r) \<and> at_end r' = at_end r"
    and read_done: "0 < n \<Longrightarrow> content r = [] \<Longrightarrow>
      \<exists>r'. rd_read R r n = (read_at_end (at_end r), r') \<and> content r' = [] \<and> at_end r' = at_end r"
    and exact_data: "n \<le> length (content r) \<Longrightarrow>
      \<exists>r'. rd_read_exact R r n = (Ready (Inr (take n (content r))), r') \<and>
        content r' = drop n (content r) \<and> at_end r' = at_end r"
    and exact_short: "length (content r) < n \<Longrightarrow>
      \<exists>r'. rd_read_exact R r n = (short_read (at_end r), r') \<and> content r' = [] \<and> at_end r' = at_end r"
begin

lemma read_first_byte:
  assumes "content r = b # bs"
  shows "\<exists>r'. rd_read R r 1 = (Ready (Inr [b]), r') \<and> content r' = bs \<and> at_end r' = at_end r"
proof -
  from read_data [of 1 r] assms obtain k r' where "0 < k" "k \<le> 1"
    and "rd_read R r 1 = (Ready (Inr (take k (content r))), r')"
    and "content r' = drop k (content r)" "at_end r' = at_end r" by auto
  moreover from this(1,2) have "k = 1" by simp
  ultimately show ?thesis using assms by auto
qed

lemma short_read_result:
  "await_err WireIo (short_read en, r) = (fst (await_err WireIo (short_read en, ())), r)"
  by (cases en) simp_all

lemma await_short:
  "await_bind (await_err WireIo (short_read en, r)) k = (fst (await_err WireIo (short_read en, ())), r)"
  by (cases en) simp_all

text \<open>The result depends on the bytes and on how the stream ends, not on the reads it took.\<close>

lemma read_record_frame_parses:
  "\<exists>r'. client_read_record_frame R r = (fst (parse_record (content r) (at_end r)), r')
      \<and> content r' = snd (parse_record (content r) (at_end r)) \<and> at_end r' = at_end r"
proof (cases "content r")
  case Nil
  then obtain r' where "rd_read R r 1 = (read_at_end (at_end r), r')" "content r' = []" "at_end r' = at_end r"
    using read_done [of 1 r] by auto
  with Nil show ?thesis
    by (cases "at_end r") (auto simp: client_read_record_frame_def parse_record_def)
next
  case (Cons b bs)
  then obtain r1 where r1: "rd_read R r 1 = (Ready (Inr [b]), r1)" "content r1 = bs" "at_end r1 = at_end r"
    using read_first_byte by blast
  show ?thesis
  proof (cases "length bs < 3")
    case True
    then obtain r2 where "rd_read_exact R r1 3 = (short_read (at_end r), r2)" "content r2 = []"
      "at_end r2 = at_end r"
      using exact_short [of r1 3] r1 by auto
    with True Cons r1 show ?thesis
      by (simp add: client_read_record_frame_def parse_record_def await_short)
  next
    case False
    then obtain b1 b2 b3 rest where bs: "bs = b1 # b2 # b3 # rest"
      using list3E [of bs] by (metis not_less)
    with r1 obtain r2 where r2: "rd_read_exact R r1 3 = (Ready (Inr [b1, b2, b3]), r2)"
      "content r2 = rest" "at_end r2 = at_end r"
      using exact_data [of 3 r1] by (auto simp: numeral_eq_Suc)
    define len where "len = unat (u32_from_be_bytes b b1 b2 b3)"
    show ?thesis
    proof (cases "len = 0 \<or> MAX_CIPHERTEXT_RECORD < len")
      case True
      with Cons bs r1 r2 show ?thesis
        by (auto simp: client_read_record_frame_def parse_record_def Let_def len_def [symmetric]
            numeral_eq_Suc)
    next
      case valid: False
      show ?thesis
      proof (cases "length rest < len")
        case True
        then obtain r3 where "rd_read_exact R r2 len = (short_read (at_end r), r3)" "content r3 = []"
          "at_end r3 = at_end r"
          using exact_short [of r2 len] r2 by auto
        with True valid Cons bs r1 r2 show ?thesis
          by (auto simp: client_read_record_frame_def parse_record_def Let_def len_def [symmetric]
              numeral_eq_Suc await_short)
      next
        case False
        then obtain r3 where "rd_read_exact R r2 len = (Ready (Inr (take len rest)), r3)"
          "content r3 = drop len rest" "at_end r3 = at_end r"
          using exact_data [of len r2] r2 by auto
        with False valid Cons bs r1 r2 show ?thesis
          by (auto simp: client_read_record_frame_def parse_record_def Let_def len_def [symmetric]
              numeral_eq_Suc)
      qed
    qed
  qed
qed

lemma read_handshake_frame_parses:
  "\<exists>r'. client_read_handshake_frame R r = (fst (parse_handshake (content r) (at_end r)), r')
      \<and> content r' = snd (parse_handshake (content r) (at_end r)) \<and> at_end r' = at_end r"
proof (cases "length (content r) < 2")
  case True
  then obtain r1 where "rd_read_exact R r 2 = (short_read (at_end r), r1)" "content r1 = []"
    "at_end r1 = at_end r"
    using exact_short by blast
  with True show ?thesis
    by (simp add: client_read_handshake_frame_def client_read_length_framed_def parse_handshake_def await_short)
next
  case False
  then obtain b0 b1 rest where bs: "content r = b0 # b1 # rest"
    using list2E [of "content r"] by auto
  then obtain r1 where r1: "rd_read_exact R r 2 = (Ready (Inr [b0, b1]), r1)" "content r1 = rest"
    "at_end r1 = at_end r"
    using exact_data [of 2 r] by auto
  define len where "len = unat (u16_from_be_bytes b0 b1)"
  consider "MAX_HANDSHAKE_MESSAGE < len" | "len \<le> MAX_HANDSHAKE_MESSAGE" "length rest < len"
    | "len \<le> MAX_HANDSHAKE_MESSAGE" "len \<le> length rest" by linarith
  then show ?thesis
  proof cases
    case 1
    with bs r1 show ?thesis
      by (auto simp: client_read_handshake_frame_def client_read_length_framed_def parse_handshake_def
          Let_def len_def [symmetric])
  next
    case 2
    then obtain r2 where "rd_read_exact R r1 len = (short_read (at_end r), r2)" "content r2 = []"
      "at_end r2 = at_end r"
      using exact_short [of r1 len] r1 by auto
    with 2 bs r1 show ?thesis
      by (auto simp: client_read_handshake_frame_def client_read_length_framed_def parse_handshake_def
          Let_def len_def [symmetric] await_short)
  next
    case 3
    then obtain r2 where "rd_read_exact R r1 len = (Ready (Inr (take len rest)), r2)"
      "content r2 = drop len rest" "at_end r2 = at_end r"
      using exact_data [of len r1] r1 by auto
    with 3 bs r1 show ?thesis
      by (auto simp: client_read_handshake_frame_def client_read_length_framed_def parse_handshake_def
          Let_def len_def [symmetric])
  qed
qed

end

section \<open>A stream that arrives in chunks\<close>

text \<open>
  The bytes of a TCP connection as the reader meets them: a list of chunks (what each arrival
  brought) and what comes after the last one.  A read returns at most one chunk.
\<close>

record net_stream =
  chunks :: "bytes list"
  net_end :: stream_end

fun take_chunk :: "bytes list \<Rightarrow> nat \<Rightarrow> bytes \<times> bytes list" where
  "take_chunk [] n = ([], [])"
| "take_chunk ([] # cs) n = take_chunk cs n"
| "take_chunk (c # cs) n = (take n c, if length c \<le> n then cs else drop n c # cs)"

definition net_read :: "net_stream \<Rightarrow> nat \<Rightarrow> (io_error + bytes) poll \<times> net_stream" where
  "net_read s n =
     (if n = 0 then (Ready (Inr []), s)
      else let (b, cs) = take_chunk (chunks s) n in
        if b = [] then (read_at_end (net_end s), s\<lparr>chunks := cs\<rparr>)
        else (Ready (Inr b), s\<lparr>chunks := cs\<rparr>))"

lemma take_chunk_split:
  "0 < n \<Longrightarrow> take_chunk cs n = (b, cs') \<Longrightarrow>
     b @ concat cs' = concat cs \<and> length b \<le> n \<and> (b = [] \<longrightarrow> concat cs = [] \<and> cs' = [])"
  by (induction cs n arbitrary: b cs' rule: take_chunk.induct) (auto split: if_splits)

text \<open>\<open>read_exact\<close> reads until the buffer is full; a read of no bytes before that is an error.\<close>

function net_read_exact_loop ::
    "net_stream \<Rightarrow> nat \<Rightarrow> bytes \<Rightarrow> (io_error + bytes) poll \<times> net_stream" where
  "net_read_exact_loop s n acc =
     (if n = 0 then (Ready (Inr acc), s)
      else case net_read s n of
        (Ready (Inr b), s') \<Rightarrow>
          if b = [] then (Ready (Inl UnexpectedEof), s')
          else net_read_exact_loop s' (n - length b) (acc @ b)
      | (Ready (Inl e), s') \<Rightarrow> (Ready (Inl e), s')
      | (Pending, s') \<Rightarrow> (Pending, s'))"
  by pat_completeness auto
termination
  by (relation "measure (\<lambda>(s, n, acc). n)") auto

declare net_read_exact_loop.simps [simp del]

lemma net_read_exact_loop_0 [simp]: "net_read_exact_loop s 0 acc = (Ready (Inr acc), s)"
  by (simp add: net_read_exact_loop.simps)

definition net_ops :: "net_stream reader_ops" where
  "net_ops = \<lparr>rd_read = net_read, rd_read_exact = (\<lambda>s n. net_read_exact_loop s n [])\<rparr>"

definition net_content :: "net_stream \<Rightarrow> bytes" where
  "net_content s = concat (chunks s)"

lemma net_content_new: "net_content \<lparr>chunks = cs, net_end = en\<rparr> = concat cs"
  by (simp add: net_content_def)

lemma net_content_update [simp]: "net_content (s\<lparr>chunks := cs\<rparr>) = concat cs"
  by (simp add: net_content_def)

lemma net_read_data:
  assumes "0 < n" and "net_content s \<noteq> []"
  shows "\<exists>k s'. 0 < k \<and> k \<le> n \<and> k \<le> length (net_content s)
      \<and> net_read s n = (Ready (Inr (take k (net_content s))), s')
      \<and> net_content s' = drop k (net_content s) \<and> net_end s' = net_end s"
proof -
  obtain b cs where tc: "take_chunk (chunks s) n = (b, cs)" by fastforce
  note sp = take_chunk_split [OF assms(1) tc]
  from sp have eq: "net_content s = b @ concat cs" by (simp add: net_content_def)
  from assms(2) sp have b: "b \<noteq> []" by (metis net_content_def)
  from sp have "length b \<le> n" by blast
  with b assms(1) tc eq show ?thesis
    by (intro exI [of _ "length b"] exI [of _ "s\<lparr>chunks := cs\<rparr>"]) (auto simp: net_read_def)
qed

lemma net_read_done:
  assumes "0 < n" and "net_content s = []"
  shows "\<exists>s'. net_read s n = (read_at_end (net_end s), s') \<and> net_content s' = [] \<and> net_end s' = net_end s"
proof -
  obtain b cs where tc: "take_chunk (chunks s) n = (b, cs)" by fastforce
  note sp = take_chunk_split [OF assms(1) tc]
  from sp have "net_content s = b @ concat cs" by (simp add: net_content_def)
  with assms(2) have "b = []" "concat cs = []" by simp_all
  with assms(1) tc show ?thesis by (auto simp: net_read_def net_content_def)
qed

lemma net_read_exact_loop_data:
  "n \<le> length (net_content s) \<Longrightarrow>
     \<exists>s'. net_read_exact_loop s n acc = (Ready (Inr (acc @ take n (net_content s))), s')
       \<and> net_content s' = drop n (net_content s) \<and> net_end s' = net_end s"
proof (induction n arbitrary: s acc rule: less_induct)
  case (less n)
  show ?case
  proof (cases "n = 0")
    case True
    then show ?thesis by simp
  next
    case False
    with less.prems have "net_content s \<noteq> []" by auto
    then obtain k s1 where k: "0 < k" "k \<le> n" "k \<le> length (net_content s)"
      and rd: "net_read s n = (Ready (Inr (take k (net_content s))), s1)"
      and s1: "net_content s1 = drop k (net_content s)" "net_end s1 = net_end s"
      using net_read_data [of n s] False by auto
    have "n - k < n" "n - k \<le> length (net_content s1)" using k less.prems s1 by auto
    from less.IH [OF this, of "acc @ take k (net_content s)"] obtain s' where
      "net_read_exact_loop s1 (n - k) (acc @ take k (net_content s))
         = (Ready (Inr ((acc @ take k (net_content s)) @ take (n - k) (net_content s1))), s')"
      "net_content s' = drop (n - k) (net_content s1)" "net_end s' = net_end s1" by blast
    moreover have "take k (net_content s) @ take (n - k) (net_content s1) = take n (net_content s)"
      using k s1 by (metis le_add_diff_inverse take_add)
    ultimately show ?thesis
      using False k rd s1 by (auto simp: net_read_exact_loop.simps [of s n acc] min_def)
  qed
qed

lemma net_read_exact_loop_short:
  "length (net_content s) < n \<Longrightarrow>
     \<exists>s'. net_read_exact_loop s n acc = (short_read (net_end s), s')
       \<and> net_content s' = [] \<and> net_end s' = net_end s"
proof (induction n arbitrary: s acc rule: less_induct)
  case (less n)
  show ?case
  proof (cases "net_content s = []")
    case True
    then obtain s' where "net_read s n = (read_at_end (net_end s), s')" "net_content s' = []"
      "net_end s' = net_end s"
      using net_read_done [of n s] less.prems by auto
    with less.prems show ?thesis
      by (cases "net_end s") (auto simp: net_read_exact_loop.simps [of s n acc])
  next
    case False
    with less.prems obtain k s1 where k: "0 < k" "k \<le> n" "k \<le> length (net_content s)"
      and rd: "net_read s n = (Ready (Inr (take k (net_content s))), s1)"
      and s1: "net_content s1 = drop k (net_content s)" "net_end s1 = net_end s"
      using net_read_data [of n s] by auto
    have "n - k < n" "length (net_content s1) < n - k" using k less.prems s1 by auto
    from less.IH [OF this, of "acc @ take k (net_content s)"] obtain s' where
      "net_read_exact_loop s1 (n - k) (acc @ take k (net_content s)) = (short_read (net_end s1), s')"
      "net_content s' = []" "net_end s' = net_end s1" by blast
    with k rd s1 less.prems False show ?thesis
      by (auto simp: net_read_exact_loop.simps [of s n acc] min_def)
  qed
qed

interpretation net: byte_stream net_ops net_content net_end
proof unfold_locales
  fix n :: nat and r
  assume "0 < n" and "net_content r \<noteq> []"
  then show "\<exists>k r'. 0 < k \<and> k \<le> n \<and> k \<le> length (net_content r) \<and>
        rd_read net_ops r n = (Ready (Inr (take k (net_content r))), r') \<and>
        net_content r' = drop k (net_content r) \<and> net_end r' = net_end r"
    using net_read_data [of n r] by (simp add: net_ops_def)
next
  fix n :: nat and r
  assume "n \<le> length (net_content r)"
  then show "\<exists>r'. rd_read_exact net_ops r n = (Ready (Inr (take n (net_content r))), r') \<and>
        net_content r' = drop n (net_content r) \<and> net_end r' = net_end r"
    using net_read_exact_loop_data [of n r "[]"] by (simp add: net_ops_def)
qed (simp_all add: net_ops_def net_read_done net_read_exact_loop_short)

end
