(* ===== verification/Noise_Api.thy ===== *)
theory Noise_Api
  imports Framing
begin

text \<open>
  The Noise library (crate \<open>snow\<close>) is not part of the repository.  Its operations are the fields
  of the record \<open>noise_lib\<close>, an argument of every definition that calls it.  A handshake or
  transport operation takes the capacity of the caller's zeroed output buffer and returns the
  bytes it wrote there (the caller truncates the buffer to that count) with its next state; on
  an error the caller drops the state, so none is returned.  Key generation is the value the
  operating system's random source made it return.

  What the code relies on is stated as \<open>noise_pair\<close> (transport) here and \<open>ik_agreement\<close>
  (handshake) in \<open>Handshake\<close>; \<open>Noise_Instance\<close> shows a library that meets both.
\<close>

record ('p, 'b, 'h, 't, 'e) noise_lib =
  n_parse_params :: "string \<Rightarrow> 'e + 'p"
  n_builder_new :: "'p \<Rightarrow> 'b"
  n_prologue :: "'b \<Rightarrow> bytes \<Rightarrow> 'e + 'b"
  n_local_private_key :: "'b \<Rightarrow> bytes \<Rightarrow> 'e + 'b"
  n_remote_public_key :: "'b \<Rightarrow> bytes \<Rightarrow> 'e + 'b"
  n_build_initiator :: "'b \<Rightarrow> 'e + 'h"
  n_build_responder :: "'b \<Rightarrow> 'e + 'h"
  n_generate_keypair :: "'b \<Rightarrow> 'e + (bytes \<times> bytes)"
  n_hs_write :: "'h \<Rightarrow> bytes \<Rightarrow> nat \<Rightarrow> 'e + (bytes \<times> 'h)"
  n_hs_read :: "'h \<Rightarrow> bytes \<Rightarrow> nat \<Rightarrow> 'e + (bytes \<times> 'h)"
  n_remote_static :: "'h \<Rightarrow> bytes option"
  n_into_transport :: "'h \<Rightarrow> 'e + 't"
  n_ts_write :: "'t \<Rightarrow> bytes \<Rightarrow> nat \<Rightarrow> 'e + (bytes \<times> 't)"
  n_ts_read :: "'t \<Rightarrow> bytes \<Rightarrow> nat \<Rightarrow> 'e + (bytes \<times> 't)"

definition NOISE_PARAMS :: string where
  "NOISE_PARAMS = ''Noise_IK_25519_ChaChaPoly_SHA256''"

definition noise_builder :: "('p, 'b, 'h, 't, 'e) noise_lib \<Rightarrow> 'e tunnel_error + 'b" where
  "noise_builder api =
     rbind (map_err Noise (n_parse_params api NOISE_PARAMS))
       (\<lambda>params. map_err Noise (n_prologue api (n_builder_new api params) PREFACE))"

section \<open>Static identities\<close>

record static_keypair =
  sk_private :: bytes
  sk_public :: bytes

text \<open>\<open>Vec<u8>::try_into::<[u8; 32]>\<close>\<close>

definition try_into_32 :: "bytes \<Rightarrow> bytes option" where
  "try_into_32 v = (if length v = 32 then Some v else None)"

definition generate_keypair ::
    "('p, 'b, 'h, 't, 'e) noise_lib \<Rightarrow> 'e tunnel_error + static_keypair" where
  "generate_keypair api =
     rbind (noise_builder api) (\<lambda>b.
     rbind (map_err Noise (n_generate_keypair api b)) (\<lambda>(private, public).
     rbind (ok_or (try_into_32 private) InvalidKeyMaterial) (\<lambda>private.
     rbind (ok_or (try_into_32 public) InvalidKeyMaterial) (\<lambda>public.
       Inr \<lparr>sk_private = private, sk_public = public\<rparr>))))"

text \<open>\<open>Debug\<close>: Rust's \<open>debug_struct\<close> output, with the private field replaced by a constant.\<close>

fun debug_list :: "byte list \<Rightarrow> string" where
  "debug_list [] = []"
| "debug_list [b] = show_nat (unat b)"
| "debug_list (b # bs) = show_nat (unat b) @ '', '' @ debug_list bs"

definition static_keypair_debug :: "static_keypair \<Rightarrow> string" where
  "static_keypair_debug k =
     ''StaticKeypair { private: '' @ [CHR 0x22] @ ''[REDACTED]'' @ [CHR 0x22]
       @ '', public: ['' @ debug_list (sk_public k) @ ''] }''"

lemma generate_keypair_lengths:
  "generate_keypair api = Inr k \<Longrightarrow> length (sk_private k) = 32 \<and> length (sk_public k) = 32"
  by (auto simp: generate_keypair_def result_iff try_into_32_def split: if_splits)

section \<open>What the code relies on: an established transport\<close>

text \<open>
  Two transport states of one session, with the records that are in flight from \<open>a\<close> to \<open>b\<close>
  and from \<open>b\<close> to \<open>a\<close> (each as ciphertext and the plaintext it carries).  Writing a record adds
  a 16-byte tag and puts it in flight; the records in flight are readable in the order they were
  written; the two directions are independent.  A write may also fail (nonce exhaustion); nothing
  is said about ciphertexts that are not the next in flight.
\<close>

coinductive noise_pair ::
    "('p, 'b, 'h, 't, 'e) noise_lib \<Rightarrow> 't \<Rightarrow> 't \<Rightarrow> (bytes \<times> bytes) list \<Rightarrow> (bytes \<times> bytes) list \<Rightarrow> bool"
  for api where
  noise_pair:
    "\<lbrakk>\<And>p c a'. length p \<le> MAX_PLAINTEXT_RECORD \<Longrightarrow>
         n_ts_write api a p (length p + 16) = Inr (c, a') \<Longrightarrow>
         length c = length p + 16 \<and> noise_pair api a' b (ab @ [(c, p)]) ba;
      \<And>p c b'. length p \<le> MAX_PLAINTEXT_RECORD \<Longrightarrow>
         n_ts_write api b p (length p + 16) = Inr (c, b') \<Longrightarrow>
         length c = length p + 16 \<and> noise_pair api a b' ab (ba @ [(c, p)]);
      \<And>c p rest. ab = (c, p) # rest \<Longrightarrow>
         \<exists>b'. n_ts_read api b c (length c - 16) = Inr (p, b') \<and> noise_pair api a b' rest ba;
      \<And>c p rest. ba = (c, p) # rest \<Longrightarrow>
         \<exists>a'. n_ts_read api a c (length c - 16) = Inr (p, a') \<and> noise_pair api a' b ab rest\<rbrakk>
     \<Longrightarrow> noise_pair api a b ab ba"

lemma noise_pair_write:
  "noise_pair api a b ab ba \<Longrightarrow> length p \<le> MAX_PLAINTEXT_RECORD \<Longrightarrow>
     n_ts_write api a p (length p + 16) = Inr (c, a') \<Longrightarrow>
     length c = length p + 16 \<and> noise_pair api a' b (ab @ [(c, p)]) ba"
  by (erule noise_pair.cases) blast

lemma noise_pair_read:
  "noise_pair api a b ((c, p) # rest) ba \<Longrightarrow>
     \<exists>b'. n_ts_read api b c (length c - 16) = Inr (p, b') \<and> noise_pair api a b' rest ba"
  by (erule noise_pair.cases) blast

lemma noise_pair_write_back:
  "noise_pair api a b ab ba \<Longrightarrow> length p \<le> MAX_PLAINTEXT_RECORD \<Longrightarrow>
     n_ts_write api b p (length p + 16) = Inr (c, b') \<Longrightarrow>
     length c = length p + 16 \<and> noise_pair api a b' ab (ba @ [(c, p)])"
  by (erule noise_pair.cases) blast

lemma noise_pair_read_back:
  "noise_pair api a b ab ((c, p) # rest) \<Longrightarrow>
     \<exists>a'. n_ts_read api a c (length c - 16) = Inr (p, a') \<and> noise_pair api a' b ab rest"
  by (erule noise_pair.cases) blast

lemma noise_pair_sym:
  assumes "noise_pair api a b ab ba"
  shows "noise_pair api b a ba ab"
proof (rule noise_pair.coinduct [where X = "\<lambda>x y xy yx. noise_pair api y x yx xy", OF assms])
  fix x y xy yx
  assume P: "noise_pair api y x yx xy"
  show "\<exists>a b ab ba. x = a \<and> y = b \<and> xy = ab \<and> yx = ba \<and>
      (\<forall>p c a'. length p \<le> MAX_PLAINTEXT_RECORD \<longrightarrow> n_ts_write api a p (length p + 16) = Inr (c, a') \<longrightarrow>
         length c = length p + 16 \<and>
         (noise_pair api b a' ba (ab @ [(c, p)]) \<or> noise_pair api a' b (ab @ [(c, p)]) ba)) \<and>
      (\<forall>p c b'. length p \<le> MAX_PLAINTEXT_RECORD \<longrightarrow> n_ts_write api b p (length p + 16) = Inr (c, b') \<longrightarrow>
         length c = length p + 16 \<and>
         (noise_pair api b' a (ba @ [(c, p)]) ab \<or> noise_pair api a b' ab (ba @ [(c, p)]))) \<and>
      (\<forall>c p rest. ab = (c, p) # rest \<longrightarrow>
         (\<exists>b'. n_ts_read api b c (length c - 16) = Inr (p, b') \<and>
            (noise_pair api b' a ba rest \<or> noise_pair api a b' rest ba))) \<and>
      (\<forall>c p rest. ba = (c, p) # rest \<longrightarrow>
         (\<exists>a'. n_ts_read api a c (length c - 16) = Inr (p, a') \<and>
            (noise_pair api b a' rest ab \<or> noise_pair api a' b ab rest)))"
  proof (rule exI [of _ x], rule exI [of _ y], rule exI [of _ xy], rule exI [of _ yx], intro conjI)
    show "\<forall>c p rest. xy = (c, p) # rest \<longrightarrow>
         (\<exists>b'. n_ts_read api y c (length c - 16) = Inr (p, b') \<and>
            (noise_pair api b' x yx rest \<or> noise_pair api x b' rest yx))"
      using noise_pair_read_back [where api = api and a = y and b = x and ab = yx] P by metis
    show "\<forall>c p rest. yx = (c, p) # rest \<longrightarrow>
         (\<exists>a'. n_ts_read api x c (length c - 16) = Inr (p, a') \<and>
            (noise_pair api y a' rest xy \<or> noise_pair api a' y xy rest))"
      using noise_pair_read [where api = api and a = y and b = x and ba = xy] P by metis
    show "\<forall>p c a'. length p \<le> MAX_PLAINTEXT_RECORD \<longrightarrow> n_ts_write api x p (length p + 16) = Inr (c, a') \<longrightarrow>
         length c = length p + 16 \<and>
         (noise_pair api y a' yx (xy @ [(c, p)]) \<or> noise_pair api a' y (xy @ [(c, p)]) yx)"
      using noise_pair_write_back [OF P] by blast
    show "\<forall>p c b'. length p \<le> MAX_PLAINTEXT_RECORD \<longrightarrow> n_ts_write api y p (length p + 16) = Inr (c, b') \<longrightarrow>
         length c = length p + 16 \<and>
         (noise_pair api b' x (yx @ [(c, p)]) xy \<or> noise_pair api x b' xy (yx @ [(c, p)]))"
      using noise_pair_write [OF P] by blast
  qed (rule refl)+
qed

end
