(* ===== verification/Transport.thy ===== *)
theory Transport
  imports Noise_Api
begin

text \<open>
  \<open>TransportSession\<close>, \<open>seal_record\<close> and \<open>open_record\<close> of \<open>crates/secure-tunnel/src/lib.rs\<close>.

  The session is an \<open>Arc<Mutex<Option<TransportState>>>\<close>: one cell, shared by the
  \<open>TransportSender\<close> and the \<open>TransportReceiver\<close> that \<open>split\<close> makes.  The cell is the value
  \<open>cipher_cell\<close>; whoever owns a handle passes the same cell, so a failure in one direction is
  seen by the other.  \<open>locked.take()\<close> leaves \<open>None\<close> behind until the operation has
  succeeded.
\<close>

section \<open>Runs of operations and components that fail closed\<close>

fun run_ops :: "('s \<Rightarrow> 'i \<Rightarrow> 's \<times> 'r) \<Rightarrow> 's \<Rightarrow> 'i list \<Rightarrow> 's \<times> 'r list" where
  "run_ops step s [] = (s, [])"
| "run_ops step s (i # is) =
     (let (s1, r) = step s i; (s2, rs) = run_ops step s1 is in (s2, r # rs))"

lemma run_ops_append:
  "run_ops step s (is @ js) =
     (let (s1, rs) = run_ops step s is; (s2, ts) = run_ops step s1 js in (s2, rs @ ts))"
  by (induction "is" arbitrary: s) (auto simp: Let_def split: prod.splits)

text \<open>
  The contract: an operation that reports an error has left the state alone (it was refused at a
  check before any cryptography) or has closed it, and a closed component stays closed.
\<close>

locale fail_closed =
  fixes step :: "'s \<Rightarrow> 'i \<Rightarrow> 's \<times> ('err + 'o)" and closed :: "'s \<Rightarrow> bool"
  assumes closed_step: "closed s \<Longrightarrow> closed (fst (step s i)) \<and> (\<exists>e. snd (step s i) = Inl e)"
    and error_closes: "snd (step s i) = Inl e \<Longrightarrow> fst (step s i) = s \<or> closed (fst (step s i))"
begin

lemma closed_forever:
  "closed s \<Longrightarrow> closed (fst (run_ops step s is)) \<and> (\<forall>r \<in> set (snd (run_ops step s is)). \<exists>e. r = Inl e)"
proof (induction "is" arbitrary: s)
  case Nil
  then show ?case by simp
next
  case (Cons i "is")
  from Cons.prems have c: "closed (fst (step s i))" and e: "\<exists>e. snd (step s i) = Inl e"
    using closed_step by blast+
  from Cons.IH [OF c] e show ?case
    by (cases "step s i"; cases "run_ops step (fst (step s i)) is") (simp add: Let_def)
qed

text \<open>After the first error that touched the state, no operation succeeds.\<close>

lemma error_latches:
  assumes "snd (step s i) = Inl e" and "fst (step s i) \<noteq> s"
  shows "\<forall>r \<in> set (snd (run_ops step (fst (step s i)) is)). \<exists>d. r = Inl d"
  using error_closes [OF assms(1)] assms(2) closed_forever by blast

end

section \<open>Records\<close>

record 't cipher_cell =
  poisoned :: bool
  transport :: "'t option"

definition transport_session_new :: "'t \<Rightarrow> 't cipher_cell" where
  "transport_session_new t = \<lparr>poisoned = False, transport = Some t\<rparr>"

definition seal_record ::
    "('p, 'b, 'h, 't, 'e) noise_lib \<Rightarrow> 't cipher_cell \<Rightarrow> bytes
       \<Rightarrow> 't cipher_cell \<times> ('e tunnel_error + bytes)" where
  "seal_record api cell plaintext =
     (if MAX_PLAINTEXT_RECORD < length plaintext
      then (cell, Inl (PlaintextTooLarge (length plaintext)))
      else if poisoned cell then (cell, Inl PoisonedCipherState)
      else case transport cell of
        None \<Rightarrow> (cell, Inl ClosedSession)
      | Some t \<Rightarrow>
          let taken = cell\<lparr>transport := None\<rparr> in
          (case n_ts_write api t plaintext (length plaintext + 16) of
             Inl e \<Rightarrow> (taken, Inl (Noise e))
           | Inr (ciphertext, t') \<Rightarrow>
               if MAX_CIPHERTEXT_RECORD < length ciphertext
               then (taken, Inl (CiphertextTooLarge (length ciphertext)))
               else (case u32_try_from (length ciphertext) of
                       None \<Rightarrow> (taken, Inl (CiphertextTooLarge (length ciphertext)))
                     | Some len \<Rightarrow>
                         (cell\<lparr>transport := Some t'\<rparr>, Inr (u32_to_be_bytes len @ ciphertext)))))"

definition open_record ::
    "('p, 'b, 'h, 't, 'e) noise_lib \<Rightarrow> 't cipher_cell \<Rightarrow> bytes
       \<Rightarrow> 't cipher_cell \<times> ('e tunnel_error + bytes)" where
  "open_record api cell frame =
     (case decode_record_frame frame of
        Inl e \<Rightarrow> (cell, Inl e)
      | Inr ciphertext \<Rightarrow>
          if poisoned cell then (cell, Inl PoisonedCipherState)
          else case transport cell of
            None \<Rightarrow> (cell, Inl ClosedSession)
          | Some t \<Rightarrow>
              let taken = cell\<lparr>transport := None\<rparr> in
              (case n_ts_read api t ciphertext (length ciphertext - 16) of
                 Inl e \<Rightarrow> (taken, Inl (Noise e))
               | Inr (plaintext, t') \<Rightarrow>
                   if MAX_PLAINTEXT_RECORD < length plaintext
                   then (taken, Inl (PlaintextTooLarge (length plaintext)))
                   else (cell\<lparr>transport := Some t'\<rparr>, Inr plaintext)))"

text \<open>Both handles of a split session act on the one cell.\<close>

datatype record_op = Seal bytes | Open bytes

fun record_step ::
    "('p, 'b, 'h, 't, 'e) noise_lib \<Rightarrow> 't cipher_cell \<Rightarrow> record_op
       \<Rightarrow> 't cipher_cell \<times> ('e tunnel_error + bytes)" where
  "record_step api cell (Seal plaintext) = seal_record api cell plaintext"
| "record_step api cell (Open frame) = open_record api cell frame"

definition cell_closed :: "'t cipher_cell \<Rightarrow> bool" where
  "cell_closed cell \<longleftrightarrow> transport cell = None \<or> poisoned cell"

lemma seal_record_closed:
  "cell_closed cell \<Longrightarrow> fst (seal_record api cell p) = cell \<and> (\<exists>e. snd (seal_record api cell p) = Inl e)"
  by (auto simp: seal_record_def cell_closed_def split: option.splits)

lemma open_record_closed:
  "cell_closed cell \<Longrightarrow> fst (open_record api cell f) = cell \<and> (\<exists>e. snd (open_record api cell f) = Inl e)"
  by (auto simp: open_record_def cell_closed_def split: option.splits sum.splits)

lemma seal_record_error:
  "snd (seal_record api cell p) = Inl e \<Longrightarrow>
     fst (seal_record api cell p) = cell \<or> cell_closed (fst (seal_record api cell p))"
  by (auto simp: seal_record_def cell_closed_def Let_def split: option.splits sum.splits if_splits)

lemma open_record_error:
  "snd (open_record api cell f) = Inl e \<Longrightarrow>
     fst (open_record api cell f) = cell \<or> cell_closed (fst (open_record api cell f))"
  by (auto simp: open_record_def cell_closed_def Let_def split: option.splits sum.splits if_splits)

interpretation session: fail_closed "record_step api" cell_closed
  for api :: "('p, 'b, 'h, 't, 'e) noise_lib"
proof unfold_locales
  fix s :: "'t cipher_cell" and i
  assume "cell_closed s"
  then show "cell_closed (fst (record_step api s i)) \<and> (\<exists>e. snd (record_step api s i) = Inl e)"
    by (cases i) (simp_all add: seal_record_closed open_record_closed)
next
  fix s :: "'t cipher_cell" and i e
  assume "snd (record_step api s i) = Inl e"
  then show "fst (record_step api s i) = s \<or> cell_closed (fst (record_step api s i))"
    by (cases i) (auto dest: seal_record_error open_record_error)
qed

text \<open>The shape of a sealed record, and opening it at the peer.\<close>

lemma seal_record_Inr:
  assumes "seal_record api cell p = (cell', Inr f)"
  obtains t t' c where "transport cell = Some t" "\<not> poisoned cell" "length p \<le> MAX_PLAINTEXT_RECORD"
    and "n_ts_write api t p (length p + 16) = Inr (c, t')" "length c \<le> MAX_CIPHERTEXT_RECORD"
    and "f = framed record_header c" "cell' = cell\<lparr>transport := Some t'\<rparr>"
  using assms
  by (auto simp: seal_record_def Let_def u32_try_from_def framed_def record_header_def
      split: option.splits sum.splits if_splits)

lemma open_record_framed:
  assumes "length c \<le> MAX_CIPHERTEXT_RECORD" and "\<not> poisoned cell" and "transport cell = Some t"
    and "n_ts_read api t c (length c - 16) = Inr (p, t')" and "length p \<le> MAX_PLAINTEXT_RECORD"
  shows "open_record api cell (framed record_header c) = (cell\<lparr>transport := Some t'\<rparr>, Inr p)"
  using assms by (simp add: open_record_def Let_def rec_frame.decode_framed)

lemma seal_record_length:
  "seal_record api cell p = (cell', Inr f) \<Longrightarrow> length f \<le> MAX_CIPHERTEXT_RECORD + 4"
  by (erule seal_record_Inr) (simp add: rec_frame.framed_length)

end
