(* ===== verification/Telemetry.thy ===== *)
theory Telemetry
  imports Tunnel_Errors
begin

text \<open>
  Connection telemetry, close reasons and process metrics of the two binaries
  (\<open>crates/secure-tunnel-client/src/main.rs\<close>, \<open>crates/secure-tunnel-server/src/main.rs\<close>).  The
  types are declared twice in the source with the same fields, so they are one record here; the
  functions are modelled once per binary, and shown to agree.  Atomic counters are 64-bit words
  (\<open>fetch_add\<close> and \<open>fetch_sub\<close> wrap); a time is a count of nanoseconds.
\<close>

section \<open>Close reasons\<close>

datatype close_reason =
    PeerClosed | Shutdown | IdleTimeout | OuterTlsFailed | NoiseHandshakeFailed | DecryptFailed
  | DestinationConnectFailed | UnauthorizedClient | TransportError

definition client_close_reason_from_error :: "anyhow \<Rightarrow> close_reason" where
  "client_close_reason_from_error error =
     (let message = to_ascii_lowercase (join_chain error) in
      if str_contains message ''shutdown requested'' then Shutdown
      else if str_contains message ''idle timeout'' then IdleTimeout
      else if str_contains message ''outer tls'' \<or> str_contains message ''certificate''
      then OuterTlsFailed
      else if str_contains message ''decrypt'' then DecryptFailed
      else if str_contains message ''destination connect'' then DestinationConnectFailed
      else if str_contains message ''unauthorised client'' \<or> str_contains message ''unauthorized client''
      then UnauthorizedClient
      else if str_contains message ''noise handshake'' \<or> str_contains message ''preface''
              \<or> str_contains message ''handshake''
      then NoiseHandshakeFailed
      else TransportError)"

definition server_close_reason_from_error :: "anyhow \<Rightarrow> close_reason" where
  "server_close_reason_from_error error =
     (let message = to_ascii_lowercase (join_chain error) in
      if str_contains message ''shutdown requested'' then Shutdown
      else if str_contains message ''idle timeout'' then IdleTimeout
      else if str_contains message ''outer tls'' \<or> str_contains message ''certificate''
      then OuterTlsFailed
      else if str_contains message ''decrypt'' then DecryptFailed
      else if str_contains message ''destination connect'' then DestinationConnectFailed
      else if str_contains message ''unauthorised client'' \<or> str_contains message ''unauthorized client''
      then UnauthorizedClient
      else if str_contains message ''noise handshake'' \<or> str_contains message ''preface''
              \<or> str_contains message ''handshake''
      then NoiseHandshakeFailed
      else TransportError)"

fun close_reason_as_str :: "close_reason \<Rightarrow> string" where
  "close_reason_as_str PeerClosed = ''peer_closed''"
| "close_reason_as_str Shutdown = ''shutdown''"
| "close_reason_as_str IdleTimeout = ''idle_timeout''"
| "close_reason_as_str OuterTlsFailed = ''outer_tls_failed''"
| "close_reason_as_str NoiseHandshakeFailed = ''noise_handshake_failed''"
| "close_reason_as_str DecryptFailed = ''decrypt_failed''"
| "close_reason_as_str DestinationConnectFailed = ''destination_connect_failed''"
| "close_reason_as_str UnauthorizedClient = ''unauthorized_client''"
| "close_reason_as_str TransportError = ''transport_error''"

fun server_close_reason_as_str :: "close_reason \<Rightarrow> string" where
  "server_close_reason_as_str PeerClosed = ''peer_closed''"
| "server_close_reason_as_str Shutdown = ''shutdown''"
| "server_close_reason_as_str IdleTimeout = ''idle_timeout''"
| "server_close_reason_as_str OuterTlsFailed = ''outer_tls_failed''"
| "server_close_reason_as_str NoiseHandshakeFailed = ''noise_handshake_failed''"
| "server_close_reason_as_str DecryptFailed = ''decrypt_failed''"
| "server_close_reason_as_str DestinationConnectFailed = ''destination_connect_failed''"
| "server_close_reason_as_str UnauthorizedClient = ''unauthorized_client''"
| "server_close_reason_as_str TransportError = ''transport_error''"

text \<open>The client also logs the stage of the failure.\<close>

definition error_stage :: "anyhow \<Rightarrow> string" where
  "error_stage error =
     (let message = to_ascii_lowercase (join_chain error) in
      if str_contains message ''local tcp nodelay'' then ''local_nodelay''
      else if str_contains message ''local tcp keepalive'' then ''local_keepalive''
      else if str_contains message ''remote connect'' then ''remote_connect''
      else if str_contains message ''remote tcp nodelay'' then ''remote_nodelay''
      else if str_contains message ''remote tcp keepalive'' then ''remote_keepalive''
      else if str_contains message ''noise handshake'' \<or> str_contains message ''preface''
      then ''noise_handshake''
      else ''other'')"

section \<open>Connection telemetry\<close>

record connection_telemetry =
  tel_id :: "64 word"
  opened_at :: nat
  handshake_succeeded :: bool
  bytes_client_to_server :: "64 word"
  bytes_server_to_client :: "64 word"

definition telemetry_new :: "64 word \<Rightarrow> nat \<Rightarrow> connection_telemetry" where
  "telemetry_new conn_id now =
     \<lparr>tel_id = conn_id, opened_at = now, handshake_succeeded = False,
      bytes_client_to_server = 0, bytes_server_to_client = 0\<rparr>"

definition server_telemetry_new :: "64 word \<Rightarrow> nat \<Rightarrow> connection_telemetry" where
  "server_telemetry_new conn_id now =
     \<lparr>tel_id = conn_id, opened_at = now, handshake_succeeded = False,
      bytes_client_to_server = 0, bytes_server_to_client = 0\<rparr>"

section \<open>Process metrics\<close>

record tunnel_metrics =
  active_connections :: "64 word"
  next_connection_id :: "64 word"
  handshake_success_total :: "64 word"
  handshake_failure_total :: "64 word"
  unauthorized_client_total :: "64 word"
  decrypt_failure_total :: "64 word"
  connections_total :: "64 word"
  bytes_in_total :: "64 word"
  bytes_out_total :: "64 word"
  connection_duration_ms_total :: "64 word"
  destination_connect_failure_total :: "64 word"

definition metrics_default :: tunnel_metrics where
  "metrics_default =
     \<lparr>active_connections = 0, next_connection_id = 0, handshake_success_total = 0,
      handshake_failure_total = 0, unauthorized_client_total = 0, decrypt_failure_total = 0,
      connections_total = 0, bytes_in_total = 0, bytes_out_total = 0,
      connection_duration_ms_total = 0, destination_connect_failure_total = 0\<rparr>"

definition connection_opened :: "tunnel_metrics \<Rightarrow> nat \<Rightarrow> tunnel_metrics \<times> connection_telemetry" where
  "connection_opened m now =
     (m\<lparr>active_connections := active_connections m + 1,
        connections_total := connections_total m + 1,
        next_connection_id := next_connection_id m + 1\<rparr>,
      telemetry_new (next_connection_id m + 1) now)"

definition server_connection_opened :: "tunnel_metrics \<Rightarrow> nat \<Rightarrow> tunnel_metrics \<times> connection_telemetry" where
  "server_connection_opened m now =
     (m\<lparr>active_connections := active_connections m + 1,
        connections_total := connections_total m + 1,
        next_connection_id := next_connection_id m + 1\<rparr>,
      server_telemetry_new (next_connection_id m + 1) now)"

text \<open>\<open>snapshot\<close> reads every counter but the next connection id.\<close>

record metrics_snapshot =
  snap_active :: "64 word"
  snap_handshake_success :: "64 word"
  snap_handshake_failure :: "64 word"
  snap_unauthorized :: "64 word"
  snap_decrypt_failure :: "64 word"
  snap_connections :: "64 word"
  snap_bytes_in :: "64 word"
  snap_bytes_out :: "64 word"
  snap_duration_ms :: "64 word"
  snap_destination_failure :: "64 word"

definition client_snapshot :: "tunnel_metrics \<Rightarrow> metrics_snapshot" where
  "client_snapshot m =
     \<lparr>snap_active = active_connections m, snap_handshake_success = handshake_success_total m,
      snap_handshake_failure = handshake_failure_total m,
      snap_unauthorized = unauthorized_client_total m,
      snap_decrypt_failure = decrypt_failure_total m, snap_connections = connections_total m,
      snap_bytes_in = bytes_in_total m, snap_bytes_out = bytes_out_total m,
      snap_duration_ms = connection_duration_ms_total m,
      snap_destination_failure = destination_connect_failure_total m\<rparr>"

definition server_snapshot :: "tunnel_metrics \<Rightarrow> metrics_snapshot" where
  "server_snapshot m =
     \<lparr>snap_active = active_connections m, snap_handshake_success = handshake_success_total m,
      snap_handshake_failure = handshake_failure_total m,
      snap_unauthorized = unauthorized_client_total m,
      snap_decrypt_failure = decrypt_failure_total m, snap_connections = connections_total m,
      snap_bytes_in = bytes_in_total m, snap_bytes_out = bytes_out_total m,
      snap_duration_ms = connection_duration_ms_total m,
      snap_destination_failure = destination_connect_failure_total m\<rparr>"

definition client_connection_closed ::
    "tunnel_metrics \<Rightarrow> connection_telemetry \<Rightarrow> close_reason \<Rightarrow> 64 word \<Rightarrow> tunnel_metrics" where
  "client_connection_closed m tel reason duration_ms =
     (let m = m\<lparr>active_connections := active_connections m - 1\<rparr>;
          handshaken = handshake_succeeded tel;
          m = (if handshaken then m\<lparr>handshake_success_total := handshake_success_total m + 1\<rparr>
               else if reason \<noteq> Shutdown
               then m\<lparr>handshake_failure_total := handshake_failure_total m + 1\<rparr> else m);
          m = (if reason = UnauthorizedClient
               then m\<lparr>unauthorized_client_total := unauthorized_client_total m + 1\<rparr> else m);
          m = (if reason = DecryptFailed
               then m\<lparr>decrypt_failure_total := decrypt_failure_total m + 1\<rparr> else m);
          m = (if reason = DestinationConnectFailed
               then m\<lparr>destination_connect_failure_total := destination_connect_failure_total m + 1\<rparr>
               else m);
          m = m\<lparr>bytes_in_total := bytes_in_total m + bytes_client_to_server tel\<rparr>;
          m = m\<lparr>bytes_out_total := bytes_out_total m + bytes_server_to_client tel\<rparr>
      in m\<lparr>connection_duration_ms_total := connection_duration_ms_total m + duration_ms\<rparr>)"

definition server_connection_closed ::
    "tunnel_metrics \<Rightarrow> connection_telemetry \<Rightarrow> close_reason \<Rightarrow> 64 word \<Rightarrow> tunnel_metrics" where
  "server_connection_closed m tel reason duration_ms =
     (let m = m\<lparr>active_connections := active_connections m - 1\<rparr>;
          m = (if handshake_succeeded tel
               then m\<lparr>handshake_success_total := handshake_success_total m + 1\<rparr>
               else if reason \<noteq> Shutdown
               then m\<lparr>handshake_failure_total := handshake_failure_total m + 1\<rparr> else m);
          m = (if reason = UnauthorizedClient
               then m\<lparr>unauthorized_client_total := unauthorized_client_total m + 1\<rparr> else m);
          m = (if reason = DecryptFailed
               then m\<lparr>decrypt_failure_total := decrypt_failure_total m + 1\<rparr> else m);
          m = (if reason = DestinationConnectFailed
               then m\<lparr>destination_connect_failure_total := destination_connect_failure_total m + 1\<rparr>
               else m);
          m = m\<lparr>bytes_in_total := bytes_in_total m + bytes_client_to_server tel\<rparr>;
          m = m\<lparr>bytes_out_total := bytes_out_total m + bytes_server_to_client tel\<rparr>
      in m\<lparr>connection_duration_ms_total := connection_duration_ms_total m + duration_ms\<rparr>)"

text \<open>\<open>finish_connection\<close>: the result of the session decides the reason; \<open>as_millis().min(u64::MAX)\<close>
  clamps the duration.  The log line carries the reason, the client's also the stage.\<close>

definition duration_ms :: "connection_telemetry \<Rightarrow> nat \<Rightarrow> 64 word" where
  "duration_ms tel now = of_nat (min ((now - opened_at tel) div 1000000) (2 ^ 64 - 1))"

record close_log =
  log_id :: "64 word"
  log_handshake_result :: string
  log_close_reason :: string
  log_error_stage :: "string option"
  log_duration_ms :: "64 word"
  log_bytes_c2s :: "64 word"
  log_bytes_s2c :: "64 word"

definition client_finish_connection ::
    "tunnel_metrics \<Rightarrow> connection_telemetry \<Rightarrow> nat \<Rightarrow> anyhow + unit \<Rightarrow> tunnel_metrics \<times> close_log" where
  "client_finish_connection m tel now result =
     (let reason = (case result of Inl e \<Rightarrow> client_close_reason_from_error e | Inr _ \<Rightarrow> PeerClosed);
          stage = (case result of Inl e \<Rightarrow> error_stage e | Inr _ \<Rightarrow> ''complete'');
          d = duration_ms tel now;
          handshake_result = (if handshake_succeeded tel then ''success'' else ''failure'')
      in (client_connection_closed m tel reason d,
          \<lparr>log_id = tel_id tel, log_handshake_result = handshake_result,
           log_close_reason = close_reason_as_str reason, log_error_stage = Some stage,
           log_duration_ms = d, log_bytes_c2s = bytes_client_to_server tel,
           log_bytes_s2c = bytes_server_to_client tel\<rparr>))"

definition server_finish_connection ::
    "tunnel_metrics \<Rightarrow> connection_telemetry \<Rightarrow> nat \<Rightarrow> anyhow + unit \<Rightarrow> tunnel_metrics \<times> close_log" where
  "server_finish_connection m tel now result =
     (let reason = (case result of Inl e \<Rightarrow> server_close_reason_from_error e | Inr _ \<Rightarrow> PeerClosed);
          d = duration_ms tel now;
          handshake_result = (if handshake_succeeded tel then ''success'' else ''failure'')
      in (server_connection_closed m tel reason d,
          \<lparr>log_id = tel_id tel, log_handshake_result = handshake_result,
           log_close_reason = server_close_reason_as_str reason, log_error_stage = None,
           log_duration_ms = d, log_bytes_c2s = bytes_client_to_server tel,
           log_bytes_s2c = bytes_server_to_client tel\<rparr>))"

text \<open>\<open>log_snapshot\<close>: the fields of the line \<open>tunnel metrics\<close>, by name.\<close>

definition client_log_snapshot :: "tunnel_metrics \<Rightarrow> (string \<times> 64 word) list" where
  "client_log_snapshot m =
     (let snapshot = client_snapshot m in
      [(''active_connections'', snap_active snapshot),
       (''handshake_success_total'', snap_handshake_success snapshot),
       (''handshake_failure_total'', snap_handshake_failure snapshot),
       (''unauthorized_client_total'', snap_unauthorized snapshot),
       (''decrypt_failure_total'', snap_decrypt_failure snapshot),
       (''connections_total'', snap_connections snapshot),
       (''bytes_in_total'', snap_bytes_in snapshot),
       (''bytes_out_total'', snap_bytes_out snapshot),
       (''connection_duration_ms_total'', snap_duration_ms snapshot),
       (''destination_connect_failure_total'', snap_destination_failure snapshot)])"

definition server_log_snapshot :: "tunnel_metrics \<Rightarrow> (string \<times> 64 word) list" where
  "server_log_snapshot m =
     (let snapshot = server_snapshot m in
      [(''active_connections'', snap_active snapshot),
       (''handshake_success_total'', snap_handshake_success snapshot),
       (''handshake_failure_total'', snap_handshake_failure snapshot),
       (''unauthorized_client_total'', snap_unauthorized snapshot),
       (''decrypt_failure_total'', snap_decrypt_failure snapshot),
       (''connections_total'', snap_connections snapshot),
       (''bytes_in_total'', snap_bytes_in snapshot),
       (''bytes_out_total'', snap_bytes_out snapshot),
       (''connection_duration_ms_total'', snap_duration_ms snapshot),
       (''destination_connect_failure_total'', snap_destination_failure snapshot)])"

section \<open>The two copies agree\<close>

lemma close_reason_from_error_same:
  "server_close_reason_from_error = client_close_reason_from_error"
  by (simp add: fun_eq_iff server_close_reason_from_error_def client_close_reason_from_error_def)

lemma connection_closed_same: "server_connection_closed = client_connection_closed"
  by (simp add: fun_eq_iff server_connection_closed_def client_connection_closed_def Let_def)

lemma connection_opened_same: "server_connection_opened = connection_opened"
  by (simp add: fun_eq_iff server_connection_opened_def connection_opened_def
      server_telemetry_new_def telemetry_new_def)

lemma close_reason_as_str_same: "server_close_reason_as_str = close_reason_as_str"
proof
  show "server_close_reason_as_str r = close_reason_as_str r" for r by (cases r) simp_all
qed

lemma snapshot_same: "server_snapshot = client_snapshot"
  by (simp add: fun_eq_iff server_snapshot_def client_snapshot_def)

lemma finish_connection_same:
  "fst (server_finish_connection m tel now r) = fst (client_finish_connection m tel now r)"
  by (cases r) (simp_all add: server_finish_connection_def client_finish_connection_def Let_def
      close_reason_from_error_same connection_closed_same)

section \<open>What closing a connection counts\<close>

lemma connection_closed_counts:
  defines "one \<equiv> \<lambda>b. if b then 1 else 0"
  shows
    "active_connections (client_connection_closed m tel reason d) = active_connections m - 1"
    "handshake_success_total (client_connection_closed m tel reason d)
       = handshake_success_total m + one (handshake_succeeded tel)"
    "handshake_failure_total (client_connection_closed m tel reason d)
       = handshake_failure_total m + one (\<not> handshake_succeeded tel \<and> reason \<noteq> Shutdown)"
    "unauthorized_client_total (client_connection_closed m tel reason d)
       = unauthorized_client_total m + one (reason = UnauthorizedClient)"
    "decrypt_failure_total (client_connection_closed m tel reason d)
       = decrypt_failure_total m + one (reason = DecryptFailed)"
    "destination_connect_failure_total (client_connection_closed m tel reason d)
       = destination_connect_failure_total m + one (reason = DestinationConnectFailed)"
    "connections_total (client_connection_closed m tel reason d) = connections_total m"
    "next_connection_id (client_connection_closed m tel reason d) = next_connection_id m"
    "bytes_in_total (client_connection_closed m tel reason d)
       = bytes_in_total m + bytes_client_to_server tel"
    "bytes_out_total (client_connection_closed m tel reason d)
       = bytes_out_total m + bytes_server_to_client tel"
    "connection_duration_ms_total (client_connection_closed m tel reason d)
       = connection_duration_ms_total m + d"
  by (simp_all add: client_connection_closed_def Let_def one_def)

lemma close_reason_as_str_inj: "close_reason_as_str a = close_reason_as_str b \<Longrightarrow> a = b"
  by (cases a; cases b) simp_all

lemma log_snapshot_same: "server_log_snapshot = client_log_snapshot"
  by (simp add: fun_eq_iff server_log_snapshot_def client_log_snapshot_def snapshot_same)

section \<open>What a log line can hold\<close>

text \<open>The texts a closed connection can be logged with.\<close>

definition close_labels :: "string set" where
  "close_labels = {''peer_closed'', ''shutdown'', ''idle_timeout'', ''outer_tls_failed'', ''noise_handshake_failed'',
     ''decrypt_failed'', ''destination_connect_failed'', ''unauthorized_client'', ''transport_error''}"

definition stage_labels :: "string set" where
  "stage_labels = {''complete'', ''local_nodelay'', ''local_keepalive'', ''remote_connect'', ''remote_nodelay'',
     ''remote_keepalive'', ''noise_handshake'', ''other''}"

text \<open>A log line is well formed when every text in it is a label; all other fields are numbers.\<close>

definition close_log_wf :: "close_log \<Rightarrow> bool" where
  "close_log_wf l \<longleftrightarrow> log_close_reason l \<in> close_labels \<and> log_handshake_result l \<in> {''success'', ''failure''}
     \<and> (case log_error_stage l of None \<Rightarrow> True | Some st \<Rightarrow> st \<in> stage_labels)"

lemma close_label: "close_reason_as_str r \<in> close_labels"
  by (cases r) (simp_all add: close_labels_def)

lemma stage_label: "error_stage e \<in> stage_labels"
  by (simp add: error_stage_def stage_labels_def Let_def)



section \<open>How the errors of a server session are classified\<close>

text \<open>
  The classification reads the joined text.  These are the texts the server's session code
  produces; \<open>classify_simps\<close> evaluates the search for each pattern.
\<close>

lemmas classify_simps =
  server_close_reason_from_error_def Let_def to_ascii_lowercase_def ascii_lower_def
  str_contains_def sublist_Cons_right char_of_def bit_0

lemma classify_unauthorised:
  "server_close_reason_from_error
     (''Noise handshake failed'' # tunnel_error_chain snow_chain UnauthorisedClient)
   = NoiseHandshakeFailed"
  by (simp add: classify_simps)

lemma classify_invalid_preface:
  "server_close_reason_from_error (tunnel_error_chain snow_chain InvalidPreface) = NoiseHandshakeFailed"
  by (simp add: classify_simps)

lemma classify_unsupported_version:
  "server_close_reason_from_error (tunnel_error_chain snow_chain (UnsupportedVersion 2 0)) = TransportError"
  by (simp add: classify_simps show_nat.simps)

lemma classify_destination_timeout:
  "server_close_reason_from_error [''destination connect timeout'', ''deadline has elapsed'']
   = DestinationConnectFailed"
  by (simp add: classify_simps)

lemma classify_destination_refused:
  "server_close_reason_from_error [''Connection refused (os error 111)''] = TransportError"
  by (simp add: classify_simps)

end
