(* ===== verification/Copy_Loops.thy ===== *)
theory Copy_Loops
  imports Wire_IO Transport Telemetry
begin

text \<open>
  \<open>copy_encrypt\<close> and \<open>copy_decrypt\<close> of both binaries: the two tasks of a relay.

  A task's state is the record \<open>pump\<close>: its halves of the sockets, the shared cipher cell, the
  shared telemetry, and whether the activity channel (capacity one) holds a token.  The body of
  each \<open>loop\<close> is one definition that says whether the loop goes on; \<open>pump_loop\<close> repeats it.
  \<open>pump_loop\<close> is a partial function: a task that never stops has the value \<open>None\<close>, and the lemmas
  below show that it stops (returns, fails, or waits for input) on every finite input.
\<close>

section \<open>Writers\<close>

record 'w writer_ops =
  wr_write_all :: "'w \<Rightarrow> bytes \<Rightarrow> (io_error + unit) poll \<times> 'w"
  wr_flush :: "'w \<Rightarrow> (io_error + unit) poll \<times> 'w"
  wr_shutdown :: "'w \<Rightarrow> (io_error + unit) poll \<times> 'w"

section \<open>Tasks\<close>

datatype 'e relay_error =
    ReadError io_error | WriteError io_error | FrameError wire_error | CryptoError "'e tunnel_error"

record ('r, 'w, 't) pump =
  p_reader :: 'r
  p_writer :: 'w
  p_cell :: "'t cipher_cell"
  p_tel :: connection_telemetry
  p_activity :: bool

definition pump_read :: "'r reader_ops \<Rightarrow> nat \<Rightarrow> ('r, 'w, 't) pump
    \<Rightarrow> ('e relay_error + bytes) poll \<times> ('r, 'w, 't) pump" where
  "pump_read R n s = (case rd_read R (p_reader s) n of (x, r) \<Rightarrow> await_err ReadError (x, s\<lparr>p_reader := r\<rparr>))"

definition pump_write :: "'w writer_ops \<Rightarrow> bytes \<Rightarrow> ('r, 'w, 't) pump
    \<Rightarrow> ('e relay_error + unit) poll \<times> ('r, 'w, 't) pump" where
  "pump_write W b s = (case wr_write_all W (p_writer s) b of (x, w) \<Rightarrow> await_err WriteError (x, s\<lparr>p_writer := w\<rparr>))"

definition pump_flush :: "'w writer_ops \<Rightarrow> ('r, 'w, 't) pump
    \<Rightarrow> ('e relay_error + unit) poll \<times> ('r, 'w, 't) pump" where
  "pump_flush W s = (case wr_flush W (p_writer s) of (x, w) \<Rightarrow> await_err WriteError (x, s\<lparr>p_writer := w\<rparr>))"

definition pump_shutdown :: "'w writer_ops \<Rightarrow> ('r, 'w, 't) pump
    \<Rightarrow> ('e relay_error + unit) poll \<times> ('r, 'w, 't) pump" where
  "pump_shutdown W s = (case wr_shutdown W (p_writer s) of (x, w) \<Rightarrow> await_err WriteError (x, s\<lparr>p_writer := w\<rparr>))"

definition pump_seal :: "('p, 'b, 'h, 't, 'e) noise_lib \<Rightarrow> bytes \<Rightarrow> ('r, 'w, 't) pump
    \<Rightarrow> ('e relay_error + bytes) poll \<times> ('r, 'w, 't) pump" where
  "pump_seal api b s = (case seal_record api (p_cell s) b of (c, x) \<Rightarrow> (Ready (map_err CryptoError x), s\<lparr>p_cell := c\<rparr>))"

definition pump_open :: "('p, 'b, 'h, 't, 'e) noise_lib \<Rightarrow> bytes \<Rightarrow> ('r, 'w, 't) pump
    \<Rightarrow> ('e relay_error + bytes) poll \<times> ('r, 'w, 't) pump" where
  "pump_open api f s = (case open_record api (p_cell s) f of (c, x) \<Rightarrow> (Ready (map_err CryptoError x), s\<lparr>p_cell := c\<rparr>))"

definition pump_frame :: "('r \<Rightarrow> (wire_error + bytes option) poll \<times> 'r) \<Rightarrow> ('r, 'w, 't) pump
    \<Rightarrow> ('e relay_error + bytes option) poll \<times> ('r, 'w, 't) pump" where
  "pump_frame read_frame s =
     (case read_frame (p_reader s) of (x, r) \<Rightarrow> await_err FrameError (x, s\<lparr>p_reader := r\<rparr>))"

text \<open>\<open>activity.try_send(())\<close>: a full or closed channel is ignored.\<close>

definition signal_activity :: "('r, 'w, 't) pump \<Rightarrow> ('r, 'w, 't) pump" where
  "signal_activity s = s\<lparr>p_activity := True\<rparr>"

definition add_client_to_server :: "nat \<Rightarrow> connection_telemetry \<Rightarrow> connection_telemetry" where
  "add_client_to_server n tel = tel\<lparr>bytes_client_to_server := bytes_client_to_server tel + of_nat n\<rparr>"

definition add_server_to_client :: "nat \<Rightarrow> connection_telemetry \<Rightarrow> connection_telemetry" where
  "add_server_to_client n tel = tel\<lparr>bytes_server_to_client := bytes_server_to_client tel + of_nat n\<rparr>"

datatype flow = Continue | Done

definition client_copy_encrypt_iter ::
    "('p, 'b, 'h, 't, 'e) noise_lib \<Rightarrow> 'r reader_ops \<Rightarrow> 'w writer_ops \<Rightarrow> ('r, 'w, 't) pump
       \<Rightarrow> ('e relay_error + flow) poll \<times> ('r, 'w, 't) pump" where
  "client_copy_encrypt_iter api R W s =
     await_bind (pump_read R MAX_PLAINTEXT_RECORD s) (\<lambda>buffer s.
       if length buffer = 0
       then await_bind (pump_shutdown W s) (\<lambda>_ s. (Ready (Inr Done), s))
       else await_bind (pump_seal api buffer s) (\<lambda>frame s.
            await_bind (pump_write W frame s) (\<lambda>_ s.
            await_bind (pump_flush W s) (\<lambda>_ s.
              (Ready (Inr Continue),
               signal_activity (s\<lparr>p_tel := add_client_to_server (length buffer) (p_tel s)\<rparr>))))))"

definition server_copy_encrypt_iter ::
    "('p, 'b, 'h, 't, 'e) noise_lib \<Rightarrow> 'r reader_ops \<Rightarrow> 'w writer_ops \<Rightarrow> ('r, 'w, 't) pump
       \<Rightarrow> ('e relay_error + flow) poll \<times> ('r, 'w, 't) pump" where
  "server_copy_encrypt_iter api R W s =
     await_bind (pump_read R MAX_PLAINTEXT_RECORD s) (\<lambda>buffer s.
       if length buffer = 0
       then await_bind (pump_shutdown W s) (\<lambda>_ s. (Ready (Inr Done), s))
       else await_bind (pump_seal api buffer s) (\<lambda>frame s.
            await_bind (pump_write W frame s) (\<lambda>_ s.
            await_bind (pump_flush W s) (\<lambda>_ s.
              (Ready (Inr Continue),
               signal_activity (s\<lparr>p_tel := add_server_to_client (length buffer) (p_tel s)\<rparr>))))))"

definition client_copy_decrypt_iter ::
    "('p, 'b, 'h, 't, 'e) noise_lib \<Rightarrow> 'r reader_ops \<Rightarrow> 'w writer_ops \<Rightarrow> ('r, 'w, 't) pump
       \<Rightarrow> ('e relay_error + flow) poll \<times> ('r, 'w, 't) pump" where
  "client_copy_decrypt_iter api R W s =
     await_bind (pump_frame (client_read_record_frame R) s) (\<lambda>record s.
       case record of
         None \<Rightarrow> await_bind (pump_shutdown W s) (\<lambda>_ s. (Ready (Inr Done), s))
       | Some record \<Rightarrow>
           await_bind (pump_open api record s) (\<lambda>plaintext s.
           await_bind (pump_write W plaintext s) (\<lambda>_ s.
           await_bind (pump_flush W s) (\<lambda>_ s.
             (Ready (Inr Continue),
              signal_activity (s\<lparr>p_tel := add_server_to_client (length plaintext) (p_tel s)\<rparr>))))))"

definition server_copy_decrypt_iter ::
    "('p, 'b, 'h, 't, 'e) noise_lib \<Rightarrow> 'r reader_ops \<Rightarrow> 'w writer_ops \<Rightarrow> ('r, 'w, 't) pump
       \<Rightarrow> ('e relay_error + flow) poll \<times> ('r, 'w, 't) pump" where
  "server_copy_decrypt_iter api R W s =
     await_bind (pump_frame (server_read_record_frame R) s) (\<lambda>record s.
       case record of
         None \<Rightarrow> await_bind (pump_shutdown W s) (\<lambda>_ s. (Ready (Inr Done), s))
       | Some record \<Rightarrow>
           await_bind (pump_open api record s) (\<lambda>plaintext s.
           await_bind (pump_write W plaintext s) (\<lambda>_ s.
           await_bind (pump_flush W s) (\<lambda>_ s.
             (Ready (Inr Continue),
              signal_activity (s\<lparr>p_tel := add_client_to_server (length plaintext) (p_tel s)\<rparr>))))))"

partial_function (option) pump_loop ::
    "(('r, 'w, 't) pump \<Rightarrow> ('e relay_error + flow) poll \<times> ('r, 'w, 't) pump)
       \<Rightarrow> ('r, 'w, 't) pump \<Rightarrow> (('e relay_error + unit) poll \<times> ('r, 'w, 't) pump) option" where
  "pump_loop iter s =
     (case iter s of
        (Pending, s') \<Rightarrow> Some (Pending, s')
      | (Ready (Inl e), s') \<Rightarrow> Some (Ready (Inl e), s')
      | (Ready (Inr Done), s') \<Rightarrow> Some (Ready (Inr ()), s')
      | (Ready (Inr Continue), s') \<Rightarrow> pump_loop iter s')"

definition client_copy_encrypt where
  "client_copy_encrypt api R W = pump_loop (client_copy_encrypt_iter api R W)"
definition client_copy_decrypt where
  "client_copy_decrypt api R W = pump_loop (client_copy_decrypt_iter api R W)"
definition server_copy_encrypt where
  "server_copy_encrypt api R W = pump_loop (server_copy_encrypt_iter api R W)"
definition server_copy_decrypt where
  "server_copy_decrypt api R W = pump_loop (server_copy_decrypt_iter api R W)"

section \<open>The loop bodies of both binaries as one function\<close>

text \<open>They differ in the counter only.\<close>

definition encrypt_iter ::
    "(nat \<Rightarrow> connection_telemetry \<Rightarrow> connection_telemetry) \<Rightarrow> ('p, 'b, 'h, 't, 'e) noise_lib
       \<Rightarrow> 'r reader_ops \<Rightarrow> 'w writer_ops \<Rightarrow> ('r, 'w, 't) pump
       \<Rightarrow> ('e relay_error + flow) poll \<times> ('r, 'w, 't) pump" where
  "encrypt_iter count api R W s =
     await_bind (pump_read R MAX_PLAINTEXT_RECORD s) (\<lambda>buffer s.
       if length buffer = 0
       then await_bind (pump_shutdown W s) (\<lambda>_ s. (Ready (Inr Done), s))
       else await_bind (pump_seal api buffer s) (\<lambda>frame s.
            await_bind (pump_write W frame s) (\<lambda>_ s.
            await_bind (pump_flush W s) (\<lambda>_ s.
              (Ready (Inr Continue), signal_activity (s\<lparr>p_tel := count (length buffer) (p_tel s)\<rparr>))))))"

definition decrypt_iter ::
    "(nat \<Rightarrow> connection_telemetry \<Rightarrow> connection_telemetry) \<Rightarrow> ('p, 'b, 'h, 't, 'e) noise_lib
       \<Rightarrow> 'r reader_ops \<Rightarrow> 'w writer_ops \<Rightarrow> ('r, 'w, 't) pump
       \<Rightarrow> ('e relay_error + flow) poll \<times> ('r, 'w, 't) pump" where
  "decrypt_iter count api R W s =
     await_bind (pump_frame (client_read_record_frame R) s) (\<lambda>record s.
       case record of
         None \<Rightarrow> await_bind (pump_shutdown W s) (\<lambda>_ s. (Ready (Inr Done), s))
       | Some record \<Rightarrow>
           await_bind (pump_open api record s) (\<lambda>plaintext s.
           await_bind (pump_write W plaintext s) (\<lambda>_ s.
           await_bind (pump_flush W s) (\<lambda>_ s.
             (Ready (Inr Continue), signal_activity (s\<lparr>p_tel := count (length plaintext) (p_tel s)\<rparr>))))))"

lemma copy_iters_eq:
  "client_copy_encrypt_iter = encrypt_iter add_client_to_server"
  "server_copy_encrypt_iter = encrypt_iter add_server_to_client"
  "client_copy_decrypt_iter = decrypt_iter add_server_to_client"
  "server_copy_decrypt_iter = decrypt_iter add_client_to_server"
  by (simp_all add: fun_eq_iff encrypt_iter_def decrypt_iter_def read_record_frame_same
      client_copy_encrypt_iter_def server_copy_encrypt_iter_def client_copy_decrypt_iter_def
      server_copy_decrypt_iter_def)

lemma copy_loops_eq:
  "client_copy_encrypt api R W = pump_loop (encrypt_iter add_client_to_server api R W)"
  "server_copy_encrypt api R W = pump_loop (encrypt_iter add_server_to_client api R W)"
  "client_copy_decrypt api R W = pump_loop (decrypt_iter add_server_to_client api R W)"
  "server_copy_decrypt api R W = pump_loop (decrypt_iter add_client_to_server api R W)"
  by (simp_all only: client_copy_encrypt_def server_copy_encrypt_def client_copy_decrypt_def
      server_copy_decrypt_def copy_iters_eq)

lemma pump_loop_unfold:
  "pump_loop iter s =
     (case iter s of
        (Pending, s') \<Rightarrow> Some (Pending, s')
      | (Ready (Inl e), s') \<Rightarrow> Some (Ready (Inl e), s')
      | (Ready (Inr Done), s') \<Rightarrow> Some (Ready (Inr ()), s')
      | (Ready (Inr Continue), s') \<Rightarrow> pump_loop iter s')"
  by (rule pump_loop.simps)

lemma pump_loop_cases:
  "iter s = (Pending, s') \<Longrightarrow> pump_loop iter s = Some (Pending, s')"
  "iter s = (Ready (Inl e), s') \<Longrightarrow> pump_loop iter s = Some (Ready (Inl e), s')"
  "iter s = (Ready (Inr Done), s') \<Longrightarrow> pump_loop iter s = Some (Ready (Inr ()), s')"
  "iter s = (Ready (Inr Continue), s') \<Longrightarrow> pump_loop iter s = pump_loop iter s'"
  by (simp_all add: pump_loop.simps [of iter s])

section \<open>The ends of a task\<close>

text \<open>
  A writer that works: what it has written, whether it has been flushed since, and whether its
  direction has been shut down.  With the reader's contract it makes the ends of a task.
\<close>

locale byte_sink =
  fixes W :: "'w writer_ops" and written :: "'w \<Rightarrow> bytes" and flushed :: "'w \<Rightarrow> bool"
    and shut :: "'w \<Rightarrow> bool" and healthy :: "'w \<Rightarrow> bool"
  assumes write_ok: "healthy w \<Longrightarrow>
      \<exists>w'. wr_write_all W w b = (Ready (Inr ()), w') \<and> healthy w' \<and> written w' = written w @ b"
    and flush_ok: "healthy w \<Longrightarrow>
      \<exists>w'. wr_flush W w = (Ready (Inr ()), w') \<and> healthy w' \<and> written w' = written w \<and> flushed w'"
    and shutdown_ok: "healthy w \<Longrightarrow>
      \<exists>w'. wr_shutdown W w = (Ready (Inr ()), w') \<and> written w' = written w \<and> shut w'"

text \<open>Records in flight: their wire form and the plaintext they carry.\<close>

definition wire_of :: "(bytes \<times> bytes) list \<Rightarrow> bytes" where
  "wire_of q = concat (map (\<lambda>(c, p). framed record_header c) q)"

definition plain_of :: "(bytes \<times> bytes) list \<Rightarrow> bytes" where
  "plain_of q = concat (map snd q)"

definition valid_records :: "(bytes \<times> bytes) list \<Rightarrow> bool" where
  "valid_records q \<longleftrightarrow> (\<forall>(c, p) \<in> set q. length p \<le> MAX_PLAINTEXT_RECORD \<and> length c = length p + 16)"

lemma records_simps [simp]:
  "wire_of [] = []" "plain_of [] = []" "valid_records []"
  "wire_of ((c, p) # q) = framed record_header c @ wire_of q"
  "plain_of ((c, p) # q) = p @ plain_of q"
  "valid_records ((c, p) # q) \<longleftrightarrow>
     length p \<le> MAX_PLAINTEXT_RECORD \<and> length c = length p + 16 \<and> valid_records q"
  by (simp_all add: wire_of_def plain_of_def valid_records_def)

lemma records_append [simp]:
  "wire_of (q @ q') = wire_of q @ wire_of q'"
  "plain_of (q @ q') = plain_of q @ plain_of q'"
  "valid_records (q @ q') \<longleftrightarrow> valid_records q \<and> valid_records q'"
  by (auto simp: wire_of_def plain_of_def valid_records_def)

lemma framed_record_cons4:
  obtains a b c d where "framed record_header x = a # b # c # d # x"
    and "length x < 2 ^ 32 \<longrightarrow> unat (u32_from_be_bytes a b c d) = length x"
proof -
  have "4 \<le> length (record_header (length x))" by simp
  then obtain a b c d rest where h: "record_header (length x) = a # b # c # d # rest" by (rule list4E)
  moreover have "length (record_header (length x)) = 4" by simp
  ultimately have rest: "rest = []" by simp
  show ?thesis
    by (rule that [of a b c d])
       (use h rest record_header_bytes [of "length x"] in \<open>simp_all add: framed_def\<close>)
qed

lemma parse_record_framed:
  assumes "0 < length c" and "length c \<le> MAX_CIPHERTEXT_RECORD"
  shows "parse_record (framed record_header c @ rest) en = (Ready (Inr (Some (framed record_header c))), rest)"
proof -
  obtain w x y z where f: "framed record_header c = w # x # y # z # c"
    and "length c < 2 ^ 32 \<longrightarrow> unat (u32_from_be_bytes w x y z) = length c"
    using framed_record_cons4 [of c] by metis
  with assms have "unat (u32_from_be_bytes w x y z) = length c" by (simp add: MAX_CIPHERTEXT_RECORD_def)
  with f assms show ?thesis by (simp add: parse_record_def Let_def numeral_eq_Suc)
qed

text \<open>A frame that has not arrived completely: an error at the end of the stream, never a record.\<close>

lemma parse_record_partial:
  assumes "0 < length c" and "length c \<le> MAX_CIPHERTEXT_RECORD"
    and "framed record_header c = bs @ ms" and "bs \<noteq> []" and "ms \<noteq> []"
  shows "parse_record bs en = (fst (await_err WireIo (short_read en, ())), [])"
proof (cases "length bs < 4")
  case True
  with assms(4) show ?thesis by (simp add: parse_record_def)
next
  case False
  then obtain w x y z bs' where bs: "bs = w # x # y # z # bs'"
    using list4E [of bs] by (metis not_less)
  obtain w' x' y' z' where f: "framed record_header c = w' # x' # y' # z' # c"
    and "length c < 2 ^ 32 \<longrightarrow> unat (u32_from_be_bytes w' x' y' z') = length c"
    using framed_record_cons4 [of c] by metis
  with assms(2) have len: "unat (u32_from_be_bytes w' x' y' z') = length c"
    by (simp add: MAX_CIPHERTEXT_RECORD_def)
  from f bs assms(3) have eqs: "w = w'" "x = x'" "y = y'" "z = z'" "c = bs' @ ms" by simp_all
  with assms(5) have "length bs' < length c" by simp
  with bs eqs len assms(1,2) show ?thesis
    by (simp add: parse_record_def Let_def numeral_eq_Suc)
qed

section \<open>A task between a byte stream and a working writer\<close>

locale relay_task = byte_stream R content at_end + byte_sink W written flushed shut healthy
  for R :: "'r reader_ops" and content :: "'r \<Rightarrow> bytes" and at_end :: "'r \<Rightarrow> stream_end"
    and W :: "'w writer_ops" and written :: "'w \<Rightarrow> bytes" and flushed :: "'w \<Rightarrow> bool"
    and shut :: "'w \<Rightarrow> bool" and healthy :: "'w \<Rightarrow> bool" +
  fixes count :: "nat \<Rightarrow> connection_telemetry \<Rightarrow> connection_telemetry"
  assumes count_0: "count 0 tel = tel"
    and count_add: "count n (count m tel) = count (m + n) tel"
begin

lemma encrypt_step_done:
  assumes "content (p_reader s) = []" and "healthy (p_writer s)"
  obtains r' w' where
    "encrypt_iter count api R W s =
       (case at_end (p_reader s) of
          AtEof \<Rightarrow> (Ready (Inr Done), s\<lparr>p_reader := r', p_writer := w'\<rparr>)
        | Broken e \<Rightarrow> (Ready (Inl (ReadError e)), s\<lparr>p_reader := r'\<rparr>)
        | Stalled \<Rightarrow> (Pending, s\<lparr>p_reader := r'\<rparr>))"
    and "written w' = written (p_writer s)" and "shut w'"
proof -
  obtain r' where r': "rd_read R (p_reader s) MAX_PLAINTEXT_RECORD = (read_at_end (at_end (p_reader s)), r')"
    using read_done [of MAX_PLAINTEXT_RECORD "p_reader s"] assms(1) by (auto simp: MAX_PLAINTEXT_RECORD_def)
  obtain w' where "wr_shutdown W (p_writer s) = (Ready (Inr ()), w')" "written w' = written (p_writer s)" "shut w'"
    using shutdown_ok [OF assms(2)] by blast
  with r' show ?thesis
    by (intro that [where r' = r' and w' = w']; cases "at_end (p_reader s)")
       (simp_all add: encrypt_iter_def pump_read_def pump_shutdown_def)
qed

lemma encrypt_step_data:
  assumes "content (p_reader s) \<noteq> []" and "healthy (p_writer s)"
    and cell: "p_cell s = \<lparr>poisoned = False, transport = Some a\<rparr>"
    and pair: "noise_pair api a b q ba"
  obtains (sent) p c a' s' where "encrypt_iter count api R W s = (Ready (Inr Continue), s')"
      "p \<noteq> []" "length p \<le> MAX_PLAINTEXT_RECORD" "length c = length p + 16"
      "content (p_reader s) = p @ content (p_reader s')" "at_end (p_reader s') = at_end (p_reader s)"
      "written (p_writer s') = written (p_writer s) @ framed record_header c"
      "flushed (p_writer s')" "healthy (p_writer s')"
      "p_cell s' = \<lparr>poisoned = False, transport = Some a'\<rparr>" "noise_pair api a' b (q @ [(c, p)]) ba"
      "p_tel s' = count (length p) (p_tel s)" "p_activity s'"
  | (refused) e s' where "encrypt_iter count api R W s = (Ready (Inl (CryptoError (Noise e))), s')"
      "p_writer s' = p_writer s" "p_tel s' = p_tel s" "cell_closed (p_cell s')"
proof -
  obtain k r' where k: "0 < k" "k \<le> MAX_PLAINTEXT_RECORD" "k \<le> length (content (p_reader s))"
    and rd: "rd_read R (p_reader s) MAX_PLAINTEXT_RECORD = (Ready (Inr (take k (content (p_reader s)))), r')"
    and r': "content r' = drop k (content (p_reader s))" "at_end r' = at_end (p_reader s)"
    using read_data [of MAX_PLAINTEXT_RECORD "p_reader s"] assms(1) by (auto simp: MAX_PLAINTEXT_RECORD_def)
  define p where "p = take k (content (p_reader s))"
  have p: "p \<noteq> []" "length p \<le> MAX_PLAINTEXT_RECORD" "content (p_reader s) = p @ content r'"
    using k r' assms(1) by (auto simp: p_def)
  show ?thesis
  proof (cases "n_ts_write api a p (length p + 16)")
    case (Inl e)
    then show ?thesis
      using rd p(1,2) cell
      by (intro refused [of e "s\<lparr>p_reader := r', p_cell := \<lparr>poisoned = False, transport = None\<rparr>\<rparr>"])
         (simp_all add: encrypt_iter_def pump_read_def p_def [symmetric] pump_seal_def seal_record_def
           cell_closed_def)
  next
    case (Inr res)
    then obtain c a' where w: "n_ts_write api a p (length p + 16) = Inr (c, a')" by (cases res) auto
    from noise_pair_write [OF pair p(2) w]
    have c: "length c = length p + 16" and pair': "noise_pair api a' b (q @ [(c, p)]) ba" by blast+
    obtain w1 where w1: "wr_write_all W (p_writer s) (framed record_header c) = (Ready (Inr ()), w1)"
      "healthy w1" "written w1 = written (p_writer s) @ framed record_header c"
      using write_ok [OF assms(2)] by blast
    obtain w2 where w2: "wr_flush W w1 = (Ready (Inr ()), w2)" "healthy w2" "written w2 = written w1" "flushed w2"
      using flush_ok [OF w1(2)] by blast
    have seal: "seal_record api (p_cell s) p =
        (\<lparr>poisoned = False, transport = Some a'\<rparr>, Inr (framed record_header c))"
      using w c p(2) cell
      by (simp add: seal_record_def Let_def u32_try_from_def framed_def record_header_def tunnel_limits)
    let ?s' = "signal_activity (s\<lparr>p_reader := r', p_cell := \<lparr>poisoned = False, transport = Some a'\<rparr>,
       p_writer := w2, p_tel := count (length p) (p_tel s)\<rparr>)"
    have "encrypt_iter count api R W s = (Ready (Inr Continue), ?s')"
      using rd p(1) seal w1 w2
      by (simp add: encrypt_iter_def pump_read_def p_def [symmetric] pump_seal_def pump_write_def pump_flush_def)
    then show ?thesis
      by (rule sent [where p = p and c = c and a' = a'])
         (use p c r' w1 w2 pair' in \<open>simp_all add: signal_activity_def\<close>)
  qed
qed

text \<open>
  The whole sending task.  It stops; what it wrote is a sequence of records whose plaintexts, in
  order, are what it read; nothing it read is held back when it ends or waits.
\<close>

lemma encrypt_loop:
  assumes "healthy (p_writer s)" and "p_cell s = \<lparr>poisoned = False, transport = Some a\<rparr>"
    and "noise_pair api a b q ba"
  shows "\<exists>res s' sent.
      pump_loop (encrypt_iter count api R W) s = Some (res, s') \<and> valid_records sent
      \<and> written (p_writer s') = written (p_writer s) @ wire_of sent
      \<and> p_tel s' = count (length (plain_of sent)) (p_tel s)
      \<and> ((plain_of sent = content (p_reader s)
           \<and> (\<exists>a'. p_cell s' = \<lparr>poisoned = False, transport = Some a'\<rparr> \<and> noise_pair api a' b (q @ sent) ba)
           \<and> (case at_end (p_reader s) of
                AtEof \<Rightarrow> res = Ready (Inr ()) \<and> shut (p_writer s')
              | Broken e \<Rightarrow> res = Ready (Inl (ReadError e))
              | Stalled \<Rightarrow> res = Pending \<and> (sent \<noteq> [] \<or> flushed (p_writer s) \<longrightarrow> flushed (p_writer s'))))
         \<or> ((\<exists>e. res = Ready (Inl (CryptoError (Noise e)))) \<and> cell_closed (p_cell s')
            \<and> (\<exists>a'. noise_pair api a' b (q @ sent) ba)
            \<and> prefix (plain_of sent) (content (p_reader s))))"
  using assms
proof (induction "length (content (p_reader s))" arbitrary: s a q rule: less_induct)
  case less
  show ?case
  proof (cases "content (p_reader s) = []")
    case True
    obtain r' w' where step: "encrypt_iter count api R W s =
       (case at_end (p_reader s) of
          AtEof \<Rightarrow> (Ready (Inr Done), s\<lparr>p_reader := r', p_writer := w'\<rparr>)
        | Broken e \<Rightarrow> (Ready (Inl (ReadError e)), s\<lparr>p_reader := r'\<rparr>)
        | Stalled \<Rightarrow> (Pending, s\<lparr>p_reader := r'\<rparr>))"
      and w': "written w' = written (p_writer s)" "shut w'"
      using encrypt_step_done [OF True less.prems(1)] by blast
    from True step w' less.prems show ?thesis
      by (cases "at_end (p_reader s)")
         (auto simp: pump_loop_cases count_0 intro!: exI [of _ "[] :: (bytes \<times> bytes) list"])
  next
    case False
    show ?thesis
    proof (rule encrypt_step_data [OF False less.prems])
      fix p c a' s1
      assume step: "encrypt_iter count api R W s = (Ready (Inr Continue), s1)"
        and p: "p \<noteq> []" "length p \<le> MAX_PLAINTEXT_RECORD" "length c = length p + 16"
        and src: "content (p_reader s) = p @ content (p_reader s1)" "at_end (p_reader s1) = at_end (p_reader s)"
        and out: "written (p_writer s1) = written (p_writer s) @ framed record_header c"
          "flushed (p_writer s1)" "healthy (p_writer s1)"
        and cell: "p_cell s1 = \<lparr>poisoned = False, transport = Some a'\<rparr>" "noise_pair api a' b (q @ [(c, p)]) ba"
        and tel: "p_tel s1 = count (length p) (p_tel s)"
      have "length (content (p_reader s1)) < length (content (p_reader s))" using src(1) p(1) by simp
      from less.hyps [OF this out(3) cell] obtain res s' sent where
        IH: "pump_loop (encrypt_iter count api R W) s1 = Some (res, s')" "valid_records sent"
          "written (p_writer s') = written (p_writer s1) @ wire_of sent"
          "p_tel s' = count (length (plain_of sent)) (p_tel s1)"
        and fin: "(plain_of sent = content (p_reader s1)
           \<and> (\<exists>a''. p_cell s' = \<lparr>poisoned = False, transport = Some a''\<rparr> \<and> noise_pair api a'' b ((q @ [(c, p)]) @ sent) ba)
           \<and> (case at_end (p_reader s1) of
                AtEof \<Rightarrow> res = Ready (Inr ()) \<and> shut (p_writer s')
              | Broken e \<Rightarrow> res = Ready (Inl (ReadError e))
              | Stalled \<Rightarrow> res = Pending \<and> (sent \<noteq> [] \<or> flushed (p_writer s1) \<longrightarrow> flushed (p_writer s'))))
         \<or> ((\<exists>e. res = Ready (Inl (CryptoError (Noise e)))) \<and> cell_closed (p_cell s')
            \<and> (\<exists>a''. noise_pair api a'' b ((q @ [(c, p)]) @ sent) ba)
            \<and> prefix (plain_of sent) (content (p_reader s1)))"
        by blast
      show ?thesis
        using IH fin step p src out tel
        by (intro exI [of _ res] exI [of _ s'] exI [of _ "(c, p) # sent"])
           (auto simp: pump_loop_cases count_add split: stream_end.splits)
    next
      fix e s1
      assume "encrypt_iter count api R W s = (Ready (Inl (CryptoError (Noise e))), s1)"
        "p_writer s1 = p_writer s" "p_tel s1 = p_tel s" "cell_closed (p_cell s1)"
      then show ?thesis
        using less.prems(3)
        by (intro exI [of _ "Ready (Inl (CryptoError (Noise e)))"] exI [of _ s1] exI [of _ "[]"])
           (auto simp: pump_loop_cases count_0)
    qed
  qed
qed

subsection \<open>The receiving task\<close>

lemma pump_frame_parses:
  obtains r' where
    "pump_frame (client_read_record_frame R) s =
       await_err FrameError (fst (parse_record (content (p_reader s)) (at_end (p_reader s))), s\<lparr>p_reader := r'\<rparr>)"
    "content r' = snd (parse_record (content (p_reader s)) (at_end (p_reader s)))"
    "at_end r' = at_end (p_reader s)"
  using read_record_frame_parses [of "p_reader s"] by (auto simp: pump_frame_def)

lemma decrypt_step_done:
  fixes api :: "('p, 'b, 'h, 't, 'e) noise_lib"
  assumes "content (p_reader s) = []" and "healthy (p_writer s)"
  obtains r' w' where
    "decrypt_iter count api R W s =
       (case at_end (p_reader s) of
          AtEof \<Rightarrow> (Ready (Inr Done), s\<lparr>p_reader := r', p_writer := w'\<rparr>)
        | Broken e \<Rightarrow> (Ready (Inl (FrameError (WireIo e))), s\<lparr>p_reader := r'\<rparr>)
        | Stalled \<Rightarrow> (Pending, s\<lparr>p_reader := r'\<rparr>))"
    and "written w' = written (p_writer s)" and "shut w'"
proof -
  obtain r' where r': "(pump_frame (client_read_record_frame R) s :: ('e relay_error + bytes option) poll \<times> _) =
       await_err FrameError (fst (parse_record [] (at_end (p_reader s))), s\<lparr>p_reader := r'\<rparr>)"
    by (rule pump_frame_parses [of s]) (simp add: assms(1))
  obtain w' where "wr_shutdown W (p_writer s) = (Ready (Inr ()), w')" "written w' = written (p_writer s)" "shut w'"
    using shutdown_ok [OF assms(2)] by blast
  with r' show ?thesis
    by (intro that [where r' = r' and w' = w']; cases "at_end (p_reader s)")
       (simp_all add: decrypt_iter_def parse_record_def pump_shutdown_def)
qed

lemma decrypt_step_partial:
  fixes api :: "('p, 'b, 'h, 't, 'e) noise_lib"
  assumes "content (p_reader s) \<noteq> []" and "framed record_header c = content (p_reader s) @ ms"
    and "ms \<noteq> []" and "0 < length c" and "length c \<le> MAX_CIPHERTEXT_RECORD"
  obtains r' where
    "decrypt_iter count api R W s =
       (case at_end (p_reader s) of
          AtEof \<Rightarrow> (Ready (Inl (FrameError (WireIo UnexpectedEof))), s\<lparr>p_reader := r'\<rparr>)
        | Broken e \<Rightarrow> (Ready (Inl (FrameError (WireIo e))), s\<lparr>p_reader := r'\<rparr>)
        | Stalled \<Rightarrow> (Pending, s\<lparr>p_reader := r'\<rparr>))"
proof -
  have parse: "parse_record (content (p_reader s)) (at_end (p_reader s)) =
      (fst (await_err WireIo (short_read (at_end (p_reader s)), ())), [])"
    using assms by (intro parse_record_partial)
  obtain r' where r': "(pump_frame (client_read_record_frame R) s :: ('e relay_error + bytes option) poll \<times> _) =
       await_err FrameError (fst (await_err WireIo (short_read (at_end (p_reader s)), ())), s\<lparr>p_reader := r'\<rparr>)"
    by (rule pump_frame_parses [of s]) (simp add: parse)
  then show ?thesis
    by (intro that [of r']; cases "at_end (p_reader s)") (simp_all add: decrypt_iter_def)
qed

lemma decrypt_step_record:
  fixes api :: "('p, 'b, 'h, 't, 'e) noise_lib"
  assumes "content (p_reader s) = framed record_header c @ bs" and "healthy (p_writer s)"
    and "length p \<le> MAX_PLAINTEXT_RECORD" and "length c = length p + 16"
    and cell: "p_cell s = \<lparr>poisoned = False, transport = Some b\<rparr>"
    and pair: "noise_pair api a b ((c, p) # q) ba"
  obtains b' s' where "decrypt_iter count api R W s = (Ready (Inr Continue), s')"
    and "content (p_reader s') = bs" "at_end (p_reader s') = at_end (p_reader s)"
    and "written (p_writer s') = written (p_writer s) @ p"
    and "flushed (p_writer s')" "healthy (p_writer s')"
    and "p_cell s' = \<lparr>poisoned = False, transport = Some b'\<rparr>" "noise_pair api a b' q ba"
    and "p_tel s' = count (length p) (p_tel s)" "p_activity s'"
    and "n_ts_read api b c (length c - 16) = Inr (p, b')"
proof -
  have len: "0 < length c" "length c \<le> MAX_CIPHERTEXT_RECORD"
    using assms(3,4) by (simp_all add: tunnel_limits)
  obtain r' where fr: "(pump_frame (client_read_record_frame R) s :: ('e relay_error + bytes option) poll \<times> _) =
       (Ready (Inr (Some (framed record_header c))), s\<lparr>p_reader := r'\<rparr>)"
    and r': "content r' = bs" "at_end r' = at_end (p_reader s)"
    by (rule pump_frame_parses [of s]) (simp add: assms(1) parse_record_framed [OF len])
  obtain b' where b': "n_ts_read api b c (length c - 16) = Inr (p, b')" "noise_pair api a b' q ba"
    using noise_pair_read [OF pair] by blast
  have opn: "open_record api (p_cell s) (framed record_header c) = (\<lparr>poisoned = False, transport = Some b'\<rparr>, Inr p)"
    using open_record_framed [OF len(2), of "p_cell s" b api p b'] b'(1) cell assms(3) by simp
  obtain w1 where w1: "wr_write_all W (p_writer s) p = (Ready (Inr ()), w1)" "healthy w1"
    "written w1 = written (p_writer s) @ p"
    using write_ok [OF assms(2)] by blast
  obtain w2 where w2: "wr_flush W w1 = (Ready (Inr ()), w2)" "healthy w2" "written w2 = written w1" "flushed w2"
    using flush_ok [OF w1(2)] by blast
  let ?s' = "signal_activity (s\<lparr>p_reader := r', p_cell := \<lparr>poisoned = False, transport = Some b'\<rparr>,
     p_writer := w2, p_tel := count (length p) (p_tel s)\<rparr>)"
  have "decrypt_iter count api R W s = (Ready (Inr Continue), ?s')"
    using fr opn w1 w2 by (simp add: decrypt_iter_def pump_open_def pump_write_def pump_flush_def)
  then show ?thesis
    by (rule that [where b' = b']) (use r' w1 w2 b' in \<open>simp_all add: signal_activity_def\<close>)
qed

text \<open>Nothing left to read: the task reports how the stream ended.\<close>

lemma decrypt_loop_idle:
  assumes "content (p_reader s) = []" and "healthy (p_writer s)"
  shows "\<exists>res s'. pump_loop (decrypt_iter count api R W) s = Some (res, s')
      \<and> written (p_writer s') = written (p_writer s) \<and> p_tel s' = p_tel s \<and> p_cell s' = p_cell s
      \<and> (flushed (p_writer s) \<longrightarrow> shut (p_writer s') \<or> flushed (p_writer s'))
      \<and> (case at_end (p_reader s) of
           AtEof \<Rightarrow> res = Ready (Inr ()) \<and> shut (p_writer s')
         | Broken e \<Rightarrow> res = Ready (Inl (FrameError (WireIo e)))
         | Stalled \<Rightarrow> res = Pending)"
proof -
  obtain r' w' where step: "decrypt_iter count api R W s =
       (case at_end (p_reader s) of
          AtEof \<Rightarrow> (Ready (Inr Done), s\<lparr>p_reader := r', p_writer := w'\<rparr>)
        | Broken e \<Rightarrow> (Ready (Inl (FrameError (WireIo e))), s\<lparr>p_reader := r'\<rparr>)
        | Stalled \<Rightarrow> (Pending, s\<lparr>p_reader := r'\<rparr>))"
    and w': "written w' = written (p_writer s)" "shut w'"
    by (rule decrypt_step_done [OF assms])
  then show ?thesis by (cases "at_end (p_reader s)") (auto simp: pump_loop_cases)
qed

text \<open>
  The whole receiving task, on any prefix of what the peer sent: it delivers exactly the records
  that have arrived completely, and a stream that ends inside a record is an error.
\<close>

lemma decrypt_loop:
  fixes api :: "('p, 'b, 'h, 't, 'e) noise_lib"
  assumes "healthy (p_writer s)" and "p_cell s = \<lparr>poisoned = False, transport = Some b\<rparr>"
    and "noise_pair api a b q ba" and "valid_records q" and "prefix (content (p_reader s)) (wire_of q)"
  shows "\<exists>res s' q1 q2 rest.
      pump_loop (decrypt_iter count api R W) s = Some (res, s')
      \<and> q = q1 @ q2 \<and> content (p_reader s) = wire_of q1 @ rest
      \<and> (rest = [] \<or> (\<exists>c p q2'. q2 = (c, p) # q2' \<and> strict_prefix rest (framed record_header c)))
      \<and> written (p_writer s') = written (p_writer s) @ plain_of q1
      \<and> p_tel s' = count (length (plain_of q1)) (p_tel s)
      \<and> (q1 \<noteq> [] \<or> flushed (p_writer s) \<longrightarrow> shut (p_writer s') \<or> flushed (p_writer s'))
      \<and> (\<exists>b'. p_cell s' = \<lparr>poisoned = False, transport = Some b'\<rparr> \<and> noise_pair api a b' q2 ba)
      \<and> (case at_end (p_reader s) of
           AtEof \<Rightarrow> if rest = [] then res = Ready (Inr ()) \<and> shut (p_writer s')
                    else res = Ready (Inl (FrameError (WireIo UnexpectedEof)))
         | Broken e \<Rightarrow> res = Ready (Inl (FrameError (WireIo e)))
         | Stalled \<Rightarrow> res = Pending)"
  using assms
proof (induction q arbitrary: s b)
  case Nil
  then have nil: "content (p_reader s) = []" by simp
  from decrypt_loop_idle [OF nil Nil.prems(1), of api] nil Nil.prems(2,3) show ?case
    by (cases "at_end (p_reader s)") (auto simp: count_0)
next
  case (Cons cp q)
  obtain c p where cp: "cp = (c, p)" by (cases cp)
  from Cons.prems(4) cp have rec: "length p \<le> MAX_PLAINTEXT_RECORD" "length c = length p + 16"
    and vq: "valid_records q" by simp_all
  show ?case
  proof (cases "prefix (framed record_header c) (content (p_reader s))")
    case True
    then obtain bs where bs: "content (p_reader s) = framed record_header c @ bs" by (auto elim: prefixE)
    with Cons.prems(5) cp have pre: "prefix bs (wire_of q)" by simp
    obtain b' s1 where step: "decrypt_iter count api R W s = (Ready (Inr Continue), s1)"
      and src: "content (p_reader s1) = bs" "at_end (p_reader s1) = at_end (p_reader s)"
      and out: "written (p_writer s1) = written (p_writer s) @ p" "flushed (p_writer s1)" "healthy (p_writer s1)"
      and cell: "p_cell s1 = \<lparr>poisoned = False, transport = Some b'\<rparr>" "noise_pair api a b' q ba"
      and tel: "p_tel s1 = count (length p) (p_tel s)"
      using decrypt_step_record [OF bs Cons.prems(1) rec Cons.prems(2)] Cons.prems(3) cp by metis
    from Cons.IH [OF out(3) cell vq] pre src(1) obtain res s' q1 q2 rest where
      IH: "pump_loop (decrypt_iter count api R W) s1 = Some (res, s')" "q = q1 @ q2" "bs = wire_of q1 @ rest"
        "rest = [] \<or> (\<exists>c p q2'. q2 = (c, p) # q2' \<and> strict_prefix rest (framed record_header c))"
        "written (p_writer s') = written (p_writer s1) @ plain_of q1"
        "p_tel s' = count (length (plain_of q1)) (p_tel s1)"
        "q1 \<noteq> [] \<or> flushed (p_writer s1) \<longrightarrow> shut (p_writer s') \<or> flushed (p_writer s')"
        "\<exists>b'. p_cell s' = \<lparr>poisoned = False, transport = Some b'\<rparr> \<and> noise_pair api a b' q2 ba"
        "case at_end (p_reader s1) of
           AtEof \<Rightarrow> if rest = [] then res = Ready (Inr ()) \<and> shut (p_writer s')
                    else res = Ready (Inl (FrameError (WireIo UnexpectedEof)))
         | Broken e \<Rightarrow> res = Ready (Inl (FrameError (WireIo e)))
         | Stalled \<Rightarrow> res = Pending"
      by blast
    have "pump_loop (decrypt_iter count api R W) s = Some (res, s')"
      using step IH(1) by (simp add: pump_loop_cases)
    moreover have "p_tel s' = count (length (plain_of ((c, p) # q1))) (p_tel s)"
      using IH(6) tel by (simp add: count_add)
    ultimately show ?thesis
      using IH(2-5,7-9) bs cp out src
      by (intro exI [of _ res] exI [of _ s'] exI [of _ "(c, p) # q1"] exI [of _ q2] exI [of _ rest]) simp
  next
    case False
    with Cons.prems(5) cp have sp: "strict_prefix (content (p_reader s)) (framed record_header c)"
      by (auto simp: prefix_append strict_prefix_def)
    show ?thesis
    proof (cases "content (p_reader s) = []")
      case True
      from decrypt_loop_idle [OF True Cons.prems(1), of api] obtain res s' where
        "pump_loop (decrypt_iter count api R W) s = Some (res, s')"
        "written (p_writer s') = written (p_writer s)" "p_tel s' = p_tel s" "p_cell s' = p_cell s"
        "flushed (p_writer s) \<longrightarrow> shut (p_writer s') \<or> flushed (p_writer s')"
        "case at_end (p_reader s) of
           AtEof \<Rightarrow> res = Ready (Inr ()) \<and> shut (p_writer s')
         | Broken e \<Rightarrow> res = Ready (Inl (FrameError (WireIo e)))
         | Stalled \<Rightarrow> res = Pending" by blast
      with True Cons.prems(2,3) show ?thesis
        by (intro exI [of _ res] exI [of _ s'] exI [of _ "[]"] exI [of _ "cp # q"] exI [of _ "[]"])
           (simp add: count_0)
    next
      case nonempty: False
      from sp obtain ms where ms: "framed record_header c = content (p_reader s) @ ms" "ms \<noteq> []"
        by (auto simp: strict_prefix_def prefix_def)
      have len: "0 < length c" "length c \<le> MAX_CIPHERTEXT_RECORD"
        using rec by (simp_all add: tunnel_limits)
      obtain r' where step: "decrypt_iter count api R W s =
         (case at_end (p_reader s) of
            AtEof \<Rightarrow> (Ready (Inl (FrameError (WireIo UnexpectedEof))), s\<lparr>p_reader := r'\<rparr>)
          | Broken e \<Rightarrow> (Ready (Inl (FrameError (WireIo e))), s\<lparr>p_reader := r'\<rparr>)
          | Stalled \<Rightarrow> (Pending, s\<lparr>p_reader := r'\<rparr>))"
        by (rule decrypt_step_partial [OF nonempty ms len])
      define res :: "('e relay_error + unit) poll" where "res =
        (case at_end (p_reader s) of
           AtEof \<Rightarrow> Ready (Inl (FrameError (WireIo UnexpectedEof)))
         | Broken e \<Rightarrow> Ready (Inl (FrameError (WireIo e)))
         | Stalled \<Rightarrow> Pending)"
      have loop: "pump_loop (decrypt_iter count api R W) s = Some (res, s\<lparr>p_reader := r'\<rparr>)"
        using step by (cases "at_end (p_reader s)") (simp_all add: res_def pump_loop_cases)
      have "\<exists>c p q2'. cp # q = (c, p) # q2' \<and> strict_prefix (content (p_reader s)) (framed record_header c)"
        using sp cp by simp
      with loop nonempty Cons.prems(2,3) show ?thesis
        by (intro exI [of _ res] exI [of _ "s\<lparr>p_reader := r'\<rparr>"] exI [of _ "[]"] exI [of _ "cp # q"]
              exI [of _ "content (p_reader s)"])
           (cases "at_end (p_reader s)"; simp add: res_def count_0)
    qed
  qed
qed

text \<open>A stream that is all the records sent ends at a record boundary, with every record delivered.\<close>

lemma wire_of_complete:
  assumes "wire_of q2 = rest"
    and "rest = [] \<or> (\<exists>c p q2'. q2 = (c, p) # q2' \<and> strict_prefix rest (framed record_header c))"
  shows "q2 = [] \<and> rest = []"
proof (cases q2)
  case Nil
  with assms(1) show ?thesis by simp
next
  case (Cons cp q2')
  then obtain c p where q2: "q2 = (c, p) # q2'" by (cases cp) simp
  with assms(1) have rest: "rest = framed record_header c @ wire_of q2'" by simp
  then have "rest \<noteq> []" by (simp add: framed_def record_header_def u32_to_be_bytes_def)
  with assms(2) q2 have "strict_prefix rest (framed record_header c)" by auto
  with rest show ?thesis by (auto simp: strict_prefix_def dest: prefix_order.antisym)
qed

subsection \<open>Both tasks, with the network between them\<close>

text \<open>What a sending task has left on the wire, seen from the receiver's end of the session.\<close>

lemma encrypt_loop_sent:
  assumes pair: "noise_pair api a b [] ba"
    and snd: "p_cell u = \<lparr>poisoned = False, transport = Some a\<rparr>" "healthy (p_writer u)" "written (p_writer u) = []"
      "pump_loop (encrypt_iter count api R W) u = Some (res, u')"
  obtains sent a' where "valid_records sent" "written (p_writer u') = wire_of sent"
    "noise_pair api a' b sent ba" "prefix (plain_of sent) (content (p_reader u))"
    "res = Pending \<or> res = Ready (Inr ()) \<longrightarrow> plain_of sent = content (p_reader u)"
proof -
  from encrypt_loop [OF snd(2,1) pair] snd(3,4) obtain sent where
    v: "valid_records sent" and w: "written (p_writer u') = wire_of sent"
    and fin: "(plain_of sent = content (p_reader u)
           \<and> (\<exists>a'. p_cell u' = \<lparr>poisoned = False, transport = Some a'\<rparr> \<and> noise_pair api a' b ([] @ sent) ba)
           \<and> (case at_end (p_reader u) of
                AtEof \<Rightarrow> res = Ready (Inr ()) \<and> shut (p_writer u')
              | Broken e \<Rightarrow> res = Ready (Inl (ReadError e))
              | Stalled \<Rightarrow> res = Pending \<and> (sent \<noteq> [] \<or> flushed (p_writer u) \<longrightarrow> flushed (p_writer u'))))
         \<or> ((\<exists>e. res = Ready (Inl (CryptoError (Noise e)))) \<and> cell_closed (p_cell u')
            \<and> (\<exists>a'. noise_pair api a' b ([] @ sent) ba)
            \<and> prefix (plain_of sent) (content (p_reader u)))"
    by fastforce
  obtain a' where "noise_pair api a' b sent ba" using fin by auto
  with v w show ?thesis by (rule that) (use fin in auto)
qed

lemma deliver:
  assumes pair: "noise_pair api a b [] ba"
    and snd: "p_cell u = \<lparr>poisoned = False, transport = Some a\<rparr>" "healthy (p_writer u)" "written (p_writer u) = []"
      "pump_loop (encrypt_iter count api R W) u = Some (res, u')"
    and rcv: "p_cell d = \<lparr>poisoned = False, transport = Some b\<rparr>" "healthy (p_writer d)"
    and net: "prefix (content (p_reader d)) (written (p_writer u'))"
  shows "\<exists>res2 d' got. pump_loop (decrypt_iter count api R W) d = Some (res2, d')
      \<and> written (p_writer d') = written (p_writer d) @ got \<and> prefix got (content (p_reader u))
      \<and> p_tel d' = count (length got) (p_tel d)
      \<and> (got \<noteq> [] \<longrightarrow> shut (p_writer d') \<or> flushed (p_writer d'))
      \<and> (content (p_reader d) = written (p_writer u') \<longrightarrow>
           (res = Pending \<or> res = Ready (Inr ()) \<longrightarrow> got = content (p_reader u))
           \<and> (at_end (p_reader d) = AtEof \<longrightarrow> res2 = Ready (Inr ()) \<and> shut (p_writer d')))
      \<and> (res2 = Ready (Inr ()) \<longrightarrow> at_end (p_reader d) = AtEof \<and> shut (p_writer d'))"
proof -
  from encrypt_loop_sent [OF pair snd] obtain sent a' where v: "valid_records sent"
    and w: "written (p_writer u') = wire_of sent" and pair': "noise_pair api a' b sent ba"
    and pre: "prefix (plain_of sent) (content (p_reader u))"
    and all: "res = Pending \<or> res = Ready (Inr ()) \<longrightarrow> plain_of sent = content (p_reader u)" .
  from net w have "prefix (content (p_reader d)) (wire_of sent)" by simp
  from decrypt_loop [OF rcv(2,1) pair' v this] obtain res2 d' q1 q2 rest where
    d': "pump_loop (decrypt_iter count api R W) d = Some (res2, d')" "sent = q1 @ q2"
      "content (p_reader d) = wire_of q1 @ rest"
      "rest = [] \<or> (\<exists>c p q2'. q2 = (c, p) # q2' \<and> strict_prefix rest (framed record_header c))"
      "written (p_writer d') = written (p_writer d) @ plain_of q1"
      "p_tel d' = count (length (plain_of q1)) (p_tel d)"
      "q1 \<noteq> [] \<or> flushed (p_writer d) \<longrightarrow> shut (p_writer d') \<or> flushed (p_writer d')"
    and en: "case at_end (p_reader d) of
           AtEof \<Rightarrow> if rest = [] then res2 = Ready (Inr ()) \<and> shut (p_writer d')
                    else res2 = Ready (Inl (FrameError (WireIo UnexpectedEof)))
         | Broken e \<Rightarrow> res2 = Ready (Inl (FrameError (WireIo e)))
         | Stalled \<Rightarrow> res2 = Pending"
    by blast
  have "prefix (plain_of q1) (content (p_reader u))"
    using pre d'(2) by (auto dest: append_prefixD)
  moreover have "plain_of q1 \<noteq> [] \<longrightarrow> shut (p_writer d') \<or> flushed (p_writer d')"
    using d'(7) by (cases q1) auto
  moreover have full: "q2 = [] \<and> rest = []" if "content (p_reader d) = written (p_writer u')"
    using that w d'(2,3) by (intro wire_of_complete [OF _ d'(4)]) simp
  moreover have "res2 = Ready (Inr ()) \<longrightarrow> at_end (p_reader d) = AtEof \<and> shut (p_writer d')"
    using en by (cases "at_end (p_reader d)") (auto split: if_splits)
  ultimately show ?thesis
    using d'(1,2,5,6) all en
    by (intro exI [of _ res2] exI [of _ d'] exI [of _ "plain_of q1"]) auto
qed

end

section \<open>The tasks stop on every finite input\<close>

text \<open>Whatever the cipher and the writer do: an iteration that goes on has consumed input.\<close>

context byte_stream begin

lemma read_consumes:
  "\<exists>r'. snd (rd_read R r (Suc n)) = r' \<and> length (content r') \<le> length (content r)
    \<and> (\<forall>b. fst (rd_read R r (Suc n)) = Ready (Inr b) \<and> b \<noteq> [] \<longrightarrow> length (content r') < length (content r))"
proof (cases "content r = []")
  case True
  from read_done [OF _ this, of "Suc n"] show ?thesis
    by (cases "at_end r") auto
next
  case False
  from read_data [OF _ this, of "Suc n"] show ?thesis by auto
qed

lemma frame_consumes:
  "length (content (snd (client_read_record_frame R r))) \<le> length (content r)
    \<and> (\<forall>f. fst (client_read_record_frame R r) = Ready (Inr (Some f))
         \<longrightarrow> length (content (snd (client_read_record_frame R r))) < length (content r))"
proof -
  obtain r' where r': "client_read_record_frame R r = (fst (parse_record (content r) (at_end r)), r')"
    "content r' = snd (parse_record (content r) (at_end r))"
    using read_record_frame_parses by blast
  then show ?thesis
    by (cases "at_end r") (auto simp: parse_record_def Let_def)
qed

lemma encrypt_iter_consumes:
  "encrypt_iter count api R W s = (Ready (Inr Continue), s') \<Longrightarrow>
     length (content (p_reader s')) < length (content (p_reader s))"
  using read_consumes [of "p_reader s" "MAX_PLAINTEXT_RECORD - 1"]
  by (auto simp: encrypt_iter_def pump_read_def pump_seal_def pump_write_def pump_flush_def
      pump_shutdown_def await_bind_def await_err_def map_err_def signal_activity_def tunnel_limits
      split: prod.splits poll.splits sum.splits if_splits)

lemma decrypt_iter_consumes:
  "decrypt_iter count api R W s = (Ready (Inr Continue), s') \<Longrightarrow>
     length (content (p_reader s')) < length (content (p_reader s))"
  using frame_consumes [of "p_reader s"]
  by (auto simp: decrypt_iter_def pump_frame_def pump_open_def pump_write_def pump_flush_def
      pump_shutdown_def await_bind_def await_err_def map_err_def signal_activity_def
      split: prod.splits poll.splits sum.splits option.splits)

lemma pump_loop_returns:
  assumes "\<And>s s'. iter s = (Ready (Inr Continue), s') \<Longrightarrow>
      length (content (p_reader s')) < length (content (p_reader s))"
  shows "\<exists>res s'. pump_loop iter s = Some (res, s')"
proof (induction "length (content (p_reader s))" arbitrary: s rule: less_induct)
  case less
  obtain x s1 where step: "iter s = (x, s1)" by fastforce
  show ?case
  proof (cases "x = Ready (Inr Continue)")
    case True
    with step assms have "length (content (p_reader s1)) < length (content (p_reader s))" by blast
    from less [OF this] step True show ?thesis by (simp add: pump_loop_cases)
  next
    case False
    then consider "x = Pending" | e where "x = Ready (Inl e)" | "x = Ready (Inr Done)"
      by (cases x; cases "case x of Ready y \<Rightarrow> y | Pending \<Rightarrow> Inr Done") (auto, metis flow.exhaust sum.exhaust)
    then show ?thesis using step by cases (auto simp: pump_loop_cases)
  qed
qed

end

section \<open>A writer that records what it is given\<close>

record net_sink =
  sink_out :: bytes
  sink_flushed :: bool
  sink_shut :: bool
  sink_fault :: "io_error option"

definition sink_ops :: "net_sink writer_ops" where
  "sink_ops =
     \<lparr>wr_write_all = (\<lambda>w b. case sink_fault w of
          Some e \<Rightarrow> (Ready (Inl e), w)
        | None \<Rightarrow> (Ready (Inr ()), w\<lparr>sink_out := sink_out w @ b, sink_flushed := False\<rparr>)),
      wr_flush = (\<lambda>w. case sink_fault w of
          Some e \<Rightarrow> (Ready (Inl e), w) | None \<Rightarrow> (Ready (Inr ()), w\<lparr>sink_flushed := True\<rparr>)),
      wr_shutdown = (\<lambda>w. case sink_fault w of
          Some e \<Rightarrow> (Ready (Inl e), w) | None \<Rightarrow> (Ready (Inr ()), w\<lparr>sink_shut := True\<rparr>))\<rparr>"

definition sink_healthy :: "net_sink \<Rightarrow> bool" where
  "sink_healthy w \<longleftrightarrow> sink_fault w = None"

interpretation sink: byte_sink sink_ops sink_out sink_flushed sink_shut sink_healthy
  by unfold_locales (simp_all add: sink_ops_def sink_healthy_def)

interpretation c2s: relay_task net_ops net_content net_end sink_ops sink_out sink_flushed sink_shut
  sink_healthy add_client_to_server
  by unfold_locales (simp_all add: add_client_to_server_def)

interpretation s2c: relay_task net_ops net_content net_end sink_ops sink_out sink_flushed sink_shut
  sink_healthy add_server_to_client
  by unfold_locales (simp_all add: add_server_to_client_def)

section \<open>Properties\<close>

text \<open>C27: The four relay tasks come to rest on every finite input, whatever the cipher and the writer
  do and however the input ends: they return, fail, or wait for more input.  (A task is a partial
  function in the model; this says that it has a value.)\<close>

theorem copy_tasks_come_to_rest:
  "(\<exists>res s'. client_copy_encrypt api net_ops W s = Some (res, s'))
   \<and> (\<exists>res s'. client_copy_decrypt api net_ops W s = Some (res, s'))
   \<and> (\<exists>res s'. server_copy_encrypt api net_ops W s = Some (res, s'))
   \<and> (\<exists>res s'. server_copy_decrypt api net_ops W s = Some (res, s'))"
  unfolding copy_loops_eq
  by (intro conjI net.pump_loop_returns) (erule net.encrypt_iter_consumes net.decrypt_iter_consumes)+

text \<open>C28: A frame reader sees the stream, not the packets.  What \<open>read_record_frame\<close> and
  \<open>read_handshake_frame\<close> return, and what is left to read, depends only on the bytes of the stream
  and on how it ends: it is \<open>parse_record\<close> and \<open>parse_handshake\<close> of them.  The two binaries agree.\<close>

theorem frame_readers_ignore_chunking:
  "fst (client_read_record_frame net_ops r) = fst (parse_record (net_content r) (net_end r))
   \<and> net_content (snd (client_read_record_frame net_ops r)) = snd (parse_record (net_content r) (net_end r))
   \<and> fst (client_read_handshake_frame net_ops r) = fst (parse_handshake (net_content r) (net_end r))
   \<and> net_content (snd (client_read_handshake_frame net_ops r)) = snd (parse_handshake (net_content r) (net_end r))
   \<and> server_read_record_frame net_ops r = client_read_record_frame net_ops r
   \<and> server_read_handshake_frame net_ops r = client_read_handshake_frame net_ops r"
  using net.read_record_frame_parses [of r] net.read_handshake_frame_parses [of r]
  by (auto simp: read_record_frame_same read_handshake_frame_same)

end
