(* ===== verification/Relay.thy ===== *)
theory Relay
  imports Copy_Loops
begin

text \<open>
  \<open>relay\<close> of both binaries: the \<open>select!\<close> loop that owns the two copy tasks of a session.

  The loop's state is \<open>relay_state\<close>.  A spawned task is running, has finished (its
  \<open>JoinHandle\<close> is ready, with the task's result or a panic), has been joined, or has been aborted.
  \<open>select!\<close> picks any ready branch, so the loop is a relation: \<open>relay_step\<close> either lets the
  environment act (a task finishes or signals activity, time passes, shutdown is announced) or runs
  one ready branch (\<open>run_branch\<close>).  The two binaries have the same loop with other names: the
  client's first task is its uplink (\<open>copy_encrypt\<close>) and the second its downlink
  (\<open>copy_decrypt\<close>); the server's are inbound (\<open>copy_decrypt\<close>) and outbound (\<open>copy_encrypt\<close>).
\<close>

section \<open>State\<close>

datatype join = Returned "anyhow + unit" | Panicked anyhow

datatype task = Running | Finished join | Joined join | Aborted

record relay_state =
  first_task :: task
  second_task :: task
  first_complete :: bool
  activity_token :: bool
  now :: nat
  deadline :: nat
  shutdown_changed :: bool
  outcome :: "(anyhow + unit) option"

definition relay_start :: "nat \<Rightarrow> nat \<Rightarrow> relay_state" where
  "relay_start idle t0 =
     \<lparr>first_task = Running, second_task = Running, first_complete = False, activity_token = False,
      now = t0, deadline = t0 + idle, shutdown_changed = False, outcome = None\<rparr>"

section \<open>The loop\<close>

datatype branch = JoinFirst | JoinSecond | RecvActivity | IdleTimer | ShutdownSignal

text \<open>\<open>recv\<close> is ready when a token is there, and also (with \<open>None\<close>) when both senders are gone.\<close>

fun branch_ready :: "relay_state \<Rightarrow> branch \<Rightarrow> bool" where
  "branch_ready s JoinFirst = (\<not> first_complete s \<and> (\<exists>j. first_task s = Finished j))"
| "branch_ready s JoinSecond = (\<exists>j. second_task s = Finished j)"
| "branch_ready s RecvActivity =
     (activity_token s \<or> first_task s \<noteq> Running \<and> second_task s \<noteq> Running)"
| "branch_ready s IdleTimer = (deadline s \<le> now s)"
| "branch_ready s ShutdownSignal = shutdown_changed s"

fun abort :: "task \<Rightarrow> task" where
  "abort Running = Aborted" | "abort t = t"

text \<open>\<open>break result\<close>, then \<open>abort()\<close> on both handles.\<close>

definition break_with :: "anyhow + unit \<Rightarrow> relay_state \<Rightarrow> relay_state" where
  "break_with r s =
     s\<lparr>first_task := abort (first_task s), second_task := abort (second_task s), outcome := Some r\<rparr>"

text \<open>\<open>result.context(label)?\<close> on a panicked task returns from \<open>relay\<close> at once.\<close>

definition return_panic :: "string \<Rightarrow> anyhow \<Rightarrow> relay_state \<Rightarrow> relay_state" where
  "return_panic label e s = s\<lparr>outcome := Some (Inl (label # e))\<rparr>"

fun run_branch :: "string \<Rightarrow> string \<Rightarrow> nat \<Rightarrow> relay_state \<Rightarrow> branch \<Rightarrow> relay_state" where
  "run_branch label1 label2 idle s JoinFirst =
     (case first_task s of
        Finished j \<Rightarrow>
          (let s1 = s\<lparr>first_complete := True, first_task := Joined j\<rparr> in
           case j of
             Panicked e \<Rightarrow> return_panic label1 e s1
           | Returned (Inr _) \<Rightarrow> s1
           | Returned (Inl e) \<Rightarrow> break_with (Inl e) s1)
      | _ \<Rightarrow> s)"
| "run_branch label1 label2 idle s JoinSecond =
     (case second_task s of
        Finished j \<Rightarrow>
          (let s1 = s\<lparr>second_task := Joined j\<rparr> in
           case j of
             Panicked e \<Rightarrow> return_panic label2 e s1
           | Returned r \<Rightarrow> break_with r s1)
      | _ \<Rightarrow> s)"
| "run_branch label1 label2 idle s RecvActivity =
     (if activity_token s then s\<lparr>activity_token := False, deadline := now s + idle\<rparr> else s)"
| "run_branch label1 label2 idle s IdleTimer = break_with (Inl [''idle timeout'']) s"
| "run_branch label1 label2 idle s ShutdownSignal = break_with (Inl [''shutdown requested'']) s"

inductive relay_step :: "string \<Rightarrow> string \<Rightarrow> nat \<Rightarrow> relay_state \<Rightarrow> relay_state \<Rightarrow> bool"
  for label1 label2 idle where
  first_ends: "first_task s = Running \<Longrightarrow> relay_step label1 label2 idle s (s\<lparr>first_task := Finished j\<rparr>)"
| second_ends: "second_task s = Running \<Longrightarrow> relay_step label1 label2 idle s (s\<lparr>second_task := Finished j\<rparr>)"
| activity: "first_task s = Running \<or> second_task s = Running \<Longrightarrow>
    relay_step label1 label2 idle s (s\<lparr>activity_token := True\<rparr>)"
| time_passes: "relay_step label1 label2 idle s (s\<lparr>now := now s + d\<rparr>)"
| shutdown: "relay_step label1 label2 idle s (s\<lparr>shutdown_changed := True\<rparr>)"
| loop: "outcome s = None \<Longrightarrow> branch_ready s b \<Longrightarrow> relay_step label1 label2 idle s (run_branch label1 label2 idle s b)"

inductive_cases relay_stepE: "relay_step label1 label2 idle s s'"

definition client_relay_step :: "nat \<Rightarrow> relay_state \<Rightarrow> relay_state \<Rightarrow> bool" where
  "client_relay_step = relay_step ''uplink task panicked'' ''downlink task panicked''"

definition server_relay_step :: "nat \<Rightarrow> relay_state \<Rightarrow> relay_state \<Rightarrow> bool" where
  "server_relay_step = relay_step ''inbound task panicked'' ''outbound task panicked''"

definition relay_reaches :: "string \<Rightarrow> string \<Rightarrow> nat \<Rightarrow> nat \<Rightarrow> relay_state \<Rightarrow> bool" where
  "relay_reaches label1 label2 idle t0 = (relay_step label1 label2 idle)\<^sup>*\<^sup>* (relay_start idle t0)"

section \<open>Invariant\<close>

text \<open>Why a relay may have failed with \<open>e\<close>.\<close>

definition failure_explained :: "string \<Rightarrow> string \<Rightarrow> relay_state \<Rightarrow> anyhow \<Rightarrow> bool" where
  "failure_explained label1 label2 s e \<longleftrightarrow>
     (first_task s \<noteq> Running \<and> second_task s \<noteq> Running
       \<and> (e = [''idle timeout''] \<and> deadline s \<le> now s
          \<or> e = [''shutdown requested''] \<and> shutdown_changed s
          \<or> first_task s = Joined (Returned (Inl e)) \<or> second_task s = Joined (Returned (Inl e))))
     \<or> (\<exists>d. e = label1 # d \<and> first_task s = Joined (Panicked d))
     \<or> (\<exists>d. e = label2 # d \<and> second_task s = Joined (Panicked d))"

text \<open>
  How the loop has ended, and what it has left behind.  While it runs, the handles that are still
  polled have not been joined, so none is polled after completion (which would panic).
\<close>

definition relay_inv :: "string \<Rightarrow> string \<Rightarrow> nat \<Rightarrow> nat \<Rightarrow> relay_state \<Rightarrow> bool" where
  "relay_inv label1 label2 idle t0 s \<longleftrightarrow>
     (first_complete s \<longleftrightarrow> (\<exists>j. first_task s = Joined j))
     \<and> t0 + idle \<le> deadline s \<and> deadline s \<le> now s + idle
     \<and> (case outcome s of
          None \<Rightarrow> (\<forall>j. second_task s \<noteq> Joined j) \<and> first_task s \<noteq> Aborted \<and> second_task s \<noteq> Aborted
                   \<and> (\<forall>j. first_task s = Joined j \<longrightarrow> j = Returned (Inr ()))
        | Some (Inr _) \<Rightarrow> second_task s = Joined (Returned (Inr ())) \<and> first_task s \<noteq> Running
        | Some (Inl e) \<Rightarrow> failure_explained label1 label2 s e)"

lemma relay_inv_start: "relay_inv label1 label2 idle t0 (relay_start idle t0)"
  by (simp add: relay_inv_def relay_start_def)

lemma abort_simps [simp]:
  "abort t \<noteq> Running" "abort t = Joined j \<longleftrightarrow> t = Joined j" "Running \<noteq> abort t"
  by (cases t; simp)+

lemma run_branch_join:
  "first_task s = Finished (Returned (Inr u)) \<Longrightarrow> run_branch label1 label2 idle s JoinFirst
     = s\<lparr>first_complete := True, first_task := Joined (Returned (Inr u))\<rparr>"
  "first_task s = Finished (Returned (Inl e)) \<Longrightarrow> run_branch label1 label2 idle s JoinFirst
     = break_with (Inl e) (s\<lparr>first_complete := True, first_task := Joined (Returned (Inl e))\<rparr>)"
  "first_task s = Finished (Panicked d) \<Longrightarrow> run_branch label1 label2 idle s JoinFirst
     = return_panic label1 d (s\<lparr>first_complete := True, first_task := Joined (Panicked d)\<rparr>)"
  "second_task s = Finished (Returned r) \<Longrightarrow> run_branch label1 label2 idle s JoinSecond
     = break_with r (s\<lparr>second_task := Joined (Returned r)\<rparr>)"
  "second_task s = Finished (Panicked d) \<Longrightarrow> run_branch label1 label2 idle s JoinSecond
     = return_panic label2 d (s\<lparr>second_task := Joined (Panicked d)\<rparr>)"
  by simp_all

lemma join_cases:
  obtains e where "j = Returned (Inl e)" | "j = Returned (Inr ())" | d where "j = Panicked d"
  by (metis join.exhaust sum.exhaust unit.exhaust)

lemma run_branch_inv:
  assumes inv: "relay_inv label1 label2 idle t0 s" and run: "outcome s = None" and ready: "branch_ready s b"
  shows "relay_inv label1 label2 idle t0 (run_branch label1 label2 idle s b)"
proof (cases b)
  case JoinFirst
  with ready obtain j where j: "first_task s = Finished j" by auto
  show ?thesis
    using inv run unfolding JoinFirst
    by (cases j rule: join_cases)
       (simp_all add: j run_branch_join relay_inv_def return_panic_def break_with_def failure_explained_def
         del: run_branch.simps)
next
  case JoinSecond
  with ready obtain j where j: "second_task s = Finished j" by auto
  show ?thesis
    using inv run unfolding JoinSecond
    by (cases j rule: join_cases)
       (simp_all add: j run_branch_join relay_inv_def return_panic_def break_with_def failure_explained_def
         del: run_branch.simps)
qed (use assms in \<open>simp_all add: relay_inv_def break_with_def failure_explained_def\<close>)

lemma relay_step_inv:
  assumes "relay_step label1 label2 idle s s'" and inv: "relay_inv label1 label2 idle t0 s"
  shows "relay_inv label1 label2 idle t0 s'"
  using assms(1)
proof (cases rule: relay_step.cases)
  case (loop b)
  with inv show ?thesis by (simp add: run_branch_inv)
qed (use inv in \<open>auto simp: relay_inv_def failure_explained_def split: option.splits sum.splits\<close>)

lemma relay_reaches_inv: "relay_reaches label1 label2 idle t0 s \<Longrightarrow> relay_inv label1 label2 idle t0 s"
  unfolding relay_reaches_def
  by (induction rule: rtranclp_induct) (auto intro: relay_inv_start relay_step_inv)

section \<open>The idle deadline\<close>

lemma relay_step_deadline:
  assumes "relay_step label1 label2 idle s s'" and "deadline s \<le> now s + idle"
  shows "deadline s \<le> deadline s' \<and> deadline s' \<le> now s' + idle"
  using assms(1)
proof (cases rule: relay_step.cases)
  case (loop b)
  show ?thesis
  proof (cases b)
    case JoinFirst
    with loop obtain j where "first_task s = Finished j" by auto
    with assms(2) loop JoinFirst show ?thesis
      by (cases j rule: join_cases)
         (simp_all add: run_branch_join return_panic_def break_with_def del: run_branch.simps)
  next
    case JoinSecond
    with loop obtain j where "second_task s = Finished j" by auto
    with assms(2) loop JoinSecond show ?thesis
      by (cases j rule: join_cases)
         (simp_all add: run_branch_join return_panic_def break_with_def del: run_branch.simps)
  qed (use assms(2) loop in \<open>simp_all add: break_with_def\<close>)
qed (use assms(2) in simp_all)

lemma relay_run_deadline:
  assumes "(relay_step label1 label2 idle)\<^sup>*\<^sup>* s s'" and "deadline s \<le> now s + idle"
  shows "deadline s \<le> deadline s' \<and> deadline s' \<le> now s' + idle"
  using assms(1)
proof (induction rule: rtranclp_induct)
  case base
  then show ?case using assms(2) by simp
next
  case (step y z)
  with relay_step_deadline [OF step.hyps(2)] show ?case by auto
qed

text \<open>A path to a state in which the first task has ended as \<open>j\<close> and been joined.\<close>

definition after_first :: "nat \<Rightarrow> nat \<Rightarrow> join \<Rightarrow> relay_state" where
  "after_first idle t0 j = (relay_start idle t0)\<lparr>first_task := Finished j\<rparr>"

lemma reaches_join_first:
  "(relay_step label1 label2 idle)\<^sup>*\<^sup>* (relay_start idle t0)
     (run_branch label1 label2 idle (after_first idle t0 j) JoinFirst)"
proof -
  have "relay_step label1 label2 idle (relay_start idle t0) (after_first idle t0 j)"
    unfolding after_first_def by (rule first_ends) (simp add: relay_start_def)
  moreover have "relay_step label1 label2 idle (after_first idle t0 j)
      (run_branch label1 label2 idle (after_first idle t0 j) JoinFirst)"
    by (rule loop) (simp_all add: after_first_def relay_start_def)
  ultimately show ?thesis by (meson rtranclp.rtrancl_into_rtrancl rtranclp.rtrancl_refl)
qed

section \<open>Properties\<close>

text \<open>C25: How a client relay can end.  It succeeds only when its downlink task has itself returned
  successfully and the uplink no longer runs; it fails only with the error of one of its tasks, after
  the idle deadline, or after a shutdown was announced, and in these cases no task is left running;
  the one other way is a panicked task.\<close>

theorem client_relay_ends:
  assumes "(client_relay_step idle)\<^sup>*\<^sup>* (relay_start idle t0) s" and "outcome s = Some r"
  shows "(r = Inr () \<and> second_task s = Joined (Returned (Inr ())) \<and> first_task s \<noteq> Running)
    \<or> (\<exists>e. r = Inl e \<and> first_task s \<noteq> Running \<and> second_task s \<noteq> Running
         \<and> (e = [''idle timeout''] \<and> t0 + idle \<le> now s
            \<or> e = [''shutdown requested''] \<and> shutdown_changed s
            \<or> first_task s = Joined (Returned (Inl e)) \<or> second_task s = Joined (Returned (Inl e))))
    \<or> (\<exists>d. r = Inl (''uplink task panicked'' # d) \<and> first_task s = Joined (Panicked d))
    \<or> (\<exists>d. r = Inl (''downlink task panicked'' # d) \<and> second_task s = Joined (Panicked d))"
proof -
  have "relay_inv ''uplink task panicked'' ''downlink task panicked'' idle t0 s"
    using assms(1) by (intro relay_reaches_inv) (simp add: relay_reaches_def client_relay_step_def)
  then show ?thesis
    using assms(2) by (cases r) (auto simp: relay_inv_def failure_explained_def)
qed

lemma client_relay_ends_witness:
  "\<exists>s. (client_relay_step 5)\<^sup>*\<^sup>* (relay_start 5 0) s \<and> outcome s = Some (Inl [''refused''])
     \<and> first_task s \<noteq> Running \<and> second_task s \<noteq> Running"
proof -
  let ?s = "run_branch ''uplink task panicked'' ''downlink task panicked'' 5
      (after_first 5 0 (Returned (Inl [''refused'']))) JoinFirst"
  have r: "(client_relay_step 5)\<^sup>*\<^sup>* (relay_start 5 0) ?s"
    unfolding client_relay_step_def by (rule reaches_join_first)
  have o: "outcome ?s = Some (Inl [''refused''])"
    by (simp add: after_first_def break_with_def)
  from client_relay_ends [OF r o] r o show ?thesis by auto
qed

text \<open>How a server relay can end: as the client's, with the outbound task (destination to tunnel)
  deciding success.\<close>

theorem server_relay_ends:
  assumes "(server_relay_step idle)\<^sup>*\<^sup>* (relay_start idle t0) s" and "outcome s = Some r"
  shows "(r = Inr () \<and> second_task s = Joined (Returned (Inr ())) \<and> first_task s \<noteq> Running)
    \<or> (\<exists>e. r = Inl e \<and> first_task s \<noteq> Running \<and> second_task s \<noteq> Running
         \<and> (e = [''idle timeout''] \<and> t0 + idle \<le> now s
            \<or> e = [''shutdown requested''] \<and> shutdown_changed s
            \<or> first_task s = Joined (Returned (Inl e)) \<or> second_task s = Joined (Returned (Inl e))))
    \<or> (\<exists>d. r = Inl (''inbound task panicked'' # d) \<and> first_task s = Joined (Panicked d))
    \<or> (\<exists>d. r = Inl (''outbound task panicked'' # d) \<and> second_task s = Joined (Panicked d))"
proof -
  have "relay_inv ''inbound task panicked'' ''outbound task panicked'' idle t0 s"
    using assms(1) by (intro relay_reaches_inv) (simp add: relay_reaches_def server_relay_step_def)
  then show ?thesis
    using assms(2) by (cases r) (auto simp: relay_inv_def failure_explained_def)
qed

lemma server_relay_ends_witness:
  "\<exists>s. (server_relay_step 5)\<^sup>*\<^sup>* (relay_start 5 0) s \<and> outcome s = Some (Inl [''refused''])
     \<and> first_task s \<noteq> Running \<and> second_task s \<noteq> Running"
proof -
  let ?s = "run_branch ''inbound task panicked'' ''outbound task panicked'' 5
      (after_first 5 0 (Returned (Inl [''refused'']))) JoinFirst"
  have r: "(server_relay_step 5)\<^sup>*\<^sup>* (relay_start 5 0) ?s"
    unfolding server_relay_step_def by (rule reaches_join_first)
  have o: "outcome ?s = Some (Inl [''refused''])"
    by (simp add: after_first_def break_with_def)
  from server_relay_ends [OF r o] r o show ?thesis by auto
qed

text \<open>C22: Activity postpones the idle timeout by the whole idle time: after the loop has received an
  activity token at time \<open>now s\<close>, the idle branch is not ready before \<open>now s + idle\<close>, whatever
  happens in between.\<close>

theorem activity_postpones_idle:
  assumes "activity_token s" and "deadline s \<le> now s + idle"
    and "(client_relay_step idle)\<^sup>*\<^sup>* (run_branch l1 l2 idle s RecvActivity) s'"
    and "branch_ready s' IdleTimer"
  shows "now s + idle \<le> now s'"
  using relay_run_deadline [OF assms(3) [unfolded client_relay_step_def]] assms(1,2,4) by simp

lemma activity_postpones_idle_witness:
  "\<exists>s s'. activity_token s \<and> (client_relay_step 5)\<^sup>*\<^sup>* (run_branch [] [] 5 s RecvActivity) s'
     \<and> branch_ready s' IdleTimer \<and> now s + 5 \<le> now s'"
proof -
  let ?s = "(relay_start 5 10)\<lparr>activity_token := True\<rparr>"
  let ?s1 = "run_branch [] [] 5 ?s RecvActivity"
  have r: "(client_relay_step 5)\<^sup>*\<^sup>* ?s1 (?s1\<lparr>now := now ?s1 + 7\<rparr>)"
    unfolding client_relay_step_def by (intro r_into_rtranclp time_passes)
  have i: "branch_ready (?s1\<lparr>now := now ?s1 + 7\<rparr>) IdleTimer" by (simp add: relay_start_def)
  have "now ?s + 5 \<le> now (?s1\<lparr>now := now ?s1 + 7\<rparr>)"
    by (rule activity_postpones_idle [OF _ _ r i]) (simp_all add: relay_start_def)
  with r i show ?thesis by (intro exI [of _ ?s] exI [of _ "?s1\<lparr>now := now ?s1 + 7\<rparr>"]) simp
qed

text \<open>The end of one direction does not end the session: when the client's uplink (or the server's
  inbound task) has returned at EOF and has been joined, the relay goes on with the other task.\<close>

theorem first_eof_keeps_relay_running:
  "(\<exists>s. (client_relay_step idle)\<^sup>*\<^sup>* (relay_start idle t0) s \<and> first_task s = Joined (Returned (Inr ()))
      \<and> second_task s = Running \<and> outcome s = None)
   \<and> (\<exists>s. (server_relay_step idle)\<^sup>*\<^sup>* (relay_start idle t0) s \<and> first_task s = Joined (Returned (Inr ()))
      \<and> second_task s = Running \<and> outcome s = None)"
proof -
  let ?s = "\<lambda>l1 l2. run_branch l1 l2 idle (after_first idle t0 (Returned (Inr ()))) JoinFirst"
  have "first_task (?s l1 l2) = Joined (Returned (Inr ())) \<and> second_task (?s l1 l2) = Running
      \<and> outcome (?s l1 l2) = None" for l1 l2
    by (simp add: after_first_def relay_start_def)
  with reaches_join_first show ?thesis
    unfolding client_relay_step_def server_relay_step_def by blast
qed


end
