(* ===== verification/Session_Ends.thy ===== *)
theory Session_Ends
  imports Relay
begin

text \<open>
  How the end of a session and the end of its streams belong together.

  The first part ties the two tasks of a relay to results they can have: a driven step is a step of
  the relay in which a task that ends does so as a given predicate allows.  The second part is what a
  stream that stops at a record boundary looks like to the task that reads it.
\<close>

section \<open>Relays with given tasks\<close>

text \<open>The result of a copy task as the relay's join sees it; a task may also panic.\<close>

definition task_result ::
    "('e relay_error \<Rightarrow> anyhow) \<Rightarrow> (('e relay_error + unit) poll \<times> ('r, 'w, 't) pump) option \<Rightarrow> join \<Rightarrow> bool" where
  "task_result err_text m j \<longleftrightarrow>
     (case j of
        Panicked _ \<Rightarrow> True
      | Returned r \<Rightarrow> \<exists>x s. m = Some (Ready x, s) \<and> r = map_err err_text x)"

definition driven :: "(join \<Rightarrow> bool) \<Rightarrow> (join \<Rightarrow> bool) \<Rightarrow> relay_state \<Rightarrow> relay_state \<Rightarrow> bool" where
  "driven first_may second_may s s' \<longleftrightarrow>
     (\<forall>j. first_task s = Running \<and> first_task s' = Finished j \<longrightarrow> first_may j)
   \<and> (\<forall>j. second_task s = Running \<and> second_task s' = Finished j \<longrightarrow> second_may j)"

definition driven_client_step :: "(join \<Rightarrow> bool) \<Rightarrow> (join \<Rightarrow> bool) \<Rightarrow> nat \<Rightarrow> relay_state \<Rightarrow> relay_state \<Rightarrow> bool" where
  "driven_client_step first_may second_may idle s s' \<longleftrightarrow>
     client_relay_step idle s s' \<and> driven first_may second_may s s'"

definition tasks_ok :: "(join \<Rightarrow> bool) \<Rightarrow> (join \<Rightarrow> bool) \<Rightarrow> relay_state \<Rightarrow> bool" where
  "tasks_ok first_may second_may s \<longleftrightarrow>
     (\<forall>j. first_task s = Finished j \<or> first_task s = Joined j \<longrightarrow> first_may j)
   \<and> (\<forall>j. second_task s = Finished j \<or> second_task s = Joined j \<longrightarrow> second_may j)"

lemma abort_Finished [simp]: "abort t = Finished j \<longleftrightarrow> t = Finished j"
  by (cases t; simp)

lemma driven_step_tasks:
  assumes "driven_client_step first_may second_may idle s s'" and ok: "tasks_ok first_may second_may s"
  shows "tasks_ok first_may second_may s'"
proof -
  have d: "driven first_may second_may s s'"
    and r: "relay_step ''uplink task panicked'' ''downlink task panicked'' idle s s'"
    using assms(1) by (simp_all add: driven_client_step_def client_relay_step_def)
  from r show ?thesis
  proof (cases rule: relay_step.cases)
    case (loop b)
    show ?thesis
    proof (cases b)
      case JoinFirst
      with loop obtain j where "first_task s = Finished j" by auto
      with ok loop JoinFirst show ?thesis
        by (cases j rule: join_cases)
           (simp_all add: run_branch_join return_panic_def break_with_def tasks_ok_def del: run_branch.simps)
    next
      case JoinSecond
      with loop obtain j where "second_task s = Finished j" by auto
      with ok loop JoinSecond show ?thesis
        by (cases j rule: join_cases)
           (simp_all add: run_branch_join return_panic_def break_with_def tasks_ok_def del: run_branch.simps)
    qed (use ok loop in \<open>simp_all add: tasks_ok_def break_with_def\<close>)
  qed (use ok d in \<open>auto simp: tasks_ok_def driven_def\<close>)
qed

lemma driven_run:
  assumes "(driven_client_step first_may second_may idle)\<^sup>*\<^sup>* (relay_start idle t0) s"
  shows "(client_relay_step idle)\<^sup>*\<^sup>* (relay_start idle t0) s \<and> tasks_ok first_may second_may s"
  using assms
proof (induction rule: rtranclp_induct)
  case base
  then show ?case by (simp add: tasks_ok_def relay_start_def)
next
  case (step s s')
  then show ?case
    using driven_step_tasks [OF step.hyps(2)] rtranclp.rtrancl_into_rtrancl
    by (metis driven_client_step_def)
qed

text \<open>Success comes from the second task, with the result it had.\<close>

lemma driven_success:
  assumes "(driven_client_step first_may second_may idle)\<^sup>*\<^sup>* (relay_start idle t0) s"
    and "outcome s = Some (Inr ())"
  shows "second_may (Returned (Inr ()))"
proof -
  from driven_run [OF assms(1)] have run: "(client_relay_step idle)\<^sup>*\<^sup>* (relay_start idle t0) s"
    and ok: "tasks_ok first_may second_may s" by blast+
  have "relay_inv ''uplink task panicked'' ''downlink task panicked'' idle t0 s"
    using run by (intro relay_reaches_inv) (simp add: relay_reaches_def client_relay_step_def)
  with assms(2) have "second_task s = Joined (Returned (Inr ()))" by (simp add: relay_inv_def)
  with ok show ?thesis by (simp add: tasks_ok_def)
qed

section \<open>The loop does not spin\<close>

text \<open>An iteration of the loop with nothing happening outside, and one that changes the state.\<close>

definition client_iteration :: "nat \<Rightarrow> branch \<Rightarrow> relay_state \<Rightarrow> relay_state \<Rightarrow> bool" where
  "client_iteration idle b s s' \<longleftrightarrow> outcome s = None \<and> branch_ready s b
     \<and> s' = run_branch ''uplink task panicked'' ''downlink task panicked'' idle s b"

definition client_change :: "nat \<Rightarrow> relay_state \<Rightarrow> relay_state \<Rightarrow> bool" where
  "client_change idle s s' \<longleftrightarrow> (\<exists>b. client_iteration idle b s s') \<and> s' \<noteq> s"

definition work_left :: "relay_state \<Rightarrow> nat" where
  "work_left s =
     (if outcome s \<noteq> None then 0
      else 1 + (if first_complete s then 0 else 1) + (if activity_token s then 1 else 0))"

lemma client_change_work: "client_change idle s s' \<Longrightarrow> work_left s' < work_left s"
proof -
  assume "client_change idle s s'"
  then obtain b where o: "outcome s = None" and r: "branch_ready s b" and ne: "s' \<noteq> s"
    and s': "s' = run_branch ''uplink task panicked'' ''downlink task panicked'' idle s b"
    by (auto simp: client_change_def client_iteration_def)
  show ?thesis
  proof (cases b)
    case JoinFirst
    with r obtain j where j: "first_task s = Finished j" "\<not> first_complete s" by auto
    then show ?thesis unfolding s' JoinFirst
      by (cases j rule: join_cases)
         (simp_all add: run_branch_join return_panic_def break_with_def work_left_def o del: run_branch.simps)
  next
    case JoinSecond
    with r obtain j where j: "second_task s = Finished j" by auto
    then show ?thesis unfolding s' JoinSecond
      by (cases j rule: join_cases)
         (simp_all add: run_branch_join return_panic_def break_with_def work_left_def o del: run_branch.simps)
  next
    case RecvActivity
    with ne s' have "activity_token s" by (simp split: if_splits)
    then show ?thesis unfolding s' RecvActivity by (simp add: work_left_def o)
  qed (simp_all add: s' break_with_def work_left_def o)
qed

lemma client_changes_bounded: "(client_change idle ^^ n) s s' \<Longrightarrow> n + work_left s' \<le> work_left s"
proof (induction n arbitrary: s')
  case (Suc n)
  then obtain t where "(client_change idle ^^ n) s t" "client_change idle t s'" by auto
  with Suc.IH [of t] client_change_work [of idle t s'] show ?case by simp
qed simp

text \<open>An iteration without effect is the receiver of the activity channel seeing both senders gone; the
  second task is then ready to be joined, which ends the loop.\<close>

lemma idle_iteration:
  assumes inv: "relay_inv l1 l2 idle t0 s" and "client_iteration idle b s s"
  shows "b = RecvActivity \<and> branch_ready s JoinSecond
    \<and> (\<forall>s'. client_iteration idle JoinSecond s s' \<longrightarrow> outcome s' \<noteq> None)"
proof -
  from assms(2) have o: "outcome s = None" and r: "branch_ready s b"
    and fx: "s = run_branch ''uplink task panicked'' ''downlink task panicked'' idle s b"
    by (simp_all add: client_iteration_def)
  have ends: "outcome s' \<noteq> None" if "client_iteration idle JoinSecond s s'" for s'
  proof -
    from that obtain j where "second_task s = Finished j" by (auto simp: client_iteration_def)
    with that show ?thesis
      by (cases j rule: join_cases) (auto simp: client_iteration_def return_panic_def break_with_def)
  qed
  have "b = RecvActivity \<and> \<not> activity_token s"
  proof (cases b)
    case JoinFirst
    with r obtain j where j: "first_task s = Finished j" by auto
    have "first_task (run_branch ''uplink task panicked'' ''downlink task panicked'' idle s b) \<noteq> Finished j"
      unfolding JoinFirst using j
      by (cases j rule: join_cases) (simp_all add: return_panic_def break_with_def)
    with fx j show ?thesis by metis
  next
    case JoinSecond
    with r assms(2) have "outcome s \<noteq> None" by (intro ends) simp
    with o show ?thesis by simp
  next
    case RecvActivity
    have "\<not> activity_token s"
    proof
      assume "activity_token s"
      then have "\<not> activity_token (run_branch ''uplink task panicked'' ''downlink task panicked'' idle s b)"
        unfolding RecvActivity by simp
      with fx \<open>activity_token s\<close> show False by metis
    qed
    with RecvActivity show ?thesis by simp
  next
    case IdleTimer
    have "outcome (run_branch ''uplink task panicked'' ''downlink task panicked'' idle s b) \<noteq> None"
      unfolding IdleTimer by (simp add: break_with_def)
    with fx o show ?thesis by metis
  next
    case ShutdownSignal
    have "outcome (run_branch ''uplink task panicked'' ''downlink task panicked'' idle s b) \<noteq> None"
      unfolding ShutdownSignal by (simp add: break_with_def)
    with fx o show ?thesis by metis
  qed
  moreover from this r have "second_task s \<noteq> Running" by auto
  with inv o have "\<exists>j. second_task s = Finished j" by (cases "second_task s") (auto simp: relay_inv_def)
  ultimately show ?thesis using ends by auto
qed



section \<open>Streams that stop at a record boundary\<close>

context relay_task
begin

lemma wire_of_Nil_iff: "wire_of q = [] \<longleftrightarrow> q = []"
  by (cases q) (auto simp: framed_def record_header_def u32_to_be_bytes_def)

lemma wire_prefix_unique:
  assumes "q1 @ q2 = qs @ tail" and wire: "wire_of qs = wire_of q1 @ rest"
    and rest: "rest = [] \<or> (\<exists>c p q2'. q2 = (c, p) # q2' \<and> strict_prefix rest (framed record_header c))"
  shows "q1 = qs \<and> rest = []"
proof -
  from assms(1) consider us where "q1 = qs @ us" | us where "qs = q1 @ us" "q2 = us @ tail"
    by (auto simp: append_eq_append_conv2)
  then show ?thesis
  proof cases
    case 1
    with wire show ?thesis by (simp add: wire_of_Nil_iff)
  next
    case 2
    with wire have w: "wire_of us = rest" by simp
    have "us = [] \<and> rest = []"
    proof (cases us)
      case Nil
      with w show ?thesis by simp
    next
      case (Cons cp us')
      with w have "rest \<noteq> []" by (auto simp: wire_of_Nil_iff)
      with rest 2(2) Cons have "rest = [] \<or> (\<exists>c p q2'. us = (c, p) # q2' \<and> strict_prefix rest (framed record_header c))"
        by auto
      from wire_of_complete [OF w this] show ?thesis .
    qed
    with 2 show ?thesis by simp
  qed
qed

lemma deliver_cut:
  assumes pair: "noise_pair api a b [] ba"
    and snd: "p_cell u = \<lparr>poisoned = False, transport = Some a\<rparr>" "healthy (p_writer u)" "written (p_writer u) = []"
      "pump_loop (encrypt_iter count api R W) u = Some (res, u')"
  shows "\<exists>sent. written (p_writer u') = wire_of sent \<and> prefix (plain_of sent) (content (p_reader u))
    \<and> (res = Pending \<or> res = Ready (Inr ()) \<longrightarrow> plain_of sent = content (p_reader u))
    \<and> (\<forall>k d. p_cell d = \<lparr>poisoned = False, transport = Some b\<rparr> \<and> healthy (p_writer d)
         \<and> content (p_reader d) = wire_of (take k sent) \<and> at_end (p_reader d) = AtEof \<longrightarrow>
         (\<exists>d'. pump_loop (decrypt_iter count api R W) d = Some (Ready (Inr ()), d') \<and> shut (p_writer d')
            \<and> written (p_writer d') = written (p_writer d) @ plain_of (take k sent)))"
proof -
  from encrypt_loop_sent [OF pair snd] obtain sent a' where v: "valid_records sent"
    and w: "written (p_writer u') = wire_of sent" and pair': "noise_pair api a' b sent ba"
    and pre: "prefix (plain_of sent) (content (p_reader u))"
    and all: "res = Pending \<or> res = Ready (Inr ()) \<longrightarrow> plain_of sent = content (p_reader u)" .
  have cut: "\<exists>d'. pump_loop (decrypt_iter count api R W) d = Some (Ready (Inr ()), d') \<and> shut (p_writer d')
      \<and> written (p_writer d') = written (p_writer d) @ plain_of (take k sent)"
    if d: "p_cell d = \<lparr>poisoned = False, transport = Some b\<rparr>" "healthy (p_writer d)"
      "content (p_reader d) = wire_of (take k sent)" "at_end (p_reader d) = AtEof" for k d
  proof -
    have "wire_of sent = wire_of (take k sent) @ wire_of (drop k sent)"
      by (simp flip: records_append(1))
    then have "prefix (content (p_reader d)) (wire_of sent)" using d(3) by simp
    from decrypt_loop [OF d(2,1) pair' v this] obtain res2 d' q1 q2 rest where
      d': "pump_loop (decrypt_iter count api R W) d = Some (res2, d')" "sent = q1 @ q2"
        "content (p_reader d) = wire_of q1 @ rest"
        "rest = [] \<or> (\<exists>c p q2'. q2 = (c, p) # q2' \<and> strict_prefix rest (framed record_header c))"
        "written (p_writer d') = written (p_writer d) @ plain_of q1"
      and en: "case at_end (p_reader d) of
           AtEof \<Rightarrow> if rest = [] then res2 = Ready (Inr ()) \<and> shut (p_writer d')
                    else res2 = Ready (Inl (FrameError (WireIo UnexpectedEof)))
         | Broken e \<Rightarrow> res2 = Ready (Inl (FrameError (WireIo e)))
         | Stalled \<Rightarrow> res2 = Pending"
      by blast
    have "q1 @ q2 = take k sent @ drop k sent" unfolding append_take_drop_id d'(2) ..
    from wire_prefix_unique [OF this _ d'(4)] d'(3) d(3) have "q1 = take k sent" "rest = []" by simp_all
    with d' en d(4) show ?thesis by simp
  qed
  from w pre all cut show ?thesis by (intro exI [of _ sent]) auto
qed

end

end
