(* ===== verification/Tampering.thy ===== *)
theory Tampering
  imports Session_Ends
begin

text \<open>
  A relay whose network is not to be trusted: it may drop, repeat, reorder, cut, insert and change
  bytes.  What the reading task makes of any such stream.

  Authenticity belongs to the Noise library, so it is a hypothesis about the stream: of the
  ciphertexts that can be cut from it (\<open>frames_in\<close>), the receiving transport refuses every one that
  is not the next genuine record (\<open>unforged\<close>).  Everything else (which bytes are looked at,
  in which order, what is delivered when, and that nothing is after a failure) is the code's.
\<close>

section \<open>What can be cut from a stream\<close>

function frames_in :: "bytes \<Rightarrow> bytes list" where
  "frames_in bs =
     (case parse_record bs AtEof of
        (Ready (Inr (Some f)), rest) \<Rightarrow> drop 4 f # frames_in rest
      | _ \<Rightarrow> [])"
  by pat_completeness auto
termination
  by (relation "measure length") (auto simp: parse_record_def Let_def split: if_splits)

declare frames_in.simps [simp del]

lemma parse_record_Some:
  assumes "parse_record bs en = (Ready (Inr (Some f)), rest)"
  obtains c where "f = framed record_header c" "bs = framed record_header c @ rest"
    "0 < length c" "length c \<le> MAX_CIPHERTEXT_RECORD"
proof -
  have "4 \<le> length bs" using assms by (cases en) (auto simp: parse_record_def split: if_splits)
  then obtain w x y z bs' where bs: "bs = w # x # y # z # bs'" by (rule list4E)
  define len where "len = unat (u32_from_be_bytes w x y z)"
  from assms bs have len: "0 < len" "len \<le> MAX_CIPHERTEXT_RECORD" "len \<le> length bs'"
    and f: "f = w # x # y # z # take len bs'" "rest = drop len bs'"
    by (cases en; auto simp: parse_record_def Let_def len_def [symmetric] numeral_eq_Suc split: if_splits)+
  then have "f = framed record_header (take len bs')"
    using record_header_of_bytes [of w x y z] by (simp add: framed_def len_def)
  with len f bs show ?thesis by (intro that [of "take len bs'"]) simp_all
qed

lemma parse_record_None:
  "parse_record bs en = (Ready (Inr None), rest) \<Longrightarrow> bs = [] \<and> en = AtEof"
  by (cases en) (auto simp: parse_record_def Let_def split: if_splits)

lemma frames_in_framed:
  assumes "0 < length c" and "length c \<le> MAX_CIPHERTEXT_RECORD"
  shows "frames_in (framed record_header c @ rest) = c # frames_in rest"
  by (subst frames_in.simps, simp only: parse_record_framed [OF assms]) (simp add: framed_def)

lemma frames_in_Nil [simp]: "frames_in [] = []"
  by (simp add: frames_in.simps [of "[]"] parse_record_def)

lemma frames_in_wire_of: "valid_records q \<Longrightarrow> frames_in (wire_of q @ rest) = map fst q @ frames_in rest"
proof (induction q)
  case (Cons cp q)
  then show ?case by (cases cp) (simp add: frames_in_framed tunnel_limits)
qed simp

section \<open>Streams without forged records\<close>

fun unforged :: "('p, 'b, 'h, 't, 'e) noise_lib \<Rightarrow> 't \<Rightarrow> (bytes \<times> bytes) list \<Rightarrow> bytes set \<Rightarrow> bool" where
  "unforged api b [] F \<longleftrightarrow> (\<forall>c \<in> F. \<exists>e. n_ts_read api b c (length c - 16) = Inl e)"
| "unforged api b ((c0, p0) # q) F \<longleftrightarrow>
     (\<forall>c \<in> F. c \<noteq> c0 \<longrightarrow> (\<exists>e. n_ts_read api b c (length c - 16) = Inl e))
   \<and> (\<forall>p b'. n_ts_read api b c0 (length c0 - 16) = Inr (p, b') \<longrightarrow> unforged api b' q F)"

lemma unforged_mono: "unforged api b q F \<Longrightarrow> G \<subseteq> F \<Longrightarrow> unforged api b q G"
  by (induction api b q F rule: unforged.induct) (simp; blast)+

lemma unforged_refused:
  assumes "unforged api b q F" and "c \<in> F" and "\<forall>p q'. q \<noteq> (c, p) # q'"
  obtains e where "n_ts_read api b c (length c - 16) = Inl e"
  using assms by (cases q) (auto, metis)

text \<open>A list of records is determined by its wire form and its plaintext.\<close>

lemma records_unique:
  assumes "valid_records q" and "valid_records r" and "wire_of q = wire_of r" and "plain_of q = plain_of r"
  shows "q = r"
  using assms
proof (induction q arbitrary: r)
  case Nil
  then show ?case by (cases r) (auto simp: framed_def record_header_def u32_to_be_bytes_def)
next
  case (Cons cp q)
  obtain c p where cp: "cp = (c, p)" by (cases cp)
  show ?case
  proof (cases r)
    case Nil
    with Cons.prems cp show ?thesis by (simp add: framed_def record_header_def u32_to_be_bytes_def)
  next
    case (Cons dq r')
    obtain d p' where dq: "dq = (d, p')" by (cases dq)
    from Cons.prems cp dq Cons have v: "length c = length p + 16" "length d = length p' + 16"
      "length p \<le> MAX_PLAINTEXT_RECORD" "length p' \<le> MAX_PLAINTEXT_RECORD"
      and w: "framed record_header c @ wire_of q = framed record_header d @ wire_of r'"
      and pl: "p @ plain_of q = p' @ plain_of r'" by simp_all
    have len: "length c \<le> MAX_CIPHERTEXT_RECORD" "length d \<le> MAX_CIPHERTEXT_RECORD" "0 < length c" "0 < length d"
      using v by (simp_all add: tunnel_limits)
    have "parse_record (framed record_header c @ wire_of q) AtEof
        = (Ready (Inr (Some (framed record_header d))), wire_of r')"
      unfolding w by (rule parse_record_framed [OF len(4,2)])
    from trans [OF sym [OF parse_record_framed [OF len(3,1), of "wire_of q" AtEof]] this]
    have "framed record_header c = framed record_header d" and wr: "wire_of q = wire_of r'"
      unfolding prod.inject poll.inject sum.inject option.inject by blast+
    then have "length (framed record_header c) = length (framed record_header d)"
      and "drop 4 (framed record_header c) = drop 4 (framed record_header d)" by simp_all
    then have "c = d" by (simp add: framed_def)
    have "p = p'" "plain_of q = plain_of r'" using v pl \<open>c = d\<close> by simp_all
    with Cons.IH [of r'] Cons.prems(1,2) wr \<open>c = d\<close> cp dq Cons show ?thesis by simp
  qed
qed

section \<open>The reading task on any stream\<close>

context relay_task
begin

text \<open>A stream that stops or is no frame: the task ends without having written.\<close>

lemma decrypt_step_no_record:
  fixes api :: "('p, 'b, 'h, 't, 'e) noise_lib"
  assumes "\<forall>f. fst (parse_record (content (p_reader s)) (at_end (p_reader s))) \<noteq> Ready (Inr (Some f))"
    and "content (p_reader s) \<noteq> []"
  shows "\<exists>res s'. pump_loop (decrypt_iter count api R W) s = Some (res, s') \<and> res \<noteq> Ready (Inr ())
      \<and> written (p_writer s') = written (p_writer s) \<and> p_tel s' = p_tel s"
proof -
  obtain x rest where x: "parse_record (content (p_reader s)) (at_end (p_reader s)) = (x, rest)" by fastforce
  obtain r' where fr: "(pump_frame (client_read_record_frame R) s :: ('e relay_error + bytes option) poll \<times> _) =
       await_err FrameError (x, s\<lparr>p_reader := r'\<rparr>)"
    by (rule pump_frame_parses [of s]) (simp add: x)
  have "x \<noteq> Ready (Inr None)" using parse_record_None x assms(2) by blast
  then consider "x = Pending" | e where "x = Ready (Inl e)"
    using assms(1) x by (cases x rule: poll.exhaust) (auto, metis option.exhaust sum.exhaust)
  then show ?thesis
  proof cases
    case 1
    with fr have "decrypt_iter count api R W s = (Pending, s\<lparr>p_reader := r'\<rparr>)" by (simp add: decrypt_iter_def)
    then show ?thesis by (auto simp: pump_loop_cases)
  next
    case (2 e)
    with fr have "decrypt_iter count api R W s = (Ready (Inl (FrameError e)), s\<lparr>p_reader := r'\<rparr>)"
      by (simp add: decrypt_iter_def)
    then show ?thesis by (auto simp: pump_loop_cases)
  qed
qed

text \<open>A record the cipher refuses: the task fails and the session is closed.\<close>

lemma decrypt_step_refused:
  fixes api :: "('p, 'b, 'h, 't, 'e) noise_lib"
  assumes bs: "content (p_reader s) = framed record_header c @ rest"
    and len: "0 < length c" "length c \<le> MAX_CIPHERTEXT_RECORD"
    and cell: "p_cell s = \<lparr>poisoned = False, transport = Some b\<rparr>"
    and refused: "n_ts_read api b c (length c - 16) = Inl e"
  shows "\<exists>s'. pump_loop (decrypt_iter count api R W) s = Some (Ready (Inl (CryptoError (Noise e))), s')
      \<and> written (p_writer s') = written (p_writer s) \<and> p_tel s' = p_tel s \<and> cell_closed (p_cell s')"
proof -
  obtain r' where fr: "(pump_frame (client_read_record_frame R) s :: ('e relay_error + bytes option) poll \<times> _) =
       (Ready (Inr (Some (framed record_header c))), s\<lparr>p_reader := r'\<rparr>)"
    by (rule pump_frame_parses [of s]) (simp add: bs parse_record_framed [OF len])
  have "open_record api (p_cell s) (framed record_header c)
      = (\<lparr>poisoned = False, transport = None\<rparr>, Inl (Noise e))"
    using len(2) cell refused by (simp add: open_record_def rec_frame.decode_framed)
  with fr have "decrypt_iter count api R W s = (Ready (Inl (CryptoError (Noise e))),
      s\<lparr>p_reader := r', p_cell := \<lparr>poisoned = False, transport = None\<rparr>\<rparr>)"
    by (simp add: decrypt_iter_def pump_open_def)
  then show ?thesis by (simp add: pump_loop_cases cell_closed_def)
qed

text \<open>What is delivered is an initial part of what was sent; a return without an error means that
  the stream was one of the sender's, from its beginning to the boundary of a record.\<close>

lemma decrypt_loop_tampered:
  fixes api :: "('p, 'b, 'h, 't, 'e) noise_lib"
  assumes "healthy (p_writer s)" and "p_cell s = \<lparr>poisoned = False, transport = Some b\<rparr>"
    and "noise_pair api a b q ba" and "valid_records q"
    and "unforged api b q (set (frames_in (content (p_reader s))))"
  shows "\<exists>res s' q1 q2.
      pump_loop (decrypt_iter count api R W) s = Some (res, s') \<and> q = q1 @ q2
      \<and> written (p_writer s') = written (p_writer s) @ plain_of q1
      \<and> p_tel s' = count (length (plain_of q1)) (p_tel s)
      \<and> prefix (wire_of q1) (content (p_reader s))
      \<and> (res = Ready (Inr ()) \<longrightarrow>
           content (p_reader s) = wire_of q1 \<and> at_end (p_reader s) = AtEof \<and> shut (p_writer s'))"
  using assms
proof (induction "length (content (p_reader s))" arbitrary: s b q rule: less_induct)
  case less
  let ?bs = "content (p_reader s)" and ?en = "at_end (p_reader s)"
  show ?case
  proof (cases "?bs = []")
    case True
    from decrypt_loop_idle [OF True less.prems(1), of api] obtain res s' where
      r: "pump_loop (decrypt_iter count api R W) s = Some (res, s')"
        "written (p_writer s') = written (p_writer s)" "p_tel s' = p_tel s"
      and en: "case ?en of
           AtEof \<Rightarrow> res = Ready (Inr ()) \<and> shut (p_writer s')
         | Broken e \<Rightarrow> res = Ready (Inl (FrameError (WireIo e)))
         | Stalled \<Rightarrow> res = Pending" by blast
    then have "res = Ready (Inr ()) \<longrightarrow> ?en = AtEof \<and> shut (p_writer s')" by (cases ?en) simp_all
    with r True show ?thesis
      by (intro exI [of _ res] exI [of _ s'] exI [of _ "[]"] exI [of _ q]) (simp add: count_0)
  next
    case nonempty: False
    show ?thesis
    proof (cases "\<exists>f. fst (parse_record ?bs ?en) = Ready (Inr (Some f))")
      case False
      then have "\<forall>f. fst (parse_record ?bs ?en) \<noteq> Ready (Inr (Some f))" by blast
      from decrypt_step_no_record [OF this nonempty, of api] obtain res s' where
        "pump_loop (decrypt_iter count api R W) s = Some (res, s')" "res \<noteq> Ready (Inr ())"
        "written (p_writer s') = written (p_writer s)" "p_tel s' = p_tel s" by blast
      then show ?thesis
        by (intro exI [of _ res] exI [of _ s'] exI [of _ "[]"] exI [of _ q]) (simp add: count_0)
    next
      case True
      then obtain f rest where "parse_record ?bs ?en = (Ready (Inr (Some f)), rest)"
        by (metis prod.collapse)
      from parse_record_Some [OF this] obtain c where bs: "?bs = framed record_header c @ rest"
        and len: "0 < length c" "length c \<le> MAX_CIPHERTEXT_RECORD" by metis
      have frames: "frames_in ?bs = c # frames_in rest"
        unfolding bs by (rule frames_in_framed [OF len])
      show ?thesis
      proof (cases "\<exists>p q'. q = (c, p) # q'")
        case False
        then have "\<forall>p q'. q \<noteq> (c, p) # q'" by blast
        with less.prems(5) frames obtain e where "n_ts_read api b c (length c - 16) = Inl e"
          using unforged_refused [of api b q "set (frames_in ?bs)" c] by auto
        from decrypt_step_refused [OF bs len less.prems(2) this] obtain s' where
          "pump_loop (decrypt_iter count api R W) s = Some (Ready (Inl (CryptoError (Noise e))), s')"
          "written (p_writer s') = written (p_writer s)" "p_tel s' = p_tel s" by blast
        then show ?thesis
          by (intro exI [of _ "Ready (Inl (CryptoError (Noise e)))"] exI [of _ s'] exI [of _ "[]"]
                exI [of _ q]) (simp add: count_0)
      next
        case True
        then obtain p q' where q: "q = (c, p) # q'" by blast
        from less.prems(4) q have rec: "length p \<le> MAX_PLAINTEXT_RECORD" "length c = length p + 16"
          and vq: "valid_records q'" by simp_all
        have pair: "noise_pair api a b ((c, p) # q') ba" using less.prems(3) q by simp
        obtain b' s1 where step: "decrypt_iter count api R W s = (Ready (Inr Continue), s1)"
          and src: "content (p_reader s1) = rest" "at_end (p_reader s1) = ?en"
          and out: "written (p_writer s1) = written (p_writer s) @ p" "healthy (p_writer s1)"
          and cell: "p_cell s1 = \<lparr>poisoned = False, transport = Some b'\<rparr>" "noise_pair api a b' q' ba"
          and tel: "p_tel s1 = count (length p) (p_tel s)"
          and rd: "n_ts_read api b c (length c - 16) = Inr (p, b')"
          using decrypt_step_record [OF bs less.prems(1) rec less.prems(2) pair] by metis
        have shorter: "length (content (p_reader s1)) < length ?bs"
          unfolding src(1) bs using len(1) by (simp add: framed_def)
        have "unforged api b' q' (set (frames_in ?bs))" using less.prems(5) q rd by simp
        then have "unforged api b' q' (set (frames_in (content (p_reader s1))))"
          by (rule unforged_mono) (simp add: frames src(1) subset_insertI)
        from less.hyps [OF shorter out(2) cell vq this] obtain res s' q1 q2 where
          IH: "pump_loop (decrypt_iter count api R W) s1 = Some (res, s')" "q' = q1 @ q2"
            "written (p_writer s') = written (p_writer s1) @ plain_of q1"
            "p_tel s' = count (length (plain_of q1)) (p_tel s1)" "prefix (wire_of q1) rest"
            "res = Ready (Inr ()) \<longrightarrow> rest = wire_of q1 \<and> ?en = AtEof \<and> shut (p_writer s')"
          unfolding src by blast
        have "pump_loop (decrypt_iter count api R W) s = Some (res, s')"
          using step IH(1) by (simp add: pump_loop_cases)
        with IH(2-) q out(1) tel bs show ?thesis
          by (intro exI [of _ res] exI [of _ s'] exI [of _ "(c, p) # q1"] exI [of _ q2])
             (simp add: count_add)
      qed
    qed
  qed
qed

text \<open>Both tasks, with an untrusted network between them.\<close>

lemma deliver_tampered:
  assumes pair: "noise_pair api a b [] ba"
    and snd: "p_cell u = \<lparr>poisoned = False, transport = Some a\<rparr>" "healthy (p_writer u)" "written (p_writer u) = []"
      "pump_loop (encrypt_iter count api R W) u = Some (res, u')"
  shows "\<exists>sent. written (p_writer u') = wire_of sent \<and> valid_records sent
    \<and> prefix (plain_of sent) (content (p_reader u))
    \<and> (res = Pending \<or> res = Ready (Inr ()) \<longrightarrow> plain_of sent = content (p_reader u))
    \<and> (\<forall>d. p_cell d = \<lparr>poisoned = False, transport = Some b\<rparr> \<and> healthy (p_writer d)
         \<and> unforged api b sent (set (frames_in (content (p_reader d)))) \<longrightarrow>
         (\<exists>res2 d' got. pump_loop (decrypt_iter count api R W) d = Some (res2, d')
            \<and> written (p_writer d') = written (p_writer d) @ got \<and> prefix got (content (p_reader u))
            \<and> p_tel d' = count (length got) (p_tel d)
            \<and> (res2 = Ready (Inr ()) \<longrightarrow> prefix (content (p_reader d)) (written (p_writer u'))
                 \<and> at_end (p_reader d) = AtEof \<and> shut (p_writer d'))))"
proof -
  from encrypt_loop_sent [OF pair snd] obtain sent a' where v: "valid_records sent"
    and w: "written (p_writer u') = wire_of sent" and pair': "noise_pair api a' b sent ba"
    and pre: "prefix (plain_of sent) (content (p_reader u))"
    and all: "res = Pending \<or> res = Ready (Inr ()) \<longrightarrow> plain_of sent = content (p_reader u)" .
  have "\<exists>res2 d' got. pump_loop (decrypt_iter count api R W) d = Some (res2, d')
      \<and> written (p_writer d') = written (p_writer d) @ got \<and> prefix got (content (p_reader u))
      \<and> p_tel d' = count (length got) (p_tel d)
      \<and> (res2 = Ready (Inr ()) \<longrightarrow> prefix (content (p_reader d)) (wire_of sent)
           \<and> at_end (p_reader d) = AtEof \<and> shut (p_writer d'))"
    if d: "p_cell d = \<lparr>poisoned = False, transport = Some b\<rparr>" "healthy (p_writer d)"
      "unforged api b sent (set (frames_in (content (p_reader d))))" for d
  proof -
    from decrypt_loop_tampered [OF d(2,1) pair' v d(3)] obtain res2 d' q1 q2 where
      "pump_loop (decrypt_iter count api R W) d = Some (res2, d')" and q: "sent = q1 @ q2"
      and "written (p_writer d') = written (p_writer d) @ plain_of q1"
        "p_tel d' = count (length (plain_of q1)) (p_tel d)"
        "res2 = Ready (Inr ()) \<longrightarrow>
           content (p_reader d) = wire_of q1 \<and> at_end (p_reader d) = AtEof \<and> shut (p_writer d')"
      by blast
    moreover have "prefix (plain_of q1) (content (p_reader u))" using pre q by (auto dest: append_prefixD)
    ultimately show ?thesis by (intro exI [of _ res2] exI [of _ d'] exI [of _ "plain_of q1"]) auto
  qed
  with v w pre all show ?thesis by (intro exI [of _ sent]) simp
qed

end

end
