(* ===== verification/Handshake.thy ===== *)
theory Handshake
  imports Transport
begin

text \<open>
  The Noise IK handshake of \<open>crates/secure-tunnel/src/lib.rs\<close>: \<open>ClientHandshake\<close>,
  \<open>ServerHandshake\<close> and \<open>ServerReply\<close>.  A method that takes \<open>&mut self\<close> returns the updated
  value with its \<open>Result\<close>; \<open>self.state.take()\<close> is the \<open>None\<close> that stays behind on an error.
  \<open>receive_client\<close> can in principle panic (\<open>last_error.expect\<close>); the panic is the value
  \<open>None\<close> around its result, and is shown unreachable for every handshake the constructors make.
\<close>

section \<open>Client side\<close>

record 'h client_handshake =
  ch_state :: "'h option"
  sent_first :: bool

definition client_handshake_new ::
    "('p, 'b, 'h, 't, 'e) noise_lib \<Rightarrow> bytes \<Rightarrow> bytes \<Rightarrow> 'e tunnel_error + 'h client_handshake" where
  "client_handshake_new api client_private pinned_server =
     rbind (noise_builder api) (\<lambda>b.
     rbind (map_err Noise (n_local_private_key api b client_private)) (\<lambda>b.
     rbind (map_err Noise (n_remote_public_key api b pinned_server)) (\<lambda>b.
     rbind (map_err Noise (n_build_initiator api b)) (\<lambda>state.
       Inr \<lparr>ch_state = Some state, sent_first = False\<rparr>))))"

definition first_message ::
    "('p, 'b, 'h, 't, 'e) noise_lib \<Rightarrow> 'h client_handshake
       \<Rightarrow> 'h client_handshake \<times> ('e tunnel_error + bytes)" where
  "first_message api ch =
     (if sent_first ch then (ch, Inl HandshakeOrder)
      else case ch_state ch of
        None \<Rightarrow> (ch, Inl ClosedSession)
      | Some state \<Rightarrow>
          (case n_hs_write api state [] MAX_HANDSHAKE_MESSAGE of
             Inl e \<Rightarrow> (ch\<lparr>ch_state := None\<rparr>, Inl (Noise e))
           | Inr (message, state') \<Rightarrow>
               (case encode_handshake_frame message of
                  Inl e \<Rightarrow> (ch\<lparr>ch_state := None, sent_first := True\<rparr>, Inl e)
                | Inr frame \<Rightarrow> (ch\<lparr>ch_state := Some state', sent_first := True\<rparr>, Inr frame))))"

definition client_finish ::
    "('p, 'b, 'h, 't, 'e) noise_lib \<Rightarrow> 'h client_handshake \<Rightarrow> bytes
       \<Rightarrow> 'h client_handshake \<times> ('e tunnel_error + 't cipher_cell)" where
  "client_finish api ch server_frame =
     (if \<not> sent_first ch then (ch, Inl HandshakeOrder)
      else case decode_handshake_frame server_frame of
        Inl e \<Rightarrow> (ch, Inl e)
      | Inr message \<Rightarrow>
          (case ch_state ch of
             None \<Rightarrow> (ch, Inl ClosedSession)
           | Some state \<Rightarrow>
               (ch\<lparr>ch_state := None\<rparr>,
                rbind (map_err Noise (n_hs_read api state message MAX_HANDSHAKE_MESSAGE)) (\<lambda>(_, state).
                rbind (map_err Noise (n_into_transport api state)) (\<lambda>t.
                  Inr (transport_session_new t))))))"

section \<open>Server side\<close>

record server_handshake =
  static_identities :: "bytes list option"
  allow_list :: "bytes set"
  preface_accepted :: bool

record 'h server_reply =
  sr_state :: "'h option"
  sent_reply :: bool

definition new_with_static_identities ::
    "bytes list \<Rightarrow> bytes list \<Rightarrow> 'e tunnel_error + server_handshake" where
  "new_with_static_identities server_privates authorised_clients =
     (if server_privates = [] then Inl MissingServerStaticIdentity
      else if MAX_SERVER_STATIC_IDENTITIES < length server_privates
      then Inl (TooManyServerStaticIdentities (length server_privates))
      else Inr \<lparr>static_identities = Some server_privates, allow_list = set authorised_clients,
                preface_accepted = False\<rparr>)"

definition server_handshake_new ::
    "bytes \<Rightarrow> bytes list \<Rightarrow> 'e tunnel_error + server_handshake" where
  "server_handshake_new server_private authorised_clients =
     new_with_static_identities [server_private] authorised_clients"

definition accept_preface ::
    "server_handshake \<Rightarrow> bytes \<Rightarrow> server_handshake \<times> ('e tunnel_error + unit)" where
  "accept_preface sh preface =
     (if preface_accepted sh then (sh, Inl HandshakeOrder)
      else case preface_parse preface of
        Inl e \<Rightarrow> (sh, Inl e)
      | Inr _ \<Rightarrow> (sh\<lparr>preface_accepted := True\<rparr>, Inr ()))"

definition build_responder_for ::
    "('p, 'b, 'h, 't, 'e) noise_lib \<Rightarrow> bytes \<Rightarrow> 'e tunnel_error + 'h" where
  "build_responder_for api server_private =
     rbind (noise_builder api) (\<lambda>b.
     rbind (map_err Noise (n_local_private_key api b server_private)) (\<lambda>b.
       map_err Noise (n_build_responder api b)))"

text \<open>The loop over the configured identities, with the two locals it updates; \<open>None\<close> is the
  panic of \<open>expect\<close>.\<close>

fun try_identities ::
    "('p, 'b, 'h, 't, 'e) noise_lib \<Rightarrow> bytes set \<Rightarrow> bytes \<Rightarrow> bytes list \<Rightarrow> bool \<Rightarrow> 'e option
       \<Rightarrow> ('e tunnel_error + 'h server_reply) option" where
  "try_identities api allow message [] unauthorised_client last_error =
     (if unauthorised_client then Some (Inl UnauthorisedClient)
      else case last_error of
        None \<Rightarrow> None
      | Some e \<Rightarrow> Some (Inl (Noise e)))"
| "try_identities api allow message (server_private # rest) unauthorised_client last_error =
     (case build_responder_for api server_private of
        Inl e \<Rightarrow> Some (Inl e)
      | Inr state \<Rightarrow>
          (case n_hs_read api state message MAX_HANDSHAKE_MESSAGE of
             Inl e \<Rightarrow> try_identities api allow message rest unauthorised_client (Some e)
           | Inr (_, state') \<Rightarrow>
               (case Option.bind (n_remote_static api state') try_into_32 of
                  None \<Rightarrow> Some (Inl UnauthorisedClient)
                | Some remote \<Rightarrow>
                    if remote \<in> allow
                    then Some (Inr \<lparr>sr_state = Some state', sent_reply = False\<rparr>)
                    else try_identities api allow message rest True last_error)))"

definition receive_client ::
    "('p, 'b, 'h, 't, 'e) noise_lib \<Rightarrow> server_handshake \<Rightarrow> bytes
       \<Rightarrow> server_handshake \<times> ('e tunnel_error + 'h server_reply) option" where
  "receive_client api sh client_frame =
     (if \<not> preface_accepted sh then (sh, Some (Inl HandshakeOrder))
      else case decode_handshake_frame client_frame of
        Inl e \<Rightarrow> (sh, Some (Inl e))
      | Inr message \<Rightarrow>
          (case static_identities sh of
             None \<Rightarrow> (sh, Some (Inl ClosedSession))
           | Some identities \<Rightarrow>
               (sh\<lparr>static_identities := None\<rparr>,
                try_identities api (allow_list sh) message identities False None)))"

definition reply_message ::
    "('p, 'b, 'h, 't, 'e) noise_lib \<Rightarrow> 'h server_reply
       \<Rightarrow> 'h server_reply \<times> ('e tunnel_error + bytes)" where
  "reply_message api sr =
     (if sent_reply sr then (sr, Inl HandshakeOrder)
      else case sr_state sr of
        None \<Rightarrow> (sr, Inl ClosedSession)
      | Some state \<Rightarrow>
          (case n_hs_write api state [] MAX_HANDSHAKE_MESSAGE of
             Inl e \<Rightarrow> (sr\<lparr>sr_state := None\<rparr>, Inl (Noise e))
           | Inr (message, state') \<Rightarrow>
               (case encode_handshake_frame message of
                  Inl e \<Rightarrow> (sr\<lparr>sr_state := None, sent_reply := True\<rparr>, Inl e)
                | Inr frame \<Rightarrow> (sr\<lparr>sr_state := Some state', sent_reply := True\<rparr>, Inr frame))))"

text \<open>\<open>into_session\<close> consumes the reply.\<close>

definition into_session ::
    "('p, 'b, 'h, 't, 'e) noise_lib \<Rightarrow> 'h server_reply \<Rightarrow> 'e tunnel_error + 't cipher_cell" where
  "into_session api sr =
     (if \<not> sent_reply sr then Inl HandshakeOrder
      else rbind (ok_or (sr_state sr) ClosedSession) (\<lambda>state.
           rbind (map_err Noise (n_into_transport api state)) (\<lambda>t.
             Inr (transport_session_new t))))"

section \<open>Fail-closed sides\<close>

datatype client_op = FirstMessage | Finish bytes
datatype 't client_out = ClientFrame bytes | ClientSession "'t cipher_cell"

fun client_step ::
    "('p, 'b, 'h, 't, 'e) noise_lib \<Rightarrow> 'h client_handshake \<Rightarrow> client_op
       \<Rightarrow> 'h client_handshake \<times> ('e tunnel_error + 't client_out)" where
  "client_step api ch FirstMessage =
     apsnd (\<lambda>r. rbind r (\<lambda>f. Inr (ClientFrame f))) (first_message api ch)"
| "client_step api ch (Finish frame) =
     apsnd (\<lambda>r. rbind r (\<lambda>c. Inr (ClientSession c))) (client_finish api ch frame)"

definition client_closed :: "'h client_handshake \<Rightarrow> bool" where
  "client_closed ch \<longleftrightarrow> ch_state ch = None"

lemma first_message_closed:
  "client_closed ch \<Longrightarrow> fst (first_message api ch) = ch \<and> (\<exists>e. snd (first_message api ch) = Inl e)"
  by (simp add: first_message_def client_closed_def)

lemma first_message_error:
  "snd (first_message api ch) = Inl e \<Longrightarrow>
     fst (first_message api ch) = ch \<or> client_closed (fst (first_message api ch))"
  by (auto simp: first_message_def client_closed_def split: option.splits sum.splits if_splits)

lemma client_finish_closed:
  "client_closed ch \<Longrightarrow> fst (client_finish api ch f) = ch \<and> (\<exists>e. snd (client_finish api ch f) = Inl e)"
  by (auto simp: client_finish_def client_closed_def split: sum.splits)

lemma client_finish_consumes:
  "fst (client_finish api ch f) = ch \<or> client_closed (fst (client_finish api ch f))"
  by (auto simp: client_finish_def client_closed_def split: option.splits sum.splits)

lemma client_finish_Inr_closes:
  "snd (client_finish api ch f) = Inr c \<Longrightarrow> client_closed (fst (client_finish api ch f))"
  by (auto simp: client_finish_def client_closed_def split: option.splits sum.splits if_splits)

interpretation client: fail_closed "client_step api" client_closed
  for api :: "('p, 'b, 'h, 't, 'e) noise_lib"
proof unfold_locales
  fix s :: "'h client_handshake" and i
  assume "client_closed s"
  then show "client_closed (fst (client_step api s i)) \<and> (\<exists>e. snd (client_step api s i) = Inl e)"
    using first_message_closed [of s api] client_finish_closed [of s api]
    by (cases i) (fastforce simp: rbind_Inl_iff)+
next
  fix s :: "'h client_handshake" and i e
  assume "snd (client_step api s i) = Inl e"
  then show "fst (client_step api s i) = s \<or> client_closed (fst (client_step api s i))"
    using client_finish_consumes [of api s] first_message_error [of api s]
    by (cases i) (auto simp: rbind_Inl_iff)
qed

datatype server_op = AcceptPreface bytes | ReceiveClient bytes
datatype 'h server_out = PrefaceOk | Reply "'h server_reply"

text \<open>The error of a server step is \<open>None\<close> when the method panicked.\<close>

definition catch_panic :: "('e + 'a) option \<Rightarrow> 'e option + 'a" where
  "catch_panic r = (case r of None \<Rightarrow> Inl None | Some r \<Rightarrow> map_err Some r)"

fun server_step ::
    "('p, 'b, 'h, 't, 'e) noise_lib \<Rightarrow> server_handshake \<Rightarrow> server_op
       \<Rightarrow> server_handshake \<times> ('e tunnel_error option + 'h server_out)" where
  "server_step api sh (AcceptPreface preface) =
     apsnd (\<lambda>r. rbind (map_err Some r) (\<lambda>_. Inr PrefaceOk)) (accept_preface sh preface)"
| "server_step api sh (ReceiveClient frame) =
     apsnd (\<lambda>r. rbind (catch_panic r) (\<lambda>sr. Inr (Reply sr))) (receive_client api sh frame)"

definition server_closed :: "server_handshake \<Rightarrow> bool" where
  "server_closed sh \<longleftrightarrow> preface_accepted sh \<and> static_identities sh = None"

lemma accept_preface_error:
  "snd (accept_preface sh v) = (Inl e :: 'e tunnel_error + unit) \<Longrightarrow>
     fst (accept_preface sh v :: _ \<times> ('e tunnel_error + unit)) = sh"
  by (auto simp: accept_preface_def split: sum.splits if_splits)

lemma receive_client_consumes:
  "fst (receive_client api sh f) = sh \<or> server_closed (fst (receive_client api sh f))"
  by (auto simp: receive_client_def server_closed_def split: option.splits sum.splits)

lemma receive_client_closed:
  "server_closed sh \<Longrightarrow>
     fst (receive_client api sh f) = sh \<and> (\<exists>e. snd (receive_client api sh f) = Some (Inl e))"
  by (auto simp: receive_client_def server_closed_def split: sum.splits)

interpretation server: fail_closed "server_step api" server_closed
  for api :: "('p, 'b, 'h, 't, 'e) noise_lib"
proof unfold_locales
  fix s and i
  assume c: "server_closed s"
  show "server_closed (fst (server_step api s i)) \<and> (\<exists>e. snd (server_step api s i) = Inl e)"
  proof (cases i)
    case (AcceptPreface v)
    with c show ?thesis by (simp add: accept_preface_def server_closed_def)
  next
    case (ReceiveClient f)
    with c receive_client_closed [OF c, of api f] show ?thesis
      by (auto simp: catch_panic_def)
  qed
next
  fix s and i e
  assume "snd (server_step api s i) = Inl e"
  then show "fst (server_step api s i) = s \<or> server_closed (fst (server_step api s i))"
    using receive_client_consumes [of api s] accept_preface_error [of s]
    by (cases i) (auto simp: rbind_Inl_iff map_err_Inl_iff)
qed

section \<open>Server authorisation\<close>

text \<open>What one configured identity makes of the first message.\<close>

definition identity_accepts ::
    "('p, 'b, 'h, 't, 'e) noise_lib \<Rightarrow> bytes set \<Rightarrow> bytes \<Rightarrow> bytes \<Rightarrow> 'h \<Rightarrow> bool" where
  "identity_accepts api allow message k state \<longleftrightarrow>
     (\<exists>st pl remote. build_responder_for api k = Inr st
        \<and> n_hs_read api st message MAX_HANDSHAKE_MESSAGE = Inr (pl, state)
        \<and> n_remote_static api state = Some remote \<and> length remote = 32 \<and> remote \<in> allow)"

definition identity_rejects ::
    "('p, 'b, 'h, 't, 'e) noise_lib \<Rightarrow> bytes set \<Rightarrow> bytes \<Rightarrow> bytes \<Rightarrow> bool" where
  "identity_rejects api allow message k \<longleftrightarrow>
     (\<exists>st. build_responder_for api k = Inr st
        \<and> ((\<exists>e. n_hs_read api st message MAX_HANDSHAKE_MESSAGE = Inl e)
           \<or> (\<exists>pl state remote. n_hs_read api st message MAX_HANDSHAKE_MESSAGE = Inr (pl, state)
                \<and> n_remote_static api state = Some remote \<and> length remote = 32 \<and> remote \<notin> allow)))"

lemma try_into_32_Some [result_iff]: "try_into_32 v = Some w \<longleftrightarrow> length v = 32 \<and> w = v"
  by (auto simp: try_into_32_def)

lemma bind_try_into_32 [simp]:
  "Option.bind v try_into_32 = Some w \<longleftrightarrow> v = Some w \<and> length w = 32"
  by (cases v) (auto simp: result_iff)

lemma try_identities_accept_first:
  "identity_accepts api allow m k st \<Longrightarrow>
     try_identities api allow m (k # ks) u le = Some (Inr \<lparr>sr_state = Some st, sent_reply = False\<rparr>)"
  by (auto simp: identity_accepts_def try_into_32_def)

lemma try_identities_reject_first:
  "identity_rejects api allow m k \<Longrightarrow>
     \<exists>u' le'. try_identities api allow m (k # ks) u le = try_identities api allow m ks u' le'"
  unfolding identity_rejects_def by (elim exE conjE disjE) (simp add: try_into_32_def; blast)+

lemma try_identities_skip:
  "\<forall>k \<in> set pre. identity_rejects api allow m k \<Longrightarrow>
     \<exists>u' le'. try_identities api allow m (pre @ ks) u le = try_identities api allow m ks u' le'"
proof (induction pre arbitrary: u le)
  case Nil
  then show ?case by auto
next
  case (Cons k pre)
  obtain u1 le1 where
    "try_identities api allow m (k # pre @ ks) u le = try_identities api allow m (pre @ ks) u1 le1"
    using try_identities_reject_first Cons.prems by (metis list.set_intros(1))
  with Cons show ?case by (metis append_Cons list.set_intros(2))
qed

lemma try_identities_Cons_Inr:
  assumes "try_identities api allow m (k # ks) u le = Some (Inr sr)"
  shows "(\<exists>st. identity_accepts api allow m k st \<and> sr = \<lparr>sr_state = Some st, sent_reply = False\<rparr>)
         \<or> identity_rejects api allow m k
            \<and> (\<exists>u' le'. try_identities api allow m ks u' le' = Some (Inr sr))"
  using assms
  by (auto simp: identity_accepts_def identity_rejects_def
      split: sum.splits option.splits if_splits)

text \<open>A reply exists exactly when some identity accepts and every earlier one rejects.\<close>

lemma try_identities_Inr_iff:
  "try_identities api allow m ids u le = Some (Inr sr) \<longleftrightarrow>
     (\<exists>pre k post st. ids = pre @ k # post \<and> (\<forall>k' \<in> set pre. identity_rejects api allow m k')
        \<and> identity_accepts api allow m k st \<and> sr = \<lparr>sr_state = Some st, sent_reply = False\<rparr>)"
  (is "?lhs u le \<longleftrightarrow> ?rhs ids")
proof
  show "?lhs u le \<Longrightarrow> ?rhs ids"
  proof (induction ids arbitrary: u le)
    case Nil
    then show ?case by (auto split: if_splits option.splits)
  next
    case (Cons k ks)
    from try_identities_Cons_Inr [OF Cons.prems] show ?case
    proof (elim disjE exE conjE)
      fix st
      assume "identity_accepts api allow m k st" and "sr = \<lparr>sr_state = Some st, sent_reply = False\<rparr>"
      then show ?case by (intro exI [of _ "[]"] exI [of _ k] exI [of _ ks] exI [of _ st]) simp
    next
      fix u' le'
      assume r: "identity_rejects api allow m k"
        and t: "try_identities api allow m ks u' le' = Some (Inr sr)"
      from Cons.IH [OF t] obtain pre k' post st where "ks = pre @ k' # post"
        and "\<forall>k' \<in> set pre. identity_rejects api allow m k'"
        and "identity_accepts api allow m k' st" and "sr = \<lparr>sr_state = Some st, sent_reply = False\<rparr>"
        by blast
      with r show ?case
        by (intro exI [of _ "k # pre"] exI [of _ k'] exI [of _ post] exI [of _ st]) simp
    qed
  qed
next
  assume "?rhs ids"
  then show "?lhs u le"
    using try_identities_skip try_identities_accept_first by metis
qed

lemma receive_client_accepts:
  "receive_client api sh f = (sh', Some (Inr sr)) \<longleftrightarrow>
     preface_accepted sh \<and> sh' = sh\<lparr>static_identities := None\<rparr>
     \<and> (\<exists>m pre k post st. decode_handshake_frame f = (Inr m :: 'e tunnel_error + bytes)
          \<and> static_identities sh = Some (pre @ k # post)
          \<and> (\<forall>k' \<in> set pre. identity_rejects api (allow_list sh) m k')
          \<and> identity_accepts (api :: ('p, 'b, 'h, 't, 'e) noise_lib) (allow_list sh) m k st
          \<and> sr = \<lparr>sr_state = Some st, sent_reply = False\<rparr>)"
proof (cases "preface_accepted sh")
  case False
  then show ?thesis by (simp add: receive_client_def)
next
  case True
  show ?thesis
  proof (cases "decode_handshake_frame f :: 'e tunnel_error + bytes")
    case (Inl e)
    then show ?thesis using True by (simp add: receive_client_def)
  next
    case (Inr m)
    then show ?thesis
      using True by (cases "static_identities sh") (auto simp: receive_client_def try_identities_Inr_iff)
  qed
qed

text \<open>The panic needs an empty list of identities.\<close>

lemma try_identities_panic_iff:
  "try_identities api allow m ids u le = None \<longleftrightarrow> ids = [] \<and> \<not> u \<and> le = None"
  by (induction ids arbitrary: u le) (auto simp del: not_None_eq split: sum.splits option.splits)

definition server_inv :: "server_handshake \<Rightarrow> bool" where
  "server_inv sh \<longleftrightarrow>
     (case static_identities sh of
        None \<Rightarrow> True
      | Some ids \<Rightarrow> ids \<noteq> [] \<and> length ids \<le> MAX_SERVER_STATIC_IDENTITIES)"

lemma new_with_static_identities_Inr [result_iff]:
  "new_with_static_identities ids clients = Inr sh \<longleftrightarrow>
     ids \<noteq> [] \<and> length ids \<le> MAX_SERVER_STATIC_IDENTITIES
     \<and> sh = \<lparr>static_identities = Some ids, allow_list = set clients, preface_accepted = False\<rparr>"
  by (auto simp: new_with_static_identities_def)

lemma new_with_static_identities_inv:
  "new_with_static_identities ids clients = Inr sh \<Longrightarrow> server_inv sh"
  by (auto simp: result_iff server_inv_def)

lemma accept_preface_inv: "server_inv sh \<Longrightarrow> server_inv (fst (accept_preface sh v))"
  by (auto simp: accept_preface_def server_inv_def split: sum.splits)

lemma receive_client_inv: "server_inv sh \<Longrightarrow> server_inv (fst (receive_client api sh f))"
  by (auto simp: receive_client_def server_inv_def split: sum.splits option.splits)

lemma receive_client_no_panic: "server_inv sh \<Longrightarrow> snd (receive_client api sh f) \<noteq> None"
  by (auto simp: receive_client_def server_inv_def try_identities_panic_iff simp del: not_None_eq
      split: sum.splits option.splits)

lemma server_step_inv: "server_inv sh \<Longrightarrow> server_inv (fst (server_step api sh i))"
  using accept_preface_inv [of sh] receive_client_inv [of sh api]
  by (cases i) auto

lemma server_step_no_panic: "server_inv sh \<Longrightarrow> snd (server_step api sh i) \<noteq> Inl None"
  using receive_client_no_panic [of sh api]
  by (cases i) (auto simp: rbind_Inl_iff map_err_Inl_iff catch_panic_def
      split: option.splits)

lemma server_run_no_panic:
  "server_inv sh \<Longrightarrow> Inl None \<notin> set (snd (run_ops (server_step api) sh is))"
proof (induction "is" arbitrary: sh)
  case Nil
  then show ?case by simp
next
  case (Cons i "is")
  then show ?case
    using server_step_inv [OF Cons.prems] server_step_no_panic [OF Cons.prems, of api i]
    by (auto simp: case_prod_unfold Let_def)
qed

section \<open>The whole handshake\<close>

text \<open>
  Both sides in the order the binaries run them (\<open>complete_noise_handshake\<close> of the client against
  \<open>run_noise\<close> of the server, with the wire between them perfect).
\<close>

definition handshake_exchange ::
    "('p, 'b, 'h, 't, 'e) noise_lib \<Rightarrow> bytes \<Rightarrow> bytes \<Rightarrow> bytes list \<Rightarrow> bytes list
       \<Rightarrow> 'e tunnel_error option + ('t cipher_cell \<times> 't cipher_cell)" where
  "handshake_exchange api client_private pinned_server server_privates clients =
     rbind (map_err Some (client_handshake_new api client_private pinned_server)) (\<lambda>ch.
     rbind (map_err Some (new_with_static_identities server_privates clients)) (\<lambda>sh.
     let (sh, r) = accept_preface sh (preface_encode V1) in rbind (map_err Some r) (\<lambda>_.
     let (ch, r) = first_message api ch in rbind (map_err Some r) (\<lambda>first.
     let (sh, r) = receive_client api sh first in rbind (catch_panic r) (\<lambda>reply.
     let (reply, r) = reply_message api reply in rbind (map_err Some r) (\<lambda>second.
     let (ch, r) = client_finish api ch second in rbind (map_err Some r) (\<lambda>client_session.
     rbind (map_err Some (into_session api reply)) (\<lambda>server_session.
       Inr (client_session, server_session)))))))))"

text \<open>
  What Noise IK promises to two honest peers: with the client pinning \<open>spub\<close>, the server identity
  \<open>spriv\<close> reads the first message and learns the client's static key, every other configured
  identity fails to decrypt it, the reply completes the client, and both end in one session.
\<close>

definition ik_agreement ::
    "('p, 'b, 'h, 't, 'e) noise_lib \<Rightarrow> bytes \<Rightarrow> bytes \<Rightarrow> bytes list \<Rightarrow> bytes \<Rightarrow> bytes \<Rightarrow> 't \<Rightarrow> 't \<Rightarrow> bool" where
  "ik_agreement api cpriv cpub sprivs spriv spub ta tb \<longleftrightarrow>
     (\<exists>b b1 b2 i0 m1 i1 r0 pl1 r1 m2 r2 pl2 i2.
        noise_builder api = Inr b \<and> n_local_private_key api b cpriv = Inr b1
        \<and> n_remote_public_key api b1 spub = Inr b2 \<and> n_build_initiator api b2 = Inr i0
        \<and> n_hs_write api i0 [] MAX_HANDSHAKE_MESSAGE = Inr (m1, i1) \<and> length m1 \<le> MAX_HANDSHAKE_MESSAGE
        \<and> build_responder_for api spriv = Inr r0
        \<and> n_hs_read api r0 m1 MAX_HANDSHAKE_MESSAGE = Inr (pl1, r1) \<and> n_remote_static api r1 = Some cpub
        \<and> (\<forall>k \<in> set sprivs. k \<noteq> spriv \<longrightarrow>
             (\<exists>st e. build_responder_for api k = Inr st \<and> n_hs_read api st m1 MAX_HANDSHAKE_MESSAGE = Inl e))
        \<and> n_hs_write api r1 [] MAX_HANDSHAKE_MESSAGE = Inr (m2, r2) \<and> length m2 \<le> MAX_HANDSHAKE_MESSAGE
        \<and> n_hs_read api i1 m2 MAX_HANDSHAKE_MESSAGE = Inr (pl2, i2)
        \<and> n_into_transport api i2 = Inr ta \<and> n_into_transport api r2 = Inr tb)
     \<and> noise_pair api ta tb [] []"

text \<open>The first occurrence of the pinned identity decides, whatever comes after it.\<close>

lemma try_identities_finds:
  assumes "spriv \<in> set sprivs" and "identity_accepts api allow m spriv st"
    and "\<forall>k \<in> set sprivs. k \<noteq> spriv \<longrightarrow> identity_rejects api allow m k"
  shows "try_identities api allow m sprivs u le = Some (Inr \<lparr>sr_state = Some st, sent_reply = False\<rparr>)"
proof -
  obtain pre post where "sprivs = pre @ spriv # post" and "spriv \<notin> set pre"
    using split_list_first [OF assms(1)] by blast
  with assms(2,3) show ?thesis
    unfolding try_identities_Inr_iff
    by (intro exI [of _ pre] exI [of _ spriv] exI [of _ post] exI [of _ st]) auto
qed

lemma handshake_exchange_agrees:
  assumes ik: "ik_agreement api cpriv cpub sprivs spriv spub ta tb"
    and ids: "spriv \<in> set sprivs" "length sprivs \<le> MAX_SERVER_STATIC_IDENTITIES"
    and auth: "cpub \<in> set clients" "length cpub = 32"
  shows "handshake_exchange api cpriv spub sprivs clients =
           Inr (transport_session_new ta, transport_session_new tb)"
proof -
  from ik obtain b b1 b2 i0 m1 i1 r0 pl1 r1 m2 r2 pl2 i2 where
    c: "noise_builder api = Inr b" "n_local_private_key api b cpriv = Inr b1"
      "n_remote_public_key api b1 spub = Inr b2" "n_build_initiator api b2 = Inr i0"
    and m1: "n_hs_write api i0 [] MAX_HANDSHAKE_MESSAGE = Inr (m1, i1)" "length m1 \<le> MAX_HANDSHAKE_MESSAGE"
    and r: "build_responder_for api spriv = Inr r0"
      "n_hs_read api r0 m1 MAX_HANDSHAKE_MESSAGE = Inr (pl1, r1)" "n_remote_static api r1 = Some cpub"
    and others: "\<forall>k \<in> set sprivs. k \<noteq> spriv \<longrightarrow>
        (\<exists>st e. build_responder_for api k = Inr st \<and> n_hs_read api st m1 MAX_HANDSHAKE_MESSAGE = Inl e)"
    and m2: "n_hs_write api r1 [] MAX_HANDSHAKE_MESSAGE = Inr (m2, r2)" "length m2 \<le> MAX_HANDSHAKE_MESSAGE"
    and fin: "n_hs_read api i1 m2 MAX_HANDSHAKE_MESSAGE = Inr (pl2, i2)"
      "n_into_transport api i2 = Inr ta" "n_into_transport api r2 = Inr tb"
    unfolding ik_agreement_def by blast
  have "identity_accepts api (set clients) m1 spriv r1"
    using r auth by (auto simp: identity_accepts_def)
  moreover have "\<forall>k \<in> set sprivs. k \<noteq> spriv \<longrightarrow> identity_rejects api (set clients) m1 k"
    using others unfolding identity_rejects_def by blast
  ultimately have accept: "try_identities api (set clients) m1 sprivs False None
      = Some (Inr \<lparr>sr_state = Some r1, sent_reply = False\<rparr>)"
    using ids(1) by (intro try_identities_finds)
  have nonempty: "sprivs \<noteq> []" using ids(1) by auto
  show ?thesis
    unfolding handshake_exchange_def
    using c m1 m2 fin accept nonempty ids(2)
    by (simp add: client_handshake_new_def new_with_static_identities_def accept_preface_def
        first_message_def encode_handshake_frame_eq receive_client_def
        hs_frame.decode_framed catch_panic_def reply_message_def client_finish_def into_session_def)
qed

end
