(* ===== verification/Noise_Instance.thy ===== *)
theory Noise_Instance
  imports Handshake
begin

text \<open>
  A concrete \<open>noise_lib\<close>, used only by the theorems that show the hypotheses about the Noise library
  can hold together.  It has the interface and the message pattern of IK (initiator names the
  pinned key and its own, responder answers) and the framing of the transport (a 16-byte tag per
  record, one counter per direction), and no secrecy.
\<close>

datatype plain_error = DecryptFailed | StateProblem | BadKey

datatype plain_hs =
    InitStart bytes bytes | InitWait bytes bytes | InitDone
  | RespStart bytes | RespGot bytes bytes | RespDone

definition plain_public :: "bytes \<Rightarrow> bytes" where
  "plain_public k = map (\<lambda>b. b + 1) k"

definition plain_tag :: "nat \<Rightarrow> bytes" where
  "plain_tag n = replicate 16 (of_nat n)"

fun plain_hs_write :: "plain_hs \<Rightarrow> bytes \<Rightarrow> nat \<Rightarrow> plain_error + (bytes \<times> plain_hs)" where
  "plain_hs_write (InitStart k s) p cap = Inr (s @ plain_public k, InitWait k s)"
| "plain_hs_write (RespGot k c) p cap = Inr (plain_public k @ c, RespDone)"
| "plain_hs_write _ p cap = Inl StateProblem"

fun plain_hs_read :: "plain_hs \<Rightarrow> bytes \<Rightarrow> nat \<Rightarrow> plain_error + (bytes \<times> plain_hs)" where
  "plain_hs_read (RespStart k) m cap =
     (if length m = 64 \<and> take 32 m = plain_public k then Inr ([], RespGot k (drop 32 m))
      else Inl DecryptFailed)"
| "plain_hs_read (InitWait k s) m cap =
     (if m = s @ plain_public k then Inr ([], InitDone) else Inl DecryptFailed)"
| "plain_hs_read _ m cap = Inl StateProblem"

fun plain_remote :: "plain_hs \<Rightarrow> bytes option" where
  "plain_remote (RespGot k c) = Some c"
| "plain_remote _ = None"

fun plain_into_transport :: "plain_hs \<Rightarrow> plain_error + (nat \<times> nat)" where
  "plain_into_transport InitDone = Inr (0, 0)"
| "plain_into_transport RespDone = Inr (0, 0)"
| "plain_into_transport _ = Inl StateProblem"

fun plain_ts_write :: "nat \<times> nat \<Rightarrow> bytes \<Rightarrow> nat \<Rightarrow> plain_error + (bytes \<times> (nat \<times> nat))" where
  "plain_ts_write (s, r) p cap = Inr (plain_tag s @ p, (Suc s, r))"

fun plain_ts_read :: "nat \<times> nat \<Rightarrow> bytes \<Rightarrow> nat \<Rightarrow> plain_error + (bytes \<times> (nat \<times> nat))" where
  "plain_ts_read (s, r) c cap =
     (if take 16 c = plain_tag r then Inr (drop 16 c, (s, Suc r)) else Inl DecryptFailed)"

definition plain_noise ::
    "(unit, bytes option \<times> bytes option, plain_hs, nat \<times> nat, plain_error) noise_lib" where
  "plain_noise = \<lparr>
     n_parse_params = (\<lambda>s. Inr ()),
     n_builder_new = (\<lambda>_. (None, None)),
     n_prologue = (\<lambda>b _. Inr b),
     n_local_private_key = (\<lambda>(_, s) k. Inr (Some k, s)),
     n_remote_public_key = (\<lambda>(k, _) s. Inr (k, Some s)),
     n_build_initiator = (\<lambda>(k, s). case (k, s) of (Some k, Some s) \<Rightarrow> Inr (InitStart k s) | _ \<Rightarrow> Inl BadKey),
     n_build_responder = (\<lambda>(k, s). case k of Some k \<Rightarrow> Inr (RespStart k) | None \<Rightarrow> Inl BadKey),
     n_generate_keypair = (\<lambda>_. Inr (replicate 32 7, plain_public (replicate 32 7))),
     n_hs_write = plain_hs_write,
     n_hs_read = plain_hs_read,
     n_remote_static = plain_remote,
     n_into_transport = plain_into_transport,
     n_ts_write = plain_ts_write,
     n_ts_read = plain_ts_read\<rparr>"

lemma plain_tag_length [simp]: "length (plain_tag n) = 16"
  by (simp add: plain_tag_def)

text \<open>Its transport meets \<open>noise_pair\<close>: the records in flight carry consecutive counters.\<close>

fun plain_queued :: "nat \<Rightarrow> (bytes \<times> bytes) list \<Rightarrow> bool" where
  "plain_queued n [] = True"
| "plain_queued n ((c, p) # q) = (c = plain_tag n @ p \<and> plain_queued (Suc n) q)"

lemma plain_queued_append:
  "plain_queued n (q @ [(c, p)]) \<longleftrightarrow> plain_queued n q \<and> c = plain_tag (n + length q) @ p"
  by (induction n q rule: plain_queued.induct) auto

lemma plain_noise_pair:
  assumes "plain_queued rb ab" and "plain_queued ra ba"
    and "sa = rb + length ab" and "sb = ra + length ba"
  shows "noise_pair plain_noise (sa, ra) (sb, rb) ab ba"
  using assms
proof (coinduction arbitrary: sa ra sb rb ab ba)
  case noise_pair
  show ?case
    by (rule exI [of _ "(sa, ra)"], rule exI [of _ "(sb, rb)"], rule exI [of _ ab], rule exI [of _ ba])
       (use noise_pair in \<open>auto simp: plain_noise_def plain_queued_append\<close>)
qed

lemma plain_build_responder [simp]: "build_responder_for plain_noise k = Inr (RespStart k)"
  by (simp add: build_responder_for_def noise_builder_def plain_noise_def)

lemma plain_hs_read_start:
  "n_hs_read plain_noise (RespStart k) m cap =
     (if length m = 64 \<and> take 32 m = plain_public k then Inr ([], RespGot k (drop 32 m)) else Inl DecryptFailed)"
  "n_remote_static plain_noise (RespGot k c) = Some c"
  by (simp_all add: plain_noise_def)

lemma plain_ik_agreement:
  assumes "length cpriv = 32" and "length spriv = 32"
    and "\<forall>k \<in> set sprivs. k \<noteq> spriv \<longrightarrow> plain_public k \<noteq> plain_public spriv"
  shows "ik_agreement plain_noise cpriv (plain_public cpriv) sprivs spriv (plain_public spriv) (0, 0) (0, 0)"
proof -
  have "noise_pair plain_noise (0, 0) (0, 0) [] []" by (rule plain_noise_pair) simp_all
  with assms show ?thesis
    unfolding ik_agreement_def
    by (auto simp: plain_noise_def noise_builder_def plain_public_def MAX_HANDSHAKE_MESSAGE_def
        build_responder_for_def)
qed

lemma plain_seal [simp]:
  "length p \<le> MAX_PLAINTEXT_RECORD \<Longrightarrow>
     seal_record plain_noise (transport_session_new (s, r)) p =
       (transport_session_new (Suc s, r), Inr (framed record_header (plain_tag s @ p)))"
  by (simp add: seal_record_def transport_session_new_def plain_noise_def u32_try_from_def tunnel_limits
      framed_def record_header_def)

lemma plain_open [simp]:
  "length p \<le> MAX_PLAINTEXT_RECORD \<Longrightarrow>
     open_record plain_noise (transport_session_new (s, r)) (framed record_header (plain_tag r @ p)) =
       (transport_session_new (s, Suc r), Inr p)"
  using open_record_framed [of "plain_tag r @ p" "transport_session_new (s, r)" "(s, r)" plain_noise p "(s, Suc r)"]
  by (simp add: transport_session_new_def plain_noise_def tunnel_limits)

text \<open>A record with another counter is refused.\<close>

lemma plain_open_wrong [simp]:
  "length c \<le> MAX_CIPHERTEXT_RECORD \<Longrightarrow> take 16 c \<noteq> plain_tag r \<Longrightarrow>
     open_record plain_noise (transport_session_new (s, r)) (framed record_header c) =
       (\<lparr>poisoned = False, transport = None\<rparr>, Inl (Noise DecryptFailed))"
  by (simp add: open_record_def transport_session_new_def plain_noise_def rec_frame.decode_framed)

end
