(* ===== verification/Full_Tunnel.thy ===== *)
theory Full_Tunnel
  imports Tampering Noise_Instance
begin

text \<open>
  An established tunnel at work: the four copy tasks of its two ends, in any interleaving, with the
  two cipher cells they share and the network between them.

  \<open>pipe\<close> is one direction: the application's stream at one end, the bytes on the network, the
  application's writer at the other end, and whether its two tasks still run.  A step runs one
  iteration of a task to its end, or lets it be aborted in the middle of one (which the relay and a
  dropped \<open>JoinSet\<close> do at any \<open>await\<close>), or lets the application or the network act.  The two
  directions are coupled by the cells: what fails in one closes the other.
\<close>

section \<open>One iteration of a task\<close>

definition cell_is :: "'t cipher_cell \<Rightarrow> 't \<Rightarrow> bool" where
  "cell_is cell t \<longleftrightarrow> cell_closed cell \<or> cell = transport_session_new t"

context relay_task
begin

lemma encrypt_iter_outcome:
  assumes step: "encrypt_iter count api R W s = (Ready r, s')" and healthy: "healthy (p_writer s)"
    and cell: "cell_is (p_cell s) a" and pair: "noise_pair api a b q ba"
  obtains (sealed) p c a' where "r = Inr Continue" "length p \<le> MAX_PLAINTEXT_RECORD" "length c = length p + 16"
      "content (p_reader s) = p @ content (p_reader s')"
      "written (p_writer s') = written (p_writer s) @ framed record_header c"
      "p_cell s' = transport_session_new a'" "noise_pair api a' b (q @ [(c, p)]) ba"
  | (ended) "r \<noteq> Inr Continue" "written (p_writer s') = written (p_writer s)" "cell_is (p_cell s') a"
proof (cases "content (p_reader s) = []")
  case True
  from encrypt_step_done [OF True healthy, of api] obtain r' w' where
    "encrypt_iter count api R W s =
       (case at_end (p_reader s) of
          AtEof \<Rightarrow> (Ready (Inr Done), s\<lparr>p_reader := r', p_writer := w'\<rparr>)
        | Broken e \<Rightarrow> (Ready (Inl (ReadError e)), s\<lparr>p_reader := r'\<rparr>)
        | Stalled \<Rightarrow> (Pending, s\<lparr>p_reader := r'\<rparr>))" "written w' = written (p_writer s)" by metis
  with step cell show ?thesis by (intro ended; cases "at_end (p_reader s)") auto
next
  case data: False
  show ?thesis
  proof (cases "cell_closed (p_cell s)")
    case False
    with cell have "p_cell s = \<lparr>poisoned = False, transport = Some a\<rparr>"
      by (simp add: cell_is_def transport_session_new_def)
    from data healthy this pair show ?thesis
    proof (cases rule: encrypt_step_data)
      case (sent p c a' s1)
      with step show ?thesis by (intro sealed [of p c a']) (simp_all add: transport_session_new_def)
    next
      case (refused e s1)
      with step show ?thesis by (intro ended) (auto simp: cell_is_def)
    qed
  next
    case True
    from read_data [of MAX_PLAINTEXT_RECORD "p_reader s"] data obtain k r' where
      "0 < k" "rd_read R (p_reader s) MAX_PLAINTEXT_RECORD = (Ready (Inr (take k (content (p_reader s)))), r')"
      by (auto simp: MAX_PLAINTEXT_RECORD_def)
    moreover obtain e where "seal_record api (p_cell s) (take k (content (p_reader s))) = (p_cell s, Inl e)"
      using seal_record_closed [OF True] by (metis prod.collapse)
    ultimately have "encrypt_iter count api R W s = (Ready (Inl (CryptoError e)), s\<lparr>p_reader := r'\<rparr>)"
      using data by (simp add: encrypt_iter_def pump_read_def pump_seal_def)
    with step cell show ?thesis by (intro ended) auto
  qed
qed

lemma decrypt_iter_outcome:
  fixes api :: "('p, 'b, 'h, 't, 'e) noise_lib"
  assumes step: "decrypt_iter count api R W s = (Ready r, s')" and healthy: "healthy (p_writer s)"
    and cell: "cell_is (p_cell s) b" and pair: "noise_pair api a b q ba"
    and records: "valid_records q" "prefix (content (p_reader s)) (wire_of q)"
  obtains (opened) p c q' b' where "r = Inr Continue" "q = (c, p) # q'"
      "content (p_reader s) = framed record_header c @ content (p_reader s')"
      "written (p_writer s') = written (p_writer s) @ p" "healthy (p_writer s')"
      "p_cell s' = transport_session_new b'" "noise_pair api a b' q' ba"
  | (ended) "r \<noteq> Inr Continue" "written (p_writer s') = written (p_writer s)" "cell_is (p_cell s') b"
proof (cases "content (p_reader s) = []")
  case True
  from decrypt_step_done [OF True healthy, of api] obtain r' w' where
    "decrypt_iter count api R W s =
       (case at_end (p_reader s) of
          AtEof \<Rightarrow> (Ready (Inr Done), s\<lparr>p_reader := r', p_writer := w'\<rparr>)
        | Broken e \<Rightarrow> (Ready (Inl (FrameError (WireIo e))), s\<lparr>p_reader := r'\<rparr>)
        | Stalled \<Rightarrow> (Pending, s\<lparr>p_reader := r'\<rparr>))" "written w' = written (p_writer s)" by metis
  with step cell show ?thesis by (intro ended; cases "at_end (p_reader s)") auto
next
  case data: False
  with records(2) obtain c p q' where q: "q = (c, p) # q'"
    by (metis list.exhaust prod.exhaust prefix_Nil records_simps(1))
  with records(1) have len: "length p \<le> MAX_PLAINTEXT_RECORD" "length c = length p + 16" "0 < length c"
    "length c \<le> MAX_CIPHERTEXT_RECORD" by (simp_all add: tunnel_limits)
  show ?thesis
  proof (cases "prefix (framed record_header c) (content (p_reader s))")
    case False
    with records(2) q have "strict_prefix (content (p_reader s)) (framed record_header c)"
      by (auto simp: prefix_append strict_prefix_def)
    then obtain ms where ms: "framed record_header c = content (p_reader s) @ ms" "ms \<noteq> []"
      by (auto simp: strict_prefix_def prefix_def)
    from decrypt_step_partial [OF data ms len(3,4), of api] obtain r' where "decrypt_iter count api R W s =
         (case at_end (p_reader s) of
            AtEof \<Rightarrow> (Ready (Inl (FrameError (WireIo UnexpectedEof))), s\<lparr>p_reader := r'\<rparr>)
          | Broken e \<Rightarrow> (Ready (Inl (FrameError (WireIo e))), s\<lparr>p_reader := r'\<rparr>)
          | Stalled \<Rightarrow> (Pending, s\<lparr>p_reader := r'\<rparr>))" by metis
    with step cell show ?thesis by (intro ended; cases "at_end (p_reader s)") auto
  next
    case True
    then obtain bs where bs: "content (p_reader s) = framed record_header c @ bs" by (auto elim: prefixE)
    show ?thesis
    proof (cases "cell_closed (p_cell s)")
      case False
      with cell have "p_cell s = \<lparr>poisoned = False, transport = Some b\<rparr>"
        by (simp add: cell_is_def transport_session_new_def)
      from decrypt_step_record [OF bs healthy len(1,2) this] pair q obtain b' s1 where
        "decrypt_iter count api R W s = (Ready (Inr Continue), s1)" "content (p_reader s1) = bs"
        "written (p_writer s1) = written (p_writer s) @ p" "healthy (p_writer s1)"
        "p_cell s1 = \<lparr>poisoned = False, transport = Some b'\<rparr>" "noise_pair api a b' q' ba" by metis
      with step bs q show ?thesis by (intro opened [of c p q' b']) (simp_all add: transport_session_new_def)
    next
      case True
      obtain r' where "(pump_frame (client_read_record_frame R) s :: ('e relay_error + bytes option) poll \<times> _) =
           (Ready (Inr (Some (framed record_header c))), s\<lparr>p_reader := r'\<rparr>)"
        by (rule pump_frame_parses [of s]) (simp add: bs parse_record_framed [OF len(3,4)])
      moreover obtain e where "open_record api (p_cell s) (framed record_header c) = (p_cell s, Inl e)"
        using open_record_closed [OF True] by (metis prod.collapse)
      ultimately have "decrypt_iter count api R W s = (Ready (Inl (CryptoError e)), s\<lparr>p_reader := r'\<rparr>)"
        by (simp add: decrypt_iter_def pump_open_def)
      with step cell show ?thesis by (intro ended) auto
    qed
  qed
qed

end

section \<open>The tunnel\<close>

record pipe =
  offered :: bytes
  source :: net_stream
  line :: bytes
  drain :: net_sink
  sending :: bool
  receiving :: bool

record 't tunnel =
  client_cell :: "'t cipher_cell"
  server_cell :: "'t cipher_cell"
  uplink :: pipe
  downlink :: pipe

text \<open>What a task sees of it: the network is the writer of the sending task and the reader of the
  receiving one, which gets the bytes in any chunks and may find the network at an end after them.\<close>

definition send_pump :: "pipe \<Rightarrow> 't cipher_cell \<Rightarrow> connection_telemetry \<Rightarrow> bool \<Rightarrow> (net_stream, net_sink, 't) pump" where
  "send_pump p cell tel act =
     \<lparr>p_reader = source p,
      p_writer = \<lparr>sink_out = line p, sink_flushed = False, sink_shut = False, sink_fault = None\<rparr>,
      p_cell = cell, p_tel = tel, p_activity = act\<rparr>"

definition recv_pump ::
    "pipe \<Rightarrow> bytes list \<Rightarrow> stream_end \<Rightarrow> 't cipher_cell \<Rightarrow> connection_telemetry \<Rightarrow> bool \<Rightarrow> (net_stream, net_sink, 't) pump" where
  "recv_pump p cs en cell tel act =
     \<lparr>p_reader = \<lparr>chunks = cs, net_end = en\<rparr>, p_writer = drain p, p_cell = cell, p_tel = tel, p_activity = act\<rparr>"

text \<open>A task that is aborted, or whose writer fails, in the middle of a write has written a part of it.\<close>

inductive pipe_step ::
    "((net_stream, net_sink, 't) pump \<Rightarrow> ('e relay_error + flow) poll \<times> (net_stream, net_sink, 't) pump)
       \<Rightarrow> ((net_stream, net_sink, 't) pump \<Rightarrow> ('e relay_error + flow) poll \<times> (net_stream, net_sink, 't) pump)
       \<Rightarrow> 't cipher_cell \<times> 't cipher_cell \<times> pipe \<Rightarrow> 't cipher_cell \<times> 't cipher_cell \<times> pipe \<Rightarrow> bool"
  for send_iter recv_iter where
  offer: "net_end (source p) = Stalled \<Longrightarrow> pipe_step send_iter recv_iter (x, y, p)
    (x, y, p\<lparr>offered := offered p @ b, source := (source p)\<lparr>chunks := chunks (source p) @ [b]\<rparr>\<rparr>)"
| source_ends: "net_end (source p) = Stalled \<Longrightarrow> pipe_step send_iter recv_iter (x, y, p)
    (x, y, p\<lparr>source := (source p)\<lparr>net_end := en\<rparr>\<rparr>)"
| send: "sending p \<Longrightarrow> send_iter (send_pump p x tel act) = (Ready r, s) \<Longrightarrow> pipe_step send_iter recv_iter (x, y, p)
    (p_cell s, y, p\<lparr>source := p_reader s, line := sink_out (p_writer s), sending := (r = Inr Continue)\<rparr>)"
| send_cut: "sending p \<Longrightarrow> send_iter (send_pump p x tel act) = (Ready r, s) \<Longrightarrow> prefix (line p) l \<Longrightarrow>
    prefix l (sink_out (p_writer s)) \<Longrightarrow> pipe_step send_iter recv_iter (x, y, p)
    (p_cell s, y, p\<lparr>source := p_reader s, line := l, sending := False\<rparr>)"
| receive: "receiving p \<Longrightarrow> concat cs = line p \<Longrightarrow> recv_iter (recv_pump p cs en y tel act) = (Ready r, s) \<Longrightarrow>
    pipe_step send_iter recv_iter (x, y, p)
    (x, p_cell s, p\<lparr>line := net_content (p_reader s), drain := p_writer s, receiving := (r = Inr Continue)\<rparr>)"
| receive_cut: "receiving p \<Longrightarrow> concat cs = line p \<Longrightarrow> recv_iter (recv_pump p cs en y tel act) = (Ready r, s) \<Longrightarrow>
    prefix (sink_out (drain p)) out \<Longrightarrow> prefix out (sink_out (p_writer s)) \<Longrightarrow> pipe_step send_iter recv_iter (x, y, p)
    (x, p_cell s, p\<lparr>line := net_content (p_reader s), drain := (drain p)\<lparr>sink_out := out\<rparr>, receiving := False\<rparr>)"
| abort_send: "pipe_step send_iter recv_iter (x, y, p) (x, y, p\<lparr>sending := False\<rparr>)"
| abort_receive: "pipe_step send_iter recv_iter (x, y, p) (x, y, p\<lparr>receiving := False\<rparr>)"

inductive tunnel_step :: "('p, 'b, 'h, 't, 'e) noise_lib \<Rightarrow> 't tunnel \<Rightarrow> 't tunnel \<Rightarrow> bool" for api where
  up: "pipe_step (client_copy_encrypt_iter api net_ops sink_ops) (server_copy_decrypt_iter api net_ops sink_ops)
      (client_cell T, server_cell T, uplink T) (x, y, p) \<Longrightarrow>
    tunnel_step api T (T\<lparr>client_cell := x, server_cell := y, uplink := p\<rparr>)"
| down: "pipe_step (server_copy_encrypt_iter api net_ops sink_ops) (client_copy_decrypt_iter api net_ops sink_ops)
      (server_cell T, client_cell T, downlink T) (y, x, p) \<Longrightarrow>
    tunnel_step api T (T\<lparr>client_cell := x, server_cell := y, downlink := p\<rparr>)"

definition pipe_start :: pipe where
  "pipe_start =
     \<lparr>offered = [], source = \<lparr>chunks = [], net_end = Stalled\<rparr>, line = [],
      drain = \<lparr>sink_out = [], sink_flushed = False, sink_shut = False, sink_fault = None\<rparr>,
      sending = True, receiving = True\<rparr>"

definition tunnel_start :: "'t \<Rightarrow> 't \<Rightarrow> 't tunnel" where
  "tunnel_start a b =
     \<lparr>client_cell = transport_session_new a, server_cell = transport_session_new b,
      uplink = pipe_start, downlink = pipe_start\<rparr>"

section \<open>The specification: two byte pipes\<close>

record byte_pipe =
  given :: bytes
  taken :: bytes

inductive byte_pipe_step :: "byte_pipe \<Rightarrow> byte_pipe \<Rightarrow> bool" where
  give: "byte_pipe_step P (P\<lparr>given := given P @ b\<rparr>)"
| take: "prefix (taken P @ b) (given P) \<Longrightarrow> byte_pipe_step P (P\<lparr>taken := taken P @ b\<rparr>)"

definition abs_pipe :: "pipe \<Rightarrow> byte_pipe" where
  "abs_pipe p = \<lparr>given = offered p, taken = sink_out (drain p)\<rparr>"

section \<open>Invariant\<close>

definition pipe_ok :: "(bytes \<times> bytes) list \<Rightarrow> pipe \<Rightarrow> bool" where
  "pipe_ok q p \<longleftrightarrow> valid_records q \<and> prefix (sink_out (drain p)) (offered p)
     \<and> (receiving p \<longrightarrow> sink_healthy (drain p) \<and> prefix (line p) (wire_of q)
          \<and> prefix (sink_out (drain p) @ plain_of q) (offered p)
          \<and> (sending p \<longrightarrow> line p = wire_of q
               \<and> sink_out (drain p) @ plain_of q @ net_content (source p) = offered p))"

definition tunnel_inv :: "('p, 'b, 'h, 't, 'e) noise_lib \<Rightarrow> 't tunnel \<Rightarrow> bool" where
  "tunnel_inv api T \<longleftrightarrow>
     (\<exists>ta tb qab qba. noise_pair api ta tb qab qba \<and> cell_is (client_cell T) ta \<and> cell_is (server_cell T) tb
        \<and> pipe_ok qab (uplink T) \<and> pipe_ok qba (downlink T))"

abbreviation net_relay :: "(nat \<Rightarrow> connection_telemetry \<Rightarrow> connection_telemetry) \<Rightarrow> bool" where
  "net_relay \<equiv> relay_task net_ops net_content net_end sink_ops sink_out sink_flushed sink_shut sink_healthy"

lemma send_ok:
  assumes step: "encrypt_iter count api net_ops sink_ops (send_pump p x tel act) = (Ready r, s)"
    and task: "net_relay count" and pair: "noise_pair api ta tb q ba"
    and cell: "cell_is x ta" and ok: "pipe_ok q p" and sending: "sending p"
  obtains ta' q' where "noise_pair api ta' tb q' ba" "cell_is (p_cell s) ta'"
    and "pipe_ok q' (p\<lparr>source := p_reader s, line := sink_out (p_writer s), sending := (r = Inr Continue)\<rparr>)"
    and "\<And>l. prefix l (sink_out (p_writer s)) \<Longrightarrow> pipe_ok q' (p\<lparr>source := p_reader s, line := l, sending := False\<rparr>)"
proof -
  have h: "sink_healthy (p_writer (send_pump p x tel act))" and c: "cell_is (p_cell (send_pump p x tel act)) ta"
    using cell by (simp_all add: send_pump_def sink_healthy_def)
  show ?thesis
  proof (cases rule: relay_task.encrypt_iter_outcome [OF task step h c pair])
    case sealed: (1 b c a')
    have src: "net_content (source p) = b @ net_content (p_reader s)"
      and out: "sink_out (p_writer s) = line p @ framed record_header c"
      using sealed by (simp_all add: send_pump_def)
    show ?thesis
    proof (rule that [of a' "q @ [(c, b)]"])
      show "cell_is (p_cell s) a'" using sealed by (simp add: cell_is_def)
      have v: "valid_records (q @ [(c, b)])" using ok sealed by (simp add: pipe_ok_def)
      have all: "line p = wire_of q" "sink_out (drain p) @ plain_of q @ b @ net_content (p_reader s) = offered p"
        if "receiving p" using ok that sending src by (simp_all add: pipe_ok_def)
      have pre: "prefix (sink_out (drain p) @ plain_of (q @ [(c, b)])) (offered p)" if "receiving p"
        unfolding all(2) [OF that, symmetric] by simp
      show "pipe_ok (q @ [(c, b)])
          (p\<lparr>source := p_reader s, line := sink_out (p_writer s), sending := (r = Inr Continue)\<rparr>)"
        using ok v all pre out by (simp add: pipe_ok_def)
      show "pipe_ok (q @ [(c, b)]) (p\<lparr>source := p_reader s, line := l, sending := False\<rparr>)"
        if "prefix l (sink_out (p_writer s))" for l
        using ok v all(1) pre that [unfolded out] by (auto simp: pipe_ok_def)
    qed (use sealed in simp)
  next
    case ended: 2
    have out: "sink_out (p_writer s) = line p" using ended by (simp add: send_pump_def)
    show ?thesis
    proof (rule that [of ta q])
      show "pipe_ok q (p\<lparr>source := p_reader s, line := sink_out (p_writer s), sending := (r = Inr Continue)\<rparr>)"
        using ok ended(1) out by (simp add: pipe_ok_def)
      show "pipe_ok q (p\<lparr>source := p_reader s, line := l, sending := False\<rparr>)"
        if "prefix l (sink_out (p_writer s))" for l
        using ok prefix_order.trans [OF that [unfolded out]] by (auto simp: pipe_ok_def)
    qed (use ended pair in simp_all)
  qed
qed

lemma receive_ok:
  assumes step: "decrypt_iter count api net_ops sink_ops (recv_pump p cs en y tel act) = (Ready r, s)"
    and line: "concat cs = line p" and task: "net_relay count" and pair: "noise_pair api ta tb q ba"
    and cell: "cell_is y tb" and ok: "pipe_ok q p" and receiving: "receiving p"
  obtains tb' q' where "noise_pair api ta tb' q' ba" "cell_is (p_cell s) tb'"
    and "pipe_ok q' (p\<lparr>line := net_content (p_reader s), drain := p_writer s, receiving := (r = Inr Continue)\<rparr>)"
    and "\<And>b. prefix b (sink_out (p_writer s)) \<Longrightarrow>
        pipe_ok q' (p\<lparr>line := net_content (p_reader s), drain := (drain p)\<lparr>sink_out := b\<rparr>, receiving := False\<rparr>)"
    and "prefix (sink_out (drain p)) (sink_out (p_writer s))" "prefix (sink_out (p_writer s)) (offered p)"
proof -
  let ?s = "recv_pump p cs en y tel act"
  have h: "sink_healthy (p_writer ?s)" and c: "cell_is (p_cell ?s) tb"
    and v: "valid_records q" "prefix (net_content (p_reader ?s)) (wire_of q)"
    using cell ok receiving line by (simp_all add: recv_pump_def pipe_ok_def net_content_new)
  show ?thesis
  proof (cases rule: relay_task.decrypt_iter_outcome [OF task step h c pair v])
    case opened: (1 b c q' b')
    have src: "line p = framed record_header c @ net_content (p_reader s)"
      and out: "sink_out (p_writer s) = sink_out (drain p) @ b"
      using opened line by (simp_all add: recv_pump_def net_content_new)
    have off: "prefix (sink_out (p_writer s)) (offered p)"
      using ok receiving opened(2) out by (auto simp: pipe_ok_def prefix_def)
    show ?thesis
    proof (rule that [of b' q'])
      show "cell_is (p_cell s) b'" using opened by (simp add: cell_is_def)
      show "pipe_ok q' (p\<lparr>line := net_content (p_reader s), drain := p_writer s, receiving := (r = Inr Continue)\<rparr>)"
        using ok receiving opened src out off by (auto simp: pipe_ok_def)
      show "pipe_ok q' (p\<lparr>line := net_content (p_reader s), drain := (drain p)\<lparr>sink_out := d\<rparr>, receiving := False\<rparr>)"
        if "prefix d (sink_out (p_writer s))" for d
        using ok opened(2) prefix_order.trans [OF that off] by (auto simp: pipe_ok_def)
    qed (use opened out off in simp_all)
  next
    case ended: 2
    have out: "sink_out (p_writer s) = sink_out (drain p)" using ended by (simp add: recv_pump_def)
    have off: "prefix (sink_out (drain p)) (offered p)" using ok by (simp add: pipe_ok_def)
    show ?thesis
    proof (rule that [of tb q])
      show "pipe_ok q (p\<lparr>line := net_content (p_reader s), drain := (drain p)\<lparr>sink_out := d\<rparr>, receiving := False\<rparr>)"
        if "prefix d (sink_out (p_writer s))" for d
        using ok prefix_order.trans [OF that [unfolded out] off] by (auto simp: pipe_ok_def)
    qed (use ended ok out off pair in \<open>auto simp: pipe_ok_def\<close>)
  qed
qed

lemma taken_step:
  assumes "prefix (sink_out (drain p)) out" and "prefix out (offered p)"
    and "sink_out (drain p') = out" and "offered p' = offered p"
  shows "byte_pipe_step (abs_pipe p) (abs_pipe p')"
proof -
  from assms(1) obtain b where b: "out = sink_out (drain p) @ b" by (auto elim: prefixE)
  with assms(2) have "prefix (taken (abs_pipe p) @ b) (given (abs_pipe p))" by (simp add: abs_pipe_def)
  from take [OF this] b assms(3,4) show ?thesis by (simp add: abs_pipe_def)
qed

text \<open>Each step of one direction keeps it in order, whatever the cells do, and leaves the records in
  flight in the other direction alone.\<close>

lemma pipe_step_ok:
  assumes step: "pipe_step (encrypt_iter count api net_ops sink_ops) (decrypt_iter count api net_ops sink_ops)
        (x, y, p) (x', y', p')"
    and task: "net_relay count" and pair: "noise_pair api ta tb q ba"
    and cells: "cell_is x ta" "cell_is y tb" and ok: "pipe_ok q p"
  shows "(\<exists>ta' tb' q'. noise_pair api ta' tb' q' ba \<and> cell_is x' ta' \<and> cell_is y' tb' \<and> pipe_ok q' p')
    \<and> byte_pipe_step\<^sup>=\<^sup>= (abs_pipe p) (abs_pipe p')"
  using step
proof (cases rule: pipe_step.cases)
  case (offer b)
  with ok have "pipe_ok q p'" by (auto simp: pipe_ok_def net_content_def)
  moreover have "byte_pipe_step (abs_pipe p) (abs_pipe p')"
    using give [of "abs_pipe p" b] offer by (simp add: abs_pipe_def)
  ultimately show ?thesis using pair cells offer by blast
next
  case (source_ends en)
  with ok have "pipe_ok q p'" by (auto simp: pipe_ok_def net_content_def)
  then show ?thesis using pair cells source_ends by (auto simp: abs_pipe_def)
next
  case abort_send
  with ok have "pipe_ok q p'" by (auto simp: pipe_ok_def)
  then show ?thesis using pair cells abort_send by (auto simp: abs_pipe_def)
next
  case abort_receive
  with ok have "pipe_ok q p'" by (auto simp: pipe_ok_def)
  then show ?thesis using pair cells abort_receive by (auto simp: abs_pipe_def)
next
  case (send tel act r s)
  from send_ok [OF send(5) task pair cells(1) ok send(4)] obtain ta' q' where
    "noise_pair api ta' tb q' ba" "cell_is (p_cell s) ta'" "pipe_ok q' p'" unfolding send(3) by metis
  with cells(2) send show ?thesis by (auto simp: abs_pipe_def)
next
  case (send_cut tel act r s l)
  from send_ok [OF send_cut(5) task pair cells(1) ok send_cut(4)] send_cut(7) obtain ta' q' where
    "noise_pair api ta' tb q' ba" "cell_is (p_cell s) ta'" "pipe_ok q' p'" unfolding send_cut(3) by metis
  with cells(2) send_cut show ?thesis by (auto simp: abs_pipe_def)
next
  case (receive cs en tel act r s)
  from receive_ok [OF receive(6,5) task pair cells(2) ok receive(4)] obtain tb' q' where
    "noise_pair api ta tb' q' ba" "cell_is (p_cell s) tb'" "pipe_ok q' p'"
    and "prefix (sink_out (drain p)) (sink_out (p_writer s))" "prefix (sink_out (p_writer s)) (offered p)"
    unfolding receive(3) by metis
  moreover from this(4,5) have "byte_pipe_step (abs_pipe p) (abs_pipe p')"
    by (rule taken_step) (simp_all add: receive(3))
  ultimately show ?thesis using cells(1) receive(1,2) by blast
next
  case (receive_cut cs en tel act r s out)
  from receive_ok [OF receive_cut(6,5) task pair cells(2) ok receive_cut(4)] receive_cut(8) obtain tb' q' where
    "noise_pair api ta tb' q' ba" "cell_is (p_cell s) tb'" "pipe_ok q' p'"
    and "prefix (sink_out (p_writer s)) (offered p)"
    unfolding receive_cut(3) by metis
  moreover have "byte_pipe_step (abs_pipe p) (abs_pipe p')"
    using receive_cut(7) prefix_order.trans [OF receive_cut(8) calculation(4)]
    by (rule taken_step) (simp_all add: receive_cut(3))
  ultimately show ?thesis using cells(1) receive_cut(1,2) by blast
qed

lemma pipe_step_offered:
  "pipe_step send_iter recv_iter (x, y, p) (x', y', p') \<Longrightarrow> prefix (offered p) (offered p')"
  by (erule pipe_step.cases) simp_all

lemma tunnel_step_ok:
  assumes "tunnel_step api T T'" and inv: "tunnel_inv api T"
  shows "tunnel_inv api T' \<and> byte_pipe_step\<^sup>=\<^sup>= (abs_pipe (uplink T)) (abs_pipe (uplink T'))
    \<and> byte_pipe_step\<^sup>=\<^sup>= (abs_pipe (downlink T)) (abs_pipe (downlink T'))"
proof -
  from inv obtain ta tb qab qba where pair: "noise_pair api ta tb qab qba"
    and cells: "cell_is (client_cell T) ta" "cell_is (server_cell T) tb"
    and ok: "pipe_ok qab (uplink T)" "pipe_ok qba (downlink T)"
    by (auto simp: tunnel_inv_def)
  from assms(1) show ?thesis
  proof (cases rule: tunnel_step.cases)
    case (up x y p)
    from pipe_step_ok [OF up(2) [unfolded copy_iters_eq] c2s.relay_task_axioms pair cells ok(1)] ok(2)
    show ?thesis unfolding up(1) tunnel_inv_def by auto
  next
    case (down y x p)
    from pipe_step_ok [OF down(2) [unfolded copy_iters_eq] s2c.relay_task_axioms
        noise_pair_sym [OF pair] cells(2,1) ok(2)] ok(1)
    obtain ta' tb' q' where "noise_pair api tb' ta' q' qab" "cell_is y tb'" "cell_is x ta'" "pipe_ok q' p"
      and refines: "byte_pipe_step\<^sup>=\<^sup>= (abs_pipe (downlink T)) (abs_pipe p)" by blast
    then have "tunnel_inv api T'"
      using ok(1) noise_pair_sym [of api tb' ta' q' qab] unfolding down(1) tunnel_inv_def by auto
    with refines show ?thesis unfolding down(1) by simp
  qed
qed

lemma tunnel_run_ok:
  assumes "(tunnel_step api)\<^sup>*\<^sup>* T T'" and "tunnel_inv api T"
  shows "tunnel_inv api T'"
  using assms by (induction rule: rtranclp_induct) (auto dest: tunnel_step_ok)

lemma pipe_ok_start: "pipe_ok [] pipe_start"
  by (simp add: pipe_ok_def pipe_start_def sink_healthy_def net_content_def)

lemma tunnel_inv_start: "noise_pair api a b [] [] \<Longrightarrow> tunnel_inv api (tunnel_start a b)"
  unfolding tunnel_inv_def
  by (intro exI [of _ a] exI [of _ b] exI [of _ "[]"]) (simp add: tunnel_start_def cell_is_def pipe_ok_start)

lemma pipe_ok_delivered:
  "pipe_ok q p \<Longrightarrow> prefix (sink_out (drain p)) (offered p)
    \<and> (sending p \<and> receiving p \<and> net_content (source p) = [] \<and> line p = [] \<longrightarrow> sink_out (drain p) = offered p)"
  by (cases q) (auto simp: pipe_ok_def framed_def record_header_def u32_to_be_bytes_def)

section \<open>Property\<close>



end
