(* ===== verification/Buffer_Bounds.thy ===== *)
theory Buffer_Bounds
  imports Copy_Loops Noise_Instance
begin

text \<open>
  The sizes of the buffers that are read into.  The readers of \<open>Wire_IO\<close> and the tasks of
  \<open>Copy_Loops\<close> allocate a buffer for every read, and the length of a frame comes from the peer.
  A reader that records the size of each request shows how large these buffers get, whatever the
  peer sends and whatever the socket does; nothing is assumed of the reader below it.
\<close>

section \<open>A reader that records its requests\<close>

definition logged :: "'r reader_ops \<Rightarrow> ('r \<times> nat list) reader_ops" where
  "logged R =
     \<lparr>rd_read = (\<lambda>(r, sizes) n. case rd_read R r n of (x, r') \<Rightarrow> (x, (r', sizes @ [n]))),
      rd_read_exact = (\<lambda>(r, sizes) n. case rd_read_exact R r n of (x, r') \<Rightarrow> (x, (r', sizes @ [n])))\<rparr>"

lemma logged_simps [simp]:
  "rd_read (logged R) (r, sizes) n = (fst (rd_read R r n), (snd (rd_read R r n), sizes @ [n]))"
  "rd_read_exact (logged R) (r, sizes) n = (fst (rd_read_exact R r n), (snd (rd_read_exact R r n), sizes @ [n]))"
  by (simp_all add: logged_def split_beta)

text \<open>Recording changes nothing in what the frame readers do.\<close>

definition forget :: "'a \<times> 'r \<times> nat list \<Rightarrow> 'a \<times> 'r" where
  "forget m = (fst m, fst (snd m))"

lemma forget_bind:
  assumes "forget m = m'" and "\<And>x r sizes. forget (k x (r, sizes)) = k' x r"
  shows "forget (await_bind m k) = await_bind m' k'"
proof -
  obtain x r sizes where m: "m = (x, (r, sizes))" by (cases m) auto
  with assms(1) have m': "m' = (x, r)" by (simp add: forget_def)
  show ?thesis
  proof (cases x)
    case (Ready y)
    then show ?thesis by (cases y) (simp_all add: m m' assms(2), simp add: forget_def)
  qed (simp add: m m', simp add: forget_def)
qed

lemma forget_simps [simp]:
  "forget (x, (r, sizes)) = (x, r)"
  "forget (await_err f m) = await_err f (forget m)"
  "forget (rd_read (logged R) (r, sizes) n) = rd_read R r n"
  "forget (rd_read_exact (logged R) (r, sizes) n) = rd_read_exact R r n"
  by (simp_all add: forget_def await_err_def split: poll.split prod.split)

lemma logged_record_frame:
  "forget (client_read_record_frame (logged R) (r, sizes)) = client_read_record_frame R r"
  unfolding client_read_record_frame_def
  by (rule forget_bind, simp del: logged_simps)
     (auto simp: Let_def simp del: logged_simps intro!: forget_bind)

lemma logged_handshake_frame:
  "forget (client_read_handshake_frame (logged R) (r, sizes)) = client_read_handshake_frame R r"
  unfolding client_read_handshake_frame_def client_read_length_framed_def
  by (rule forget_bind, simp del: logged_simps)
     (auto simp: Let_def simp del: logged_simps intro!: forget_bind)

section \<open>The requests of the frame readers\<close>

definition record_requests :: "nat list \<Rightarrow> bool" where
  "record_requests ns \<longleftrightarrow> ns = [1] \<or> ns = [1, 3] \<or> (\<exists>n. ns = [1, 3, n] \<and> 0 < n \<and> n \<le> MAX_CIPHERTEXT_RECORD)"

definition handshake_requests :: "nat list \<Rightarrow> bool" where
  "handshake_requests ns \<longleftrightarrow> ns = [2] \<or> (\<exists>n. ns = [2, n] \<and> n \<le> MAX_HANDSHAKE_MESSAGE)"

text \<open>What is requested at most when an operation asks for \<open>n\<close> bytes and goes on.\<close>

definition asks :: "nat list \<Rightarrow> (nat list \<Rightarrow> bool) \<Rightarrow> 'a \<times> 'r \<times> nat list \<Rightarrow> bool" where
  "asks sizes P m \<longleftrightarrow> (\<exists>ns. snd (snd m) = sizes @ ns \<and> P ns)"

lemma asks_return [simp]: "asks sizes P (x, (r, sizes')) \<longleftrightarrow> (\<exists>ns. sizes' = sizes @ ns \<and> P ns)"
  by (simp add: asks_def)

lemma asks_bind:
  assumes "P [n]" and "\<And>x r. asks (sizes @ [n]) (\<lambda>ns. P (n # ns)) (k x (r, sizes @ [n]))"
  shows "asks sizes P (await_bind (await_err f (rd_read (logged R) (r, sizes) n)) k)"
    "asks sizes P (await_bind (await_err f (rd_read_exact (logged R) (r, sizes) n)) k)"
proof -
  have "asks sizes P (await_bind (await_err f (y, (r', sizes @ [n]))) k)" for y r'
  proof (cases y)
    case (Ready z)
    then show ?thesis using assms by (cases z) (auto simp: asks_def)
  qed (use assms in \<open>simp add: asks_def\<close>)
  then show "asks sizes P (await_bind (await_err f (rd_read (logged R) (r, sizes) n)) k)"
    "asks sizes P (await_bind (await_err f (rd_read_exact (logged R) (r, sizes) n)) k)"
    by (simp_all only: logged_simps)
qed

lemma record_frame_requests:
  "asks sizes record_requests (client_read_record_frame (logged R) (r, sizes))"
  unfolding client_read_record_frame_def
  by (auto simp: Let_def record_requests_def simp del: logged_simps intro!: asks_bind)

lemma handshake_frame_requests:
  "asks sizes handshake_requests (client_read_handshake_frame (logged R) (r, sizes))"
  unfolding client_read_handshake_frame_def client_read_length_framed_def
  by (auto simp: Let_def handshake_requests_def simp del: logged_simps intro!: asks_bind)

lemma requests_small:
  "record_requests ns \<Longrightarrow> sum_list ns \<le> 16404 \<and> list_all (\<lambda>n. n \<le> 16400) ns"
  "handshake_requests ns \<Longrightarrow> sum_list ns \<le> 4098"
  by (auto simp: record_requests_def handshake_requests_def tunnel_limits)

section \<open>The requests of the tasks\<close>

definition bounded_requests :: "nat list \<Rightarrow> bool" where
  "bounded_requests ns \<longleftrightarrow> sum_list ns \<le> 16404 \<and> list_all (\<lambda>n. n \<le> 16400) ns"

definition requests_of :: "('r \<times> nat list, 'w, 't) pump \<Rightarrow> nat list" where
  "requests_of s = snd (p_reader s)"

lemma await_bind_keeps:
  assumes "P (snd m)" and "\<And>x s. P s \<Longrightarrow> P (snd (k x s))"
  shows "P (snd (await_bind m k))"
  using assms by (auto simp: await_bind_def split: poll.splits sum.splits prod.splits)

lemma pump_ops_reader [simp]:
  "p_reader (snd (pump_write W b s)) = p_reader s" "p_reader (snd (pump_flush W s)) = p_reader s"
  "p_reader (snd (pump_shutdown W s)) = p_reader s" "p_reader (snd (pump_seal api b s)) = p_reader s"
  "p_reader (snd (pump_open api b s)) = p_reader s" "p_reader (signal_activity s) = p_reader s"
  by (simp_all add: pump_write_def pump_flush_def pump_shutdown_def pump_seal_def pump_open_def signal_activity_def
      await_err_def split: prod.splits poll.splits)

lemma pump_read_asks:
  "requests_of (snd (pump_read (logged R) n s)) = requests_of s @ [n]"
  by (cases "p_reader s") (simp add: pump_read_def requests_of_def await_err_def split: prod.split poll.split)

lemma pump_frame_asks:
  "\<exists>ns. requests_of (snd (pump_frame (client_read_record_frame (logged R)) s :: ('e relay_error + bytes option) poll \<times> _))
       = requests_of s @ ns \<and> record_requests ns"
proof -
  obtain r sizes where r: "p_reader s = (r, sizes)" by fastforce
  obtain x r' where x: "client_read_record_frame (logged R) (r, sizes) = (x, r')"
    by (cases "client_read_record_frame (logged R) (r, sizes)")
  have "asks sizes record_requests (x, r')" using record_frame_requests [of sizes R r] by (simp only: x)
  moreover have "snd (pump_frame (client_read_record_frame (logged R)) s :: ('e relay_error + bytes option) poll \<times> _)
      = s\<lparr>p_reader := r'\<rparr>"
    by (simp add: pump_frame_def r x await_err_def split: poll.split)
  ultimately show ?thesis by (simp add: asks_def requests_of_def r)
qed

lemma rest_keeps_requests:
  assumes "requests_of (snd m) = ns" and "\<And>x s. requests_of (snd (k x s)) = requests_of s"
  shows "requests_of (snd (await_bind m k)) = ns"
  by (rule await_bind_keeps [where P = "\<lambda>s. requests_of s = ns"]) (simp_all add: assms)

lemma requests_of_ops [simp]:
  "requests_of (snd (pump_write W b s)) = requests_of s" "requests_of (snd (pump_flush W s)) = requests_of s"
  "requests_of (snd (pump_shutdown W s)) = requests_of s" "requests_of (snd (pump_seal api b s)) = requests_of s"
  "requests_of (snd (pump_open api b s)) = requests_of s" "requests_of (signal_activity s) = requests_of s"
  "requests_of (s\<lparr>p_tel := tel\<rparr>) = requests_of s"
  by (simp_all add: requests_of_def)

lemma encrypt_iter_requests:
  "requests_of (snd (encrypt_iter count api (logged R) W s)) = requests_of s @ [MAX_PLAINTEXT_RECORD]"
  unfolding encrypt_iter_def by (auto simp: pump_read_asks intro!: rest_keeps_requests)

lemma decrypt_iter_requests:
  fixes api :: "('p, 'b, 'h, 't, 'e) noise_lib"
  shows "\<exists>ns. requests_of (snd (decrypt_iter count api (logged R) W s)) = requests_of s @ ns \<and> record_requests ns"
proof -
  obtain ns where "requests_of (snd (pump_frame (client_read_record_frame (logged R)) s
        :: ('e relay_error + bytes option) poll \<times> _)) = requests_of s @ ns"
    "record_requests ns" using pump_frame_asks by blast
  then show ?thesis
    unfolding decrypt_iter_def
    by (intro exI [of _ ns]) (auto intro!: rest_keeps_requests split: option.split)
qed

lemma pump_loop_keeps:
  assumes "pump_loop iter s = Some y" and "\<And>s. I s \<Longrightarrow> I (snd (iter s))" and "I s"
  shows "I (snd y)"
proof -
  let ?P = "\<lambda>iter s y. (\<forall>s. I s \<longrightarrow> I (snd (iter s))) \<longrightarrow> I s \<longrightarrow> I (snd y)"
  have "?P iter s y"
  proof (rule pump_loop.raw_induct [where P = ?P, OF _ assms(1)])
    fix loop iter s y
    assume IH: "\<And>iter s y. loop iter s = Some y \<Longrightarrow> ?P iter s y"
      and y: "(case iter s of (Pending, s') \<Rightarrow> Some (Pending, s')
        | (Ready (Inl e), s') \<Rightarrow> Some (Ready (Inl e), s')
        | (Ready (Inr Done), s') \<Rightarrow> Some (Ready (Inr ()), s')
        | (Ready (Inr Continue), s') \<Rightarrow> loop iter s') = Some y"
    show "?P iter s y"
    proof (intro impI)
      assume all: "\<forall>s. I s \<longrightarrow> I (snd (iter s))" and "I s"
      then have "I (snd (iter s))" by blast
      with y all IH [of iter "snd (iter s)" y] show "I (snd y)"
        by (cases "iter s") (auto split: poll.splits sum.splits flow.splits)
    qed
  qed
  with assms(2,3) show ?thesis by blast
qed

section \<open>Properties\<close>

definition copy_iters ::
    "('p, 'b, 'h, 't, 'e) noise_lib \<Rightarrow> 'r reader_ops \<Rightarrow> 'w writer_ops
       \<Rightarrow> (('r, 'w, 't) pump \<Rightarrow> ('e relay_error + flow) poll \<times> ('r, 'w, 't) pump) list" where
  "copy_iters api R W =
     [client_copy_encrypt_iter api R W, server_copy_encrypt_iter api R W,
      client_copy_decrypt_iter api R W, server_copy_decrypt_iter api R W]"

lemma copy_iters_list:
  "copy_iters api R W =
     [encrypt_iter add_client_to_server api R W, encrypt_iter add_server_to_client api R W,
      decrypt_iter add_server_to_client api R W, decrypt_iter add_client_to_server api R W]"
  by (simp only: copy_iters_def copy_iters_eq)

lemma copy_iter_requests:
  assumes "iter \<in> set (copy_iters api (logged R) W)"
  shows "\<exists>ns. requests_of (snd (iter s)) = requests_of s @ ns \<and> sum_list ns \<le> 16404 \<and> list_all (\<lambda>n. n \<le> 16400) ns"
proof -
  have small: "\<exists>ns. requests_of (snd (decrypt_iter count api (logged R) W s)) = requests_of s @ ns
      \<and> sum_list ns \<le> 16404 \<and> list_all (\<lambda>n. n \<le> 16400) ns" for count
    using decrypt_iter_requests [of count api R W s] requests_small(1) by blast
  from assms show ?thesis
    unfolding copy_iters_list
    by (auto simp: encrypt_iter_requests tunnel_limits intro: small)
qed

text \<open>C29: A peer cannot make either program read into a large buffer.  Whatever arrives, whatever the
  sockets and the Noise library do, one turn of any of the four copy loops asks its socket for at
  most 16404 bytes in all, and no read of a whole task asks for more than 16400, the longest
  ciphertext; a handshake frame is read with at most 4098 bytes.  Recording the requests changes
  nothing in what the frame readers return.\<close>

theorem peer_cannot_size_buffers:
  assumes "iter \<in> set (copy_iters api (logged R) W)"
  shows "(\<exists>ns. requests_of (snd (iter s)) = requests_of s @ ns \<and> sum_list ns \<le> 16404)
    \<and> (\<forall>res s'. requests_of s = [] \<longrightarrow> pump_loop iter s = Some (res, s') \<longrightarrow> list_all (\<lambda>n. n \<le> 16400) (requests_of s'))
    \<and> sum_list (snd (snd (client_read_handshake_frame (logged R) (r, [])))) \<le> 4098
    \<and> sum_list (snd (snd (server_read_handshake_frame (logged R) (r, [])))) \<le> 4098
    \<and> client_read_record_frame R r = forget (client_read_record_frame (logged R) (r, []))
    \<and> server_read_record_frame R r = forget (server_read_record_frame (logged R) (r, []))
    \<and> client_read_handshake_frame R r = forget (client_read_handshake_frame (logged R) (r, []))"
proof (intro conjI allI impI)
  show "\<exists>ns. requests_of (snd (iter s)) = requests_of s @ ns \<and> sum_list ns \<le> 16404"
    using copy_iter_requests [OF assms] by blast
next
  fix res s'
  assume start: "requests_of s = []" and run: "pump_loop iter s = Some (res, s')"
  have "list_all (\<lambda>n. n \<le> 16400) (requests_of (snd (iter s)))" if "list_all (\<lambda>n. n \<le> 16400) (requests_of s)" for s
    using that copy_iter_requests [OF assms, of s] by auto
  from pump_loop_keeps [where I = "\<lambda>s. list_all (\<lambda>n. n \<le> 16400) (requests_of s)", OF run this] start
  show "list_all (\<lambda>n. n \<le> 16400) (requests_of s')" by simp
next
  have "sum_list (snd (snd (client_read_handshake_frame (logged R) (r, [])))) \<le> 4098"
    using handshake_frame_requests [of "[]" R r] requests_small(2) by (auto simp: asks_def)
  then show "sum_list (snd (snd (client_read_handshake_frame (logged R) (r, [])))) \<le> 4098"
    "sum_list (snd (snd (server_read_handshake_frame (logged R) (r, [])))) \<le> 4098"
    by (simp_all only: read_handshake_frame_same)
qed (simp_all only: read_record_frame_same logged_record_frame logged_handshake_frame)

text \<open>A peer that announces four gigabytes: the server's task asks for the four bytes of the header and fails.\<close>

definition greedy_pump :: "(net_stream \<times> nat list, net_sink, nat \<times> nat) pump" where
  "greedy_pump = \<lparr>p_reader = (\<lparr>chunks = [[255, 255, 255, 255]], net_end = Stalled\<rparr>, []), p_writer = \<lparr>sink_out = [], sink_flushed = True, sink_shut = False, sink_fault = None\<rparr>,
     p_cell = transport_session_new (0, 0), p_tel = telemetry_new 1 0, p_activity = False\<rparr>"

lemma greedy_pump_runs:
  "server_copy_decrypt_iter plain_noise (logged net_ops) sink_ops greedy_pump =
     (Ready (Inl (FrameError (InvalidFrameLength 4294967295))),
      greedy_pump\<lparr>p_reader := (\<lparr>chunks = [], net_end = Stalled\<rparr>, [1, 3])\<rparr>)"
  by (simp add: server_copy_decrypt_iter_def greedy_pump_def pump_frame_def server_read_record_frame_def net_ops_def
      net_read_def net_read_exact_loop.simps Let_def u32_from_be_bytes_def tunnel_limits)

lemma peer_cannot_size_buffers_witness:
  "sum_list (requests_of (snd (server_copy_decrypt_iter plain_noise (logged net_ops) sink_ops greedy_pump))) \<le> 16404
   \<and> requests_of (snd (server_copy_decrypt_iter plain_noise (logged net_ops) sink_ops greedy_pump)) = [1, 3]"
  using peer_cannot_size_buffers [of "server_copy_decrypt_iter plain_noise (logged net_ops) sink_ops" plain_noise net_ops
      sink_ops greedy_pump "\<lparr>chunks = [], net_end = AtEof\<rparr>"]
  by (simp add: copy_iters_def greedy_pump_runs requests_of_def)

end
