(* ===== verification/Std_Types.thy ===== *)
theory Std_Types
  imports Tunnel_Errors
begin

text \<open>
  The values of the Rust standard library that the configuration and the key files are made of:
  Unicode text with \<open>str::trim\<close>, socket addresses with \<open>is_loopback\<close>, and paths with the
  equality of \<open>Path\<close> (by components) and \<open>Path::parent\<close>.
\<close>

section \<open>Text\<close>

text \<open>A \<open>str\<close> is the list of its Unicode scalar values; \<open>trim\<close> removes the characters with the
  property \<open>White_Space\<close> at both ends.\<close>

type_synonym utext = "nat list"

definition white_space :: "nat \<Rightarrow> bool" where
  "white_space c \<longleftrightarrow>
     9 \<le> c \<and> c \<le> 13 \<or> c = 32 \<or> c = 0x85 \<or> c = 0xA0 \<or> c = 0x1680
     \<or> 0x2000 \<le> c \<and> c \<le> 0x200A \<or> c = 0x2028 \<or> c = 0x2029 \<or> c = 0x202F \<or> c = 0x205F \<or> c = 0x3000"

definition trim_start :: "utext \<Rightarrow> utext" where
  "trim_start s = dropWhile white_space s"

definition trim :: "utext \<Rightarrow> utext" where
  "trim s = rev (trim_start (rev (trim_start s)))"

definition blank :: "utext \<Rightarrow> bool" where
  "blank s \<longleftrightarrow> trim s = []"

lemma blank_iff: "blank s \<longleftrightarrow> (\<forall>c \<in> set s. white_space c)"
proof
  assume "blank s"
  then have "\<forall>c \<in> set (dropWhile white_space s). white_space c"
    by (simp add: blank_def trim_def trim_start_def)
  then show "\<forall>c \<in> set s. white_space c"
    by (metis Un_iff set_append set_takeWhileD takeWhile_dropWhile_id)
next
  assume "\<forall>c \<in> set s. white_space c"
  then show "blank s" by (auto simp: blank_def trim_def trim_start_def dest: set_dropWhileD)
qed

lemma trim_no_white:
  assumes "\<forall>c \<in> set s. \<not> white_space c"
  shows "trim s = s"
proof -
  have id: "dropWhile white_space t = t" if "set t \<subseteq> set s" for t
    using that assms by (cases t) auto
  show ?thesis by (simp add: trim_def trim_start_def id)
qed

text \<open>\<open>Option::unwrap_or\<close>, and serde's \<open>default\<close> for a field that may be absent.\<close>

definition unwrap_or :: "'a option \<Rightarrow> 'a \<Rightarrow> 'a" where
  "unwrap_or v d = (case v of None \<Rightarrow> d | Some x \<Rightarrow> x)"

section \<open>Socket addresses\<close>

datatype ip_addr = V4 byte byte byte byte | V6 "128 word"

datatype socket_addr = SocketAddr ip_addr "16 word"

fun sa_ip :: "socket_addr \<Rightarrow> ip_addr" where
  "sa_ip (SocketAddr ip port) = ip"

text \<open>\<open>127.0.0.0/8\<close>, and \<open>::1\<close> only (an IPv4-mapped address is not a loopback address).\<close>

fun is_loopback :: "ip_addr \<Rightarrow> bool" where
  "is_loopback (V4 a b c d) = (a = 127)"
| "is_loopback (V6 w) = (w = 1)"

section \<open>Paths\<close>

datatype component = RootDir | CurDir | ParentDir | Normal string

fun split_slash :: "string \<Rightarrow> string \<Rightarrow> string list" where
  "split_slash [] acc = [rev acc]"
| "split_slash (c # cs) acc = (if c = CHR ''/'' then rev acc # split_slash cs [] else split_slash cs (c # acc))"

definition to_component :: "string \<Rightarrow> component" where
  "to_component s = (if s = ''..'' then ParentDir else Normal s)"

text \<open>Empty parts and \<open>.\<close> are dropped, except a leading \<open>.\<close> of a relative path.\<close>

definition path_components :: "string \<Rightarrow> component list" where
  "path_components p =
     (case split_slash p [] of
        [] \<Rightarrow> []
      | first # parts \<Rightarrow>
          (if p \<noteq> [] \<and> hd p = CHR ''/'' then [RootDir]
           else if first = ''.'' then [CurDir]
           else if first = [] then [] else [to_component first])
          @ map to_component (List.filter (\<lambda>s. s \<noteq> [] \<and> s \<noteq> ''.'') parts))"

definition path_eq :: "string \<Rightarrow> string \<Rightarrow> bool" where
  "path_eq p q \<longleftrightarrow> path_components p = path_components q"

lemma path_eq_examples:
  "path_eq ''/keys//a.key'' ''/keys/./a.key/''" "\<not> path_eq ''./a.key'' ''a.key''"
  "\<not> path_eq ''/keys/../a'' ''/a''"
  by (simp_all add: path_eq_def path_components_def to_component_def)

end
