(* ===== verification/Client_Config.thy ===== *)
theory Client_Config
  imports Std_Types
begin

text \<open>
  \<open>crates/secure-tunnel-client/src/config.rs\<close>: the client's configuration, its defaults and
  \<open>validate\<close>.  Parsing TOML (crate \<open>toml\<close>) and reading the file are arguments: the parser returns
  the table with the fields that are present (\<open>raw_client_config\<close>); the \<open>#[serde(default)]\<close>
  attributes, which are in the source, are \<open>resolve_client_config\<close>.
\<close>

record client_timeouts =
  ct_connect_seconds :: "64 word"
  ct_handshake_seconds :: "64 word"
  ct_idle_seconds :: "64 word"

record client_outer_tls =
  cot_enabled :: bool
  cot_server_name :: "utext option"
  cot_additional_ca_file :: "string option"

record client_config =
  cc_listen_address :: socket_addr
  cc_remote_address :: utext
  cc_private_key_file :: string
  cc_server_public_key :: utext
  cc_outer_tls :: client_outer_tls
  cc_timeouts :: client_timeouts
  cc_max_connections :: "64 word"

section \<open>Defaults\<close>

definition default_connect_seconds :: "64 word" where "default_connect_seconds = 10"
definition default_handshake_seconds :: "64 word" where "default_handshake_seconds = 10"
definition default_idle_seconds :: "64 word" where "default_idle_seconds = 600"
definition default_max_connections :: "64 word" where "default_max_connections = 32"

definition client_timeouts_default :: client_timeouts where
  "client_timeouts_default =
     \<lparr>ct_connect_seconds = default_connect_seconds, ct_handshake_seconds = default_handshake_seconds,
      ct_idle_seconds = default_idle_seconds\<rparr>"

definition client_outer_tls_default :: client_outer_tls where
  "client_outer_tls_default =
     \<lparr>cot_enabled = False, cot_server_name = None, cot_additional_ca_file = None\<rparr>"

text \<open>\<open>Limits::default()\<close>; \<open>Limits\<close> has the one field.\<close>

definition client_limits_default :: "64 word" where
  "client_limits_default = default_max_connections"

record raw_timeouts =
  rt_connect :: "64 word option"
  rt_handshake :: "64 word option"
  rt_idle :: "64 word option"

record raw_client_config =
  rc_listen_address :: socket_addr
  rc_remote_address :: utext
  rc_private_key_file :: string
  rc_server_public_key :: utext
  rc_outer_tls :: "(bool option \<times> utext option \<times> string option) option"
  rc_timeouts :: "raw_timeouts option"
  rc_limits :: "64 word option option"

definition resolve_client_timeouts :: "raw_timeouts option \<Rightarrow> client_timeouts" where
  "resolve_client_timeouts r =
     (case r of
        None \<Rightarrow> client_timeouts_default
      | Some t \<Rightarrow>
          \<lparr>ct_connect_seconds = unwrap_or (rt_connect t) default_connect_seconds,
           ct_handshake_seconds = unwrap_or (rt_handshake t) default_handshake_seconds,
           ct_idle_seconds = unwrap_or (rt_idle t) default_idle_seconds\<rparr>)"

definition resolve_client_config :: "raw_client_config \<Rightarrow> client_config" where
  "resolve_client_config r =
     \<lparr>cc_listen_address = rc_listen_address r, cc_remote_address = rc_remote_address r,
      cc_private_key_file = rc_private_key_file r, cc_server_public_key = rc_server_public_key r,
      cc_outer_tls = (case rc_outer_tls r of
          None \<Rightarrow> client_outer_tls_default
        | Some (enabled, name, ca) \<Rightarrow>
            \<lparr>cot_enabled = unwrap_or enabled False, cot_server_name = name, cot_additional_ca_file = ca\<rparr>),
      cc_timeouts = resolve_client_timeouts (rc_timeouts r),
      cc_max_connections = (case rc_limits r of
          None \<Rightarrow> client_limits_default
        | Some n \<Rightarrow> unwrap_or n default_max_connections)\<rparr>"

section \<open>Validation\<close>

datatype 'e client_config_error =
    UnreadableConfig string
  | InvalidToml 'e
  | ListenerNotLoopback socket_addr
  | RemoteAddressEmpty
  | ServerKeyMissing
  | TlsServerNameMissing
  | TimeoutNotPositive
  | ConnectionLimitOutOfRange

definition client_validate :: "client_config \<Rightarrow> 'e client_config_error + unit" where
  "client_validate c =
     (if \<not> is_loopback (sa_ip (cc_listen_address c)) then Inl (ListenerNotLoopback (cc_listen_address c))
      else if blank (cc_remote_address c) then Inl RemoteAddressEmpty
      else if blank (cc_server_public_key c) then Inl ServerKeyMissing
      else if cot_enabled (cc_outer_tls c)
              \<and> (case cot_server_name (cc_outer_tls c) of None \<Rightarrow> True | Some name \<Rightarrow> blank name)
      then Inl TlsServerNameMissing
      else if ct_connect_seconds (cc_timeouts c) = 0 \<or> ct_handshake_seconds (cc_timeouts c) = 0
              \<or> ct_idle_seconds (cc_timeouts c) = 0
      then Inl TimeoutNotPositive
      else if cc_max_connections c = 0 \<or> MAX_CONCURRENT_CONNECTIONS < unat (cc_max_connections c)
      then Inl ConnectionLimitOutOfRange
      else Inr ())"

definition client_from_toml ::
    "(utext \<Rightarrow> 'e + raw_client_config) \<Rightarrow> utext \<Rightarrow> 'e client_config_error + client_config" where
  "client_from_toml parse source =
     rbind (map_err InvalidToml (parse source)) (\<lambda>raw.
     let config = resolve_client_config raw in
     rbind (client_validate config) (\<lambda>_. Inr config))"

definition client_load ::
    "(utext \<Rightarrow> 'e + raw_client_config) \<Rightarrow> (string \<Rightarrow> utext option) \<Rightarrow> string
       \<Rightarrow> 'e client_config_error + client_config" where
  "client_load parse read_to_string path =
     rbind (ok_or (read_to_string path) (UnreadableConfig path)) (client_from_toml parse)"

lemma client_validate_iff [result_iff]:
  "client_validate c = Inr u \<longleftrightarrow>
     is_loopback (sa_ip (cc_listen_address c)) \<and> \<not> blank (cc_remote_address c)
     \<and> \<not> blank (cc_server_public_key c)
     \<and> (cot_enabled (cc_outer_tls c) \<longrightarrow> (\<exists>name. cot_server_name (cc_outer_tls c) = Some name \<and> \<not> blank name))
     \<and> 0 < ct_connect_seconds (cc_timeouts c) \<and> 0 < ct_handshake_seconds (cc_timeouts c)
     \<and> 0 < ct_idle_seconds (cc_timeouts c)
     \<and> 0 < cc_max_connections c \<and> unat (cc_max_connections c) \<le> MAX_CONCURRENT_CONNECTIONS"
  by (auto simp: client_validate_def word_gt_0 split: option.splits)

section \<open>Properties\<close>

text \<open>C30: What a loaded client configuration guarantees, whatever the file says: the local listener is
  on a loopback address, a remote address and a pinned server key are given, outer TLS has a server
  name, every timeout is positive, and between 1 and 1024 connections are allowed.\<close>

theorem client_load_is_safe:
  assumes "client_load parse read_to_string path = Inr c"
  shows "is_loopback (sa_ip (cc_listen_address c))
    \<and> \<not> blank (cc_remote_address c) \<and> \<not> blank (cc_server_public_key c)
    \<and> (cot_enabled (cc_outer_tls c) \<longrightarrow> (\<exists>name. cot_server_name (cc_outer_tls c) = Some name \<and> \<not> blank name))
    \<and> 0 < ct_connect_seconds (cc_timeouts c) \<and> 0 < ct_handshake_seconds (cc_timeouts c)
    \<and> 0 < ct_idle_seconds (cc_timeouts c)
    \<and> 1 \<le> unat (cc_max_connections c) \<and> unat (cc_max_connections c) \<le> 1024"
  using assms
  by (auto simp: client_load_def client_from_toml_def Let_def result_iff
      MAX_CONCURRENT_CONNECTIONS_def unat_gt_0 word_gt_0 Suc_le_eq)

definition sample_client_raw :: raw_client_config where
  "sample_client_raw =
     \<lparr>rc_listen_address = SocketAddr (V4 127 0 0 1) 1080, rc_remote_address = [65, 58, 49],
      rc_private_key_file = ''client.key'', rc_server_public_key = [65], rc_outer_tls = None,
      rc_timeouts = Some \<lparr>rt_connect = Some 5, rt_handshake = None, rt_idle = None\<rparr>, rc_limits = None\<rparr>"

lemma client_load_is_safe_witness:
  "is_loopback (sa_ip (cc_listen_address (resolve_client_config sample_client_raw)))
    \<and> unat (cc_max_connections (resolve_client_config sample_client_raw)) = 32
    \<and> 0 < ct_idle_seconds (cc_timeouts (resolve_client_config sample_client_raw))"
proof -
  have "client_load (\<lambda>_. Inr sample_client_raw :: unit + _) (\<lambda>_. Some []) ''client.toml''
          = Inr (resolve_client_config sample_client_raw)"
    by (simp add: client_load_def client_from_toml_def client_validate_def resolve_client_config_def
        sample_client_raw_def resolve_client_timeouts_def unwrap_or_def blank_iff white_space_def
        client_limits_default_def default_connect_seconds_def default_handshake_seconds_def
        default_idle_seconds_def default_max_connections_def client_outer_tls_default_def tunnel_limits)
  from client_load_is_safe [OF this] show ?thesis
    by (simp add: resolve_client_config_def sample_client_raw_def client_limits_default_def
        default_max_connections_def)
qed

end
