(* ===== verification/Server_Config.thy ===== *)
theory Server_Config
  imports Std_Types Handshake
begin

text \<open>
  \<open>crates/secure-tunnel-server/src/config.rs\<close>: the server's configuration, its defaults and
  \<open>validate\<close>.  As for the client, the TOML parser and the file system are arguments and the
  \<open>#[serde(default)]\<close> attributes are \<open>resolve_server_config\<close>.
\<close>

record authorised_client =
  ac_name :: utext
  ac_public_key :: utext

record identity_config =
  id_private_key_file :: string
  id_additional_files :: "string list"

record server_outer_tls =
  sot_enabled :: bool
  sot_certificate_file :: "string option"
  sot_private_key_file :: "string option"

record server_limits =
  sl_max_connections :: "64 word"
  sl_max_plaintext_record_bytes :: "64 word"

record server_timeouts =
  st_destination_connect_seconds :: "64 word"
  st_handshake_seconds :: "64 word"
  st_idle_seconds :: "64 word"

record server_config =
  sc_listen_address :: socket_addr
  sc_destination_address :: socket_addr
  sc_identity :: identity_config
  sc_authorized_clients :: "authorised_client list"
  sc_outer_tls :: server_outer_tls
  sc_limits :: server_limits
  sc_timeouts :: server_timeouts

section \<open>Defaults\<close>

definition server_default_max_connections :: "64 word" where "server_default_max_connections = 32"
definition server_default_record_bytes :: "64 word" where "server_default_record_bytes = 16384"
definition server_default_connect_seconds :: "64 word" where "server_default_connect_seconds = 10"
definition server_default_handshake_seconds :: "64 word" where "server_default_handshake_seconds = 10"
definition server_default_idle_seconds :: "64 word" where "server_default_idle_seconds = 600"

definition server_limits_default :: server_limits where
  "server_limits_default =
     \<lparr>sl_max_connections = server_default_max_connections,
      sl_max_plaintext_record_bytes = server_default_record_bytes\<rparr>"

definition server_timeouts_default :: server_timeouts where
  "server_timeouts_default =
     \<lparr>st_destination_connect_seconds = server_default_connect_seconds,
      st_handshake_seconds = server_default_handshake_seconds,
      st_idle_seconds = server_default_idle_seconds\<rparr>"

definition server_outer_tls_default :: server_outer_tls where
  "server_outer_tls_default =
     \<lparr>sot_enabled = False, sot_certificate_file = None, sot_private_key_file = None\<rparr>"

record raw_server_config =
  rs_listen_address :: socket_addr
  rs_destination_address :: socket_addr
  rs_private_key_file :: string
  rs_additional_files :: "string list option"
  rs_authorized_clients :: "authorised_client list"
  rs_outer_tls :: "(bool option \<times> string option \<times> string option) option"
  rs_limits :: "(64 word option \<times> 64 word option) option"
  rs_timeouts :: "(64 word option \<times> 64 word option \<times> 64 word option) option"

definition resolve_server_config :: "raw_server_config \<Rightarrow> server_config" where
  "resolve_server_config r =
     \<lparr>sc_listen_address = rs_listen_address r, sc_destination_address = rs_destination_address r,
      sc_identity = \<lparr>id_private_key_file = rs_private_key_file r,
                     id_additional_files = unwrap_or (rs_additional_files r) []\<rparr>,
      sc_authorized_clients = rs_authorized_clients r,
      sc_outer_tls = (case rs_outer_tls r of
          None \<Rightarrow> server_outer_tls_default
        | Some (enabled, certificate, key) \<Rightarrow>
            \<lparr>sot_enabled = unwrap_or enabled False, sot_certificate_file = certificate,
             sot_private_key_file = key\<rparr>),
      sc_limits = (case rs_limits r of
          None \<Rightarrow> server_limits_default
        | Some (n, k) \<Rightarrow>
            \<lparr>sl_max_connections = unwrap_or n server_default_max_connections,
             sl_max_plaintext_record_bytes = unwrap_or k server_default_record_bytes\<rparr>),
      sc_timeouts = (case rs_timeouts r of
          None \<Rightarrow> server_timeouts_default
        | Some (c, h, i) \<Rightarrow>
            \<lparr>st_destination_connect_seconds = unwrap_or c server_default_connect_seconds,
             st_handshake_seconds = unwrap_or h server_default_handshake_seconds,
             st_idle_seconds = unwrap_or i server_default_idle_seconds\<rparr>)\<rparr>"

section \<open>Validation\<close>

datatype 'e server_config_error =
    UnreadableServerConfig string
  | InvalidServerToml 'e
  | DestinationNotLoopback socket_addr
  | NoAuthorisedClient
  | BlankClientEntry
  | EmptyKeyPath
  | TooManyIdentities
  | DuplicateKeyPath
  | LimitsOutOfRange
  | TlsCertificateMissing
  | TlsKeyMissing
  | ServerTimeoutNotPositive

text \<open>\<open>any(|path| !identity_paths.insert(path))\<close>: the set grows until the first repetition.\<close>

fun repeats_path :: "component list set \<Rightarrow> string list \<Rightarrow> bool" where
  "repeats_path seen [] = False"
| "repeats_path seen (p # ps) =
     (if path_components p \<in> seen then True else repeats_path (insert (path_components p) seen) ps)"

definition server_validate :: "server_config \<Rightarrow> 'e server_config_error + unit" where
  "server_validate c =
     (if \<not> is_loopback (sa_ip (sc_destination_address c))
      then Inl (DestinationNotLoopback (sc_destination_address c))
      else if sc_authorized_clients c = [] then Inl NoAuthorisedClient
      else if list_ex (\<lambda>k. blank (ac_name k) \<or> blank (ac_public_key k)) (sc_authorized_clients c)
      then Inl BlankClientEntry
      else if id_private_key_file (sc_identity c) = []
              \<or> list_ex (\<lambda>p. p = []) (id_additional_files (sc_identity c))
      then Inl EmptyKeyPath
      else if MAX_SERVER_STATIC_IDENTITIES < 1 + length (id_additional_files (sc_identity c))
      then Inl TooManyIdentities
      else if repeats_path {path_components (id_private_key_file (sc_identity c))}
                (id_additional_files (sc_identity c))
      then Inl DuplicateKeyPath
      else if sl_max_connections (sc_limits c) = 0
              \<or> MAX_CONCURRENT_CONNECTIONS < unat (sl_max_connections (sc_limits c))
              \<or> sl_max_plaintext_record_bytes (sc_limits c) \<noteq> 16384
      then Inl LimitsOutOfRange
      else if sot_enabled (sc_outer_tls c) \<and> sot_certificate_file (sc_outer_tls c) = None
      then Inl TlsCertificateMissing
      else if sot_enabled (sc_outer_tls c) \<and> sot_private_key_file (sc_outer_tls c) = None
      then Inl TlsKeyMissing
      else if st_destination_connect_seconds (sc_timeouts c) = 0
              \<or> st_handshake_seconds (sc_timeouts c) = 0 \<or> st_idle_seconds (sc_timeouts c) = 0
      then Inl ServerTimeoutNotPositive
      else Inr ())"

definition server_from_toml ::
    "(utext \<Rightarrow> 'e + raw_server_config) \<Rightarrow> utext \<Rightarrow> 'e server_config_error + server_config" where
  "server_from_toml parse source =
     rbind (map_err InvalidServerToml (parse source)) (\<lambda>raw.
     let config = resolve_server_config raw in
     rbind (server_validate config) (\<lambda>_. Inr config))"

definition server_load ::
    "(utext \<Rightarrow> 'e + raw_server_config) \<Rightarrow> (string \<Rightarrow> utext option) \<Rightarrow> string
       \<Rightarrow> 'e server_config_error + server_config" where
  "server_load parse read_to_string path =
     rbind (ok_or (read_to_string path) (UnreadableServerConfig path)) (server_from_toml parse)"

text \<open>All key files, the primary one first.\<close>

definition identity_files :: "identity_config \<Rightarrow> string list" where
  "identity_files i = id_private_key_file i # id_additional_files i"

lemma repeats_path_iff:
  "\<not> repeats_path seen ps \<longleftrightarrow>
     distinct (map path_components ps) \<and> set (map path_components ps) \<inter> seen = {}"
  by (induction seen ps rule: repeats_path.induct) auto

lemma server_validate_iff [result_iff]:
  "server_validate c = Inr u \<longleftrightarrow>
     is_loopback (sa_ip (sc_destination_address c))
     \<and> sc_authorized_clients c \<noteq> []
     \<and> list_all (\<lambda>k. \<not> blank (ac_name k) \<and> \<not> blank (ac_public_key k)) (sc_authorized_clients c)
     \<and> [] \<notin> set (identity_files (sc_identity c))
     \<and> length (identity_files (sc_identity c)) \<le> MAX_SERVER_STATIC_IDENTITIES
     \<and> distinct (map path_components (identity_files (sc_identity c)))
     \<and> 0 < sl_max_connections (sc_limits c)
     \<and> unat (sl_max_connections (sc_limits c)) \<le> MAX_CONCURRENT_CONNECTIONS
     \<and> sl_max_plaintext_record_bytes (sc_limits c) = 16384
     \<and> (sot_enabled (sc_outer_tls c) \<longrightarrow>
          sot_certificate_file (sc_outer_tls c) \<noteq> None \<and> sot_private_key_file (sc_outer_tls c) \<noteq> None)
     \<and> 0 < st_destination_connect_seconds (sc_timeouts c)
     \<and> 0 < st_handshake_seconds (sc_timeouts c) \<and> 0 < st_idle_seconds (sc_timeouts c)"
proof -
  let ?p = "path_components (id_private_key_file (sc_identity c))"
  let ?ps = "id_additional_files (sc_identity c)"
  have rep: "repeats_path {?p} ?ps \<longleftrightarrow> \<not> distinct (map path_components (identity_files (sc_identity c)))"
    using repeats_path_iff [of "{?p}" ?ps] by (auto simp: identity_files_def)
  have ex: "list_ex (\<lambda>k. blank (ac_name k) \<or> blank (ac_public_key k)) ks
      \<longleftrightarrow> \<not> list_all (\<lambda>k. \<not> blank (ac_name k) \<and> \<not> blank (ac_public_key k)) ks" for ks
    by (auto simp: list_ex_iff list_all_iff)
  have empty: "id_private_key_file (sc_identity c) = [] \<or> list_ex (\<lambda>p. p = []) ?ps
      \<longleftrightarrow> [] \<in> set (identity_files (sc_identity c))"
    by (auto simp: identity_files_def list_ex_iff)
  have len: "MAX_SERVER_STATIC_IDENTITIES < 1 + length ?ps
      \<longleftrightarrow> \<not> length (identity_files (sc_identity c)) \<le> MAX_SERVER_STATIC_IDENTITIES"
    by (auto simp: identity_files_def)
  show ?thesis unfolding server_validate_def rep ex empty len by (auto simp: word_gt_0)
qed

section \<open>Properties\<close>

text \<open>C31: What a loaded server configuration guarantees, whatever the file says: the destination is a
  loopback address, at least one client is authorised and no entry is blank, one to eight key files
  are given, none empty and no two of them the same path, between 1 and 1024 connections are
  allowed, outer TLS has its certificate and key, and every timeout is positive.\<close>

theorem server_load_is_safe:
  assumes "server_load parse read_to_string path = Inr c"
  shows "is_loopback (sa_ip (sc_destination_address c))
    \<and> sc_authorized_clients c \<noteq> []
    \<and> list_all (\<lambda>k. \<not> blank (ac_name k) \<and> \<not> blank (ac_public_key k)) (sc_authorized_clients c)
    \<and> [] \<notin> set (identity_files (sc_identity c)) \<and> length (identity_files (sc_identity c)) \<le> 8
    \<and> distinct (map path_components (identity_files (sc_identity c)))
    \<and> 1 \<le> unat (sl_max_connections (sc_limits c)) \<and> unat (sl_max_connections (sc_limits c)) \<le> 1024
    \<and> unat (sl_max_plaintext_record_bytes (sc_limits c)) = MAX_PLAINTEXT_RECORD
    \<and> (sot_enabled (sc_outer_tls c) \<longrightarrow>
          sot_certificate_file (sc_outer_tls c) \<noteq> None \<and> sot_private_key_file (sc_outer_tls c) \<noteq> None)
    \<and> 0 < st_destination_connect_seconds (sc_timeouts c)
    \<and> 0 < st_handshake_seconds (sc_timeouts c) \<and> 0 < st_idle_seconds (sc_timeouts c)"
proof -
  have v: "server_validate c = (Inr () :: 'a server_config_error + unit)"
    using assms by (auto simp: server_load_def server_from_toml_def Let_def rbind_Inr_iff ok_or_Inr_iff)
  show ?thesis
    using v unfolding server_validate_iff
    by (auto simp: tunnel_limits unat_gt_0 word_gt_0 Suc_le_eq)
qed

definition sample_server_raw :: raw_server_config where
  "sample_server_raw =
     \<lparr>rs_listen_address = SocketAddr (V4 0 0 0 0) 7000, rs_destination_address = SocketAddr (V6 1) 8080,
      rs_private_key_file = ''a.key'', rs_additional_files = Some [''b.key''],
      rs_authorized_clients = [\<lparr>ac_name = [65], ac_public_key = [66]\<rparr>],
      rs_outer_tls = None, rs_limits = None, rs_timeouts = None\<rparr>"

lemma sample_server_loads:
  "server_load (\<lambda>_. Inr sample_server_raw :: unit + _) (\<lambda>_. Some []) ''server.toml''
     = Inr (resolve_server_config sample_server_raw)"
  by (simp add: server_load_def server_from_toml_def server_validate_def resolve_server_config_def
      sample_server_raw_def unwrap_or_def blank_iff white_space_def server_limits_default_def
      server_timeouts_default_def server_default_connect_seconds_def server_default_handshake_seconds_def
      server_default_idle_seconds_def server_default_max_connections_def server_default_record_bytes_def
      server_outer_tls_default_def tunnel_limits path_components_def to_component_def)

lemma server_load_is_safe_witness:
  "is_loopback (sa_ip (sc_destination_address (resolve_server_config sample_server_raw)))
   \<and> distinct (map path_components [''a.key'', ''b.key''])
   \<and> unat (sl_max_connections (sc_limits (resolve_server_config sample_server_raw))) = 32"
  using server_load_is_safe [OF sample_server_loads]
  by (simp add: identity_files_def resolve_server_config_def sample_server_raw_def unwrap_or_def
      server_limits_default_def server_default_max_connections_def)

text \<open>A loaded server configuration can always start a handshake: reading its key files in order
  gives as many private keys as \<open>ServerHandshake::new_with_static_identities\<close> accepts.\<close>

theorem server_load_admits_handshake:
  assumes "server_load parse read_to_string path = Inr c"
    and "length keys = length (identity_files (sc_identity c))"
  shows "\<exists>sh. new_with_static_identities keys clients = (Inr sh :: 'x tunnel_error + server_handshake)
    \<and> static_identities sh = Some keys \<and> allow_list sh = set clients"
proof -
  have "server_validate c = (Inr () :: 'a server_config_error + unit)"
    using assms(1) by (auto simp: server_load_def server_from_toml_def Let_def rbind_Inr_iff ok_or_Inr_iff)
  then have "length keys \<le> MAX_SERVER_STATIC_IDENTITIES" "keys \<noteq> []"
    using assms(2) unfolding server_validate_iff by (auto simp: identity_files_def)
  then show ?thesis by (simp add: new_with_static_identities_def)
qed

lemma server_load_admits_handshake_witness:
  "\<exists>sh. new_with_static_identities [[1], [2]] [[3]] = (Inr sh :: unit tunnel_error + server_handshake)
    \<and> static_identities sh = Some [[1], [2]] \<and> allow_list sh = set [[3]]"
  by (rule server_load_admits_handshake [OF sample_server_loads])
     (simp add: identity_files_def resolve_server_config_def sample_server_raw_def unwrap_or_def)

end
