(* ===== verification/Key_Files.thy ===== *)
theory Key_Files
  imports Std_Types Noise_Instance
begin

text \<open>
  Private-key and configuration files of both binaries: permission checks, key generation, writing
  and reading keys (\<open>keygen\<close>, \<open>write_private_key\<close>, \<open>prepare_private_key_parent\<close>,
  \<open>read_private_key\<close>, \<open>decode_public_key\<close>, \<open>enforce_*\<close> in the two \<open>main.rs\<close>).

  The file system is a map from paths to nodes.  A path is its list of components; \<open>.\<close> does not
  change what a path names.  The directories on the way to a node are not links.  What the
  operating system may refuse for reasons of its own (missing rights, a full disk) and the process's
  umask are the record \<open>os\<close>.  Base64 (crate \<open>base64\<close>) and the fingerprint are arguments.
\<close>

section \<open>Files\<close>

type_synonym path = "component list"

datatype node =
    FileNode "32 word" utext
  | DirNode "32 word"
  | SymlinkNode path
  | OtherNode "32 word"

type_synonym fs = "path \<Rightarrow> node option"

record os =
  os_umask :: "32 word"
  os_create_ok :: "path \<Rightarrow> bool"
  os_chmod_ok :: "path \<Rightarrow> bool"
  os_write_ok :: "path \<Rightarrow> bool"
  os_sync_ok :: "path \<Rightarrow> bool"

definition place :: "path \<Rightarrow> path" where
  "place p = List.filter (\<lambda>c. c \<noteq> CurDir) p"

fun is_file :: "node \<Rightarrow> bool" where
  "is_file (FileNode m s) = True" | "is_file _ = False"

fun is_dir :: "node \<Rightarrow> bool" where
  "is_dir (DirNode m) = True" | "is_dir _ = False"

fun is_symlink :: "node \<Rightarrow> bool" where
  "is_symlink (SymlinkNode p) = True" | "is_symlink _ = False"

fun node_mode :: "node \<Rightarrow> 32 word" where
  "node_mode (FileNode m s) = m" | "node_mode (DirNode m) = m"
| "node_mode (SymlinkNode p) = 0x1FF" | "node_mode (OtherNode m) = m"

definition symlink_metadata :: "fs \<Rightarrow> path \<Rightarrow> node option" where
  "symlink_metadata fs p = fs (place p)"

text \<open>Links are followed up to the system's limit of 40.\<close>

fun follow :: "nat \<Rightarrow> fs \<Rightarrow> path \<Rightarrow> node option" where
  "follow 0 fs p = None"
| "follow (Suc n) fs p =
     (case fs (place p) of Some (SymlinkNode q) \<Rightarrow> follow n fs q | r \<Rightarrow> r)"

definition path_exists :: "fs \<Rightarrow> path \<Rightarrow> bool" where
  "path_exists fs p \<longleftrightarrow> follow 40 fs p \<noteq> None"

text \<open>\<open>Path::parent\<close>: none for the empty path and for the root.\<close>

definition path_parent :: "path \<Rightarrow> path option" where
  "path_parent p = (if p = [] \<or> last p = RootDir then None else Some (butlast p))"

definition create_dir :: "os \<Rightarrow> fs \<Rightarrow> path \<Rightarrow> fs option" where
  "create_dir os fs p =
     (if fs (place p) \<noteq> None \<or> \<not> os_create_ok os p then None
      else Some (fs(place p \<mapsto> DirNode (0x1FF AND NOT (os_umask os)))))"

definition set_permissions :: "os \<Rightarrow> fs \<Rightarrow> path \<Rightarrow> 32 word \<Rightarrow> fs option" where
  "set_permissions os fs p mode =
     (if \<not> os_chmod_ok os p then None
      else case fs (place p) of
        Some (FileNode m s) \<Rightarrow> Some (fs(place p \<mapsto> FileNode mode s))
      | Some (DirNode m) \<Rightarrow> Some (fs(place p \<mapsto> DirNode mode))
      | _ \<Rightarrow> None)"

text \<open>\<open>O_WRONLY | O_CREAT | O_EXCL\<close>: any node at the path, a link included, is an error.\<close>

definition open_create_new :: "os \<Rightarrow> fs \<Rightarrow> path \<Rightarrow> 32 word \<Rightarrow> fs option" where
  "open_create_new os fs p mode =
     (if fs (place p) \<noteq> None \<or> \<not> os_create_ok os p then None
      else Some (fs(place p \<mapsto> FileNode (mode AND NOT (os_umask os)) [])))"

definition write_file :: "os \<Rightarrow> fs \<Rightarrow> path \<Rightarrow> utext \<Rightarrow> fs option" where
  "write_file os fs p s =
     (if \<not> os_write_ok os p then None
      else case fs (place p) of
        Some (FileNode m s0) \<Rightarrow> Some (fs(place p \<mapsto> FileNode m (s0 @ s)))
      | _ \<Rightarrow> None)"

text \<open>The owner reads; it needs its read bit.\<close>

definition read_to_string :: "fs \<Rightarrow> path \<Rightarrow> utext option" where
  "read_to_string fs p =
     (case follow 40 fs p of
        Some (FileNode m s) \<Rightarrow> if m AND 0x100 = 0 then None else Some s
      | _ \<Rightarrow> None)"

datatype 'e key_error =
    KeyIo path
  | NotRegularFile string path
  | GroupReadable string path "32 word"
  | ParentNotDirectory path
  | ParentAccessible path "32 word"
  | ParentNotCreated path
  | KeyNotCreated path
  | BadBase64
  | WrongPrivateKeyLength
  | BadPublicKeyBase64
  | WrongPublicKeyLength
  | RefuseOverwrite path
  | KeygenFailed "'e tunnel_error"
  | InServerKey path "'e key_error"

datatype keygen_line = PrivateKeyWritten path | PublicKey utext | Fingerprint utext

section \<open>The client's functions\<close>

definition client_enforce_sensitive_permissions :: "fs \<Rightarrow> path \<Rightarrow> string \<Rightarrow> 'e key_error + unit" where
  "client_enforce_sensitive_permissions fs path kind =
     rbind (ok_or (symlink_metadata fs path) (KeyIo path)) (\<lambda>node.
       if \<not> is_file node \<or> is_symlink node then Inl (NotRegularFile kind path)
       else let mode = node_mode node AND 0x1FF in
         if mode AND 0x3F \<noteq> 0 then Inl (GroupReadable kind path mode) else Inr ())"

definition client_enforce_private_permissions :: "fs \<Rightarrow> path \<Rightarrow> 'e key_error + unit" where
  "client_enforce_private_permissions fs path = client_enforce_sensitive_permissions fs path ''private key''"

definition client_enforce_config_permissions :: "fs \<Rightarrow> path \<Rightarrow> 'e key_error + unit" where
  "client_enforce_config_permissions fs path = client_enforce_sensitive_permissions fs path ''configuration''"

definition client_enforce_private_parent_permissions :: "fs \<Rightarrow> path \<Rightarrow> 'e key_error + unit" where
  "client_enforce_private_parent_permissions fs path =
     rbind (ok_or (symlink_metadata fs path) (KeyIo path)) (\<lambda>node.
       if \<not> is_dir node \<or> is_symlink node then Inl (ParentNotDirectory path)
       else let mode = node_mode node AND 0x1FF in
         if mode AND 0x3F \<noteq> 0 then Inl (ParentAccessible path mode) else Inr ())"

definition client_prepare_private_key_parent :: "os \<Rightarrow> fs \<Rightarrow> path \<Rightarrow> fs \<times> ('e key_error + unit)" where
  "client_prepare_private_key_parent os fs path =
     (let parent = (case path_parent path of None \<Rightarrow> [CurDir] | Some d \<Rightarrow> if d = [] then [CurDir] else d) in
      if path_exists fs parent
      then (fs, client_enforce_private_parent_permissions fs parent)
      else case create_dir os fs parent of
        None \<Rightarrow> (fs, Inl (ParentNotCreated parent))
      | Some fs1 \<Rightarrow>
          (case set_permissions os fs1 parent 0x1C0 of
             None \<Rightarrow> (fs1, Inl (KeyIo parent))
           | Some fs2 \<Rightarrow> (fs2, Inr ())))"

definition client_write_private_key ::
    "(bytes \<Rightarrow> utext) \<Rightarrow> os \<Rightarrow> fs \<Rightarrow> path \<Rightarrow> bytes \<Rightarrow> fs \<times> ('e key_error + unit)" where
  "client_write_private_key encode os fs path k =
     (case client_prepare_private_key_parent os fs path of
        (fs1, Inl e) \<Rightarrow> (fs1, Inl e)
      | (fs1, Inr _) \<Rightarrow>
          (case open_create_new os fs1 path 0x180 of
             None \<Rightarrow> (fs1, Inl (KeyNotCreated path))
           | Some fs2 \<Rightarrow>
               (case write_file os fs2 path (encode k) of
                  None \<Rightarrow> (fs2, Inl (KeyIo path))
                | Some fs3 \<Rightarrow> (fs3, if os_sync_ok os path then Inr () else Inl (KeyIo path)))))"

definition client_read_private_key ::
    "(utext \<Rightarrow> bytes option) \<Rightarrow> fs \<Rightarrow> path \<Rightarrow> 'e key_error + bytes" where
  "client_read_private_key decode fs path =
     rbind (client_enforce_private_permissions fs path) (\<lambda>_.
     rbind (ok_or (read_to_string fs path) (KeyIo path)) (\<lambda>s.
     rbind (ok_or (decode (trim s)) BadBase64) (\<lambda>b.
       ok_or (try_into_32 b) WrongPrivateKeyLength)))"

definition client_decode_public_key :: "(utext \<Rightarrow> bytes option) \<Rightarrow> utext \<Rightarrow> 'e key_error + bytes" where
  "client_decode_public_key decode value =
     rbind (ok_or (decode (trim value)) BadPublicKeyBase64) (\<lambda>b.
       ok_or (try_into_32 b) WrongPublicKeyLength)"

text \<open>\<open>keygen\<close>: the lines it prints are the third result; the key generator is the Noise library,
  the fingerprint (SHA-256) an argument.\<close>

definition client_keygen ::
    "('p, 'b, 'h, 't, 'e) noise_lib \<Rightarrow> (bytes \<Rightarrow> utext) \<Rightarrow> (bytes \<Rightarrow> utext) \<Rightarrow> os \<Rightarrow> fs \<Rightarrow> path
       \<Rightarrow> fs \<times> ('e key_error + unit) \<times> keygen_line list" where
  "client_keygen api encode fingerprint os fs path =
     (if path_exists fs path then (fs, Inl (RefuseOverwrite path), [])
      else case generate_keypair api of
        Inl e \<Rightarrow> (fs, Inl (KeygenFailed e), [])
      | Inr kp \<Rightarrow>
          (case client_write_private_key encode os fs path (sk_private kp) of
             (fs1, Inl e) \<Rightarrow> (fs1, Inl e, [])
           | (fs1, Inr _) \<Rightarrow>
               (fs1, Inr (),
                [PrivateKeyWritten path, PublicKey (encode (sk_public kp)),
                 Fingerprint (fingerprint (sk_public kp))])))"

section \<open>The server's functions\<close>

text \<open>The server declares the same helpers; it also reads a list of keys, the primary one first.\<close>

definition server_enforce_sensitive_permissions :: "fs \<Rightarrow> path \<Rightarrow> string \<Rightarrow> 'e key_error + unit" where
  "server_enforce_sensitive_permissions fs path kind =
     rbind (ok_or (symlink_metadata fs path) (KeyIo path)) (\<lambda>node.
       if \<not> is_file node \<or> is_symlink node then Inl (NotRegularFile kind path)
       else let mode = node_mode node AND 0x1FF in
         if mode AND 0x3F \<noteq> 0 then Inl (GroupReadable kind path mode) else Inr ())"

definition server_enforce_private_permissions :: "fs \<Rightarrow> path \<Rightarrow> 'e key_error + unit" where
  "server_enforce_private_permissions fs path = server_enforce_sensitive_permissions fs path ''private key''"

definition server_enforce_config_permissions :: "fs \<Rightarrow> path \<Rightarrow> 'e key_error + unit" where
  "server_enforce_config_permissions fs path = server_enforce_sensitive_permissions fs path ''configuration''"

definition server_enforce_private_parent_permissions :: "fs \<Rightarrow> path \<Rightarrow> 'e key_error + unit" where
  "server_enforce_private_parent_permissions fs path =
     rbind (ok_or (symlink_metadata fs path) (KeyIo path)) (\<lambda>node.
       if \<not> is_dir node \<or> is_symlink node then Inl (ParentNotDirectory path)
       else let mode = node_mode node AND 0x1FF in
         if mode AND 0x3F \<noteq> 0 then Inl (ParentAccessible path mode) else Inr ())"

definition server_prepare_private_key_parent :: "os \<Rightarrow> fs \<Rightarrow> path \<Rightarrow> fs \<times> ('e key_error + unit)" where
  "server_prepare_private_key_parent os fs path =
     (let parent = (case path_parent path of None \<Rightarrow> [CurDir] | Some d \<Rightarrow> if d = [] then [CurDir] else d) in
      if path_exists fs parent
      then (fs, server_enforce_private_parent_permissions fs parent)
      else case create_dir os fs parent of
        None \<Rightarrow> (fs, Inl (ParentNotCreated parent))
      | Some fs1 \<Rightarrow>
          (case set_permissions os fs1 parent 0x1C0 of
             None \<Rightarrow> (fs1, Inl (KeyIo parent))
           | Some fs2 \<Rightarrow> (fs2, Inr ())))"

definition server_write_private_key ::
    "(bytes \<Rightarrow> utext) \<Rightarrow> os \<Rightarrow> fs \<Rightarrow> path \<Rightarrow> bytes \<Rightarrow> fs \<times> ('e key_error + unit)" where
  "server_write_private_key encode os fs path k =
     (case server_prepare_private_key_parent os fs path of
        (fs1, Inl e) \<Rightarrow> (fs1, Inl e)
      | (fs1, Inr _) \<Rightarrow>
          (case open_create_new os fs1 path 0x180 of
             None \<Rightarrow> (fs1, Inl (KeyNotCreated path))
           | Some fs2 \<Rightarrow>
               (case write_file os fs2 path (encode k) of
                  None \<Rightarrow> (fs2, Inl (KeyIo path))
                | Some fs3 \<Rightarrow> (fs3, if os_sync_ok os path then Inr () else Inl (KeyIo path)))))"

definition server_read_private_key ::
    "(utext \<Rightarrow> bytes option) \<Rightarrow> fs \<Rightarrow> path \<Rightarrow> 'e key_error + bytes" where
  "server_read_private_key decode fs path =
     rbind (server_enforce_private_permissions fs path) (\<lambda>_.
     rbind (ok_or (read_to_string fs path) (KeyIo path)) (\<lambda>s.
     rbind (ok_or (decode (trim s)) BadBase64) (\<lambda>b.
       ok_or (try_into_32 b) WrongPrivateKeyLength)))"

definition server_decode_public_key :: "(utext \<Rightarrow> bytes option) \<Rightarrow> utext \<Rightarrow> 'e key_error + bytes" where
  "server_decode_public_key decode value =
     rbind (ok_or (decode (trim value)) BadPublicKeyBase64) (\<lambda>b.
       ok_or (try_into_32 b) WrongPublicKeyLength)"

definition server_keygen ::
    "('p, 'b, 'h, 't, 'e) noise_lib \<Rightarrow> (bytes \<Rightarrow> utext) \<Rightarrow> (bytes \<Rightarrow> utext) \<Rightarrow> os \<Rightarrow> fs \<Rightarrow> path
       \<Rightarrow> fs \<times> ('e key_error + unit) \<times> keygen_line list" where
  "server_keygen api encode fingerprint os fs path =
     (if path_exists fs path then (fs, Inl (RefuseOverwrite path), [])
      else case generate_keypair api of
        Inl e \<Rightarrow> (fs, Inl (KeygenFailed e), [])
      | Inr kp \<Rightarrow>
          (case server_write_private_key encode os fs path (sk_private kp) of
             (fs1, Inl e) \<Rightarrow> (fs1, Inl e, [])
           | (fs1, Inr _) \<Rightarrow>
               (fs1, Inr (),
                [PrivateKeyWritten path, PublicKey (encode (sk_public kp)),
                 Fingerprint (fingerprint (sk_public kp))])))"

fun server_collect_keys ::
    "(utext \<Rightarrow> bytes option) \<Rightarrow> fs \<Rightarrow> path list \<Rightarrow> 'e key_error + bytes list" where
  "server_collect_keys decode fs [] = Inr []"
| "server_collect_keys decode fs (p # ps) =
     rbind (map_err (InServerKey p) (server_read_private_key decode fs p)) (\<lambda>k.
     rbind (server_collect_keys decode fs ps) (\<lambda>ks. Inr (k # ks)))"

definition server_read_private_keys ::
    "(utext \<Rightarrow> bytes option) \<Rightarrow> fs \<Rightarrow> path \<Rightarrow> path list \<Rightarrow> 'e key_error + bytes list" where
  "server_read_private_keys decode fs primary additional = server_collect_keys decode fs (primary # additional)"

section \<open>The two copies agree\<close>

lemma key_files_same:
  "server_enforce_sensitive_permissions = client_enforce_sensitive_permissions"
  "server_enforce_private_permissions = client_enforce_private_permissions"
  "server_enforce_config_permissions = client_enforce_config_permissions"
  "server_enforce_private_parent_permissions = client_enforce_private_parent_permissions"
  by (simp_all add: fun_eq_iff server_enforce_sensitive_permissions_def client_enforce_sensitive_permissions_def
      server_enforce_private_permissions_def client_enforce_private_permissions_def
      server_enforce_config_permissions_def client_enforce_config_permissions_def
      server_enforce_private_parent_permissions_def client_enforce_private_parent_permissions_def)

lemma prepare_private_key_parent_same:
  "server_prepare_private_key_parent = client_prepare_private_key_parent"
  unfolding server_prepare_private_key_parent_def client_prepare_private_key_parent_def key_files_same ..

lemma write_private_key_same: "server_write_private_key = client_write_private_key"
  unfolding server_write_private_key_def client_write_private_key_def prepare_private_key_parent_same ..

lemma read_private_key_same: "server_read_private_key = client_read_private_key"
  unfolding server_read_private_key_def client_read_private_key_def key_files_same ..

lemma decode_public_key_same: "server_decode_public_key = client_decode_public_key"
  unfolding server_decode_public_key_def client_decode_public_key_def ..

lemma keygen_same: "server_keygen = client_keygen"
  unfolding server_keygen_def client_keygen_def write_private_key_same ..

section \<open>Lemmas\<close>

definition private_mode :: "32 word \<Rightarrow> bool" where
  "private_mode m \<longleftrightarrow> m AND 0x3F = 0"

lemma mask_077: "((m :: 32 word) AND 0x1FF) AND 0x3F = m AND 0x3F"
proof -
  have "(0x1FF :: 32 word) AND 0x3F = 0x3F" by simp
  then show ?thesis by (simp only: and.assoc)
qed

lemma enforce_sensitive_iff [result_iff]:
  "client_enforce_sensitive_permissions fs p kind = (Inr u :: 'e key_error + unit) \<longleftrightarrow>
     (\<exists>m s. fs (place p) = Some (FileNode m s) \<and> private_mode m)"
  by (cases "fs (place p)"; cases "the (fs (place p))")
     (auto simp: client_enforce_sensitive_permissions_def symlink_metadata_def Let_def mask_077 private_mode_def)

lemma enforce_parent_iff [result_iff]:
  "client_enforce_private_parent_permissions fs p = (Inr u :: 'e key_error + unit) \<longleftrightarrow>
     (\<exists>m. fs (place p) = Some (DirNode m) \<and> private_mode m)"
  by (cases "fs (place p)"; cases "the (fs (place p))")
     (auto simp: client_enforce_private_parent_permissions_def symlink_metadata_def Let_def mask_077 private_mode_def)

lemma follow_file: "fs (place p) = Some (FileNode m s) \<Longrightarrow> follow (Suc n) fs p = Some (FileNode m s)"
  by simp

lemma read_file:
  assumes "fs (place p) = Some (FileNode m s)" and "m AND 0x100 \<noteq> 0"
  shows "read_to_string fs p = Some s"
proof -
  have "follow (Suc 39) fs p = Some (FileNode m s)" using assms(1) by (rule follow_file)
  with assms(2) show ?thesis by (simp add: read_to_string_def)
qed

lemma read_private_key_iff:
  "client_read_private_key decode fs p = Inr k \<longleftrightarrow>
     (\<exists>m s. fs (place p) = Some (FileNode m s) \<and> private_mode m \<and> m AND 0x100 \<noteq> 0
        \<and> decode (trim s) = Some k \<and> length k = 32)"
  by (auto simp: client_read_private_key_def client_enforce_private_permissions_def result_iff
      read_to_string_def numeral_eq_Suc try_into_32_def split: option.splits node.splits if_splits)


lemma place_parent:
  assumes "path_parent p = Some d"
  shows "place p = place d \<or> place p = place d @ [last p]"
proof -
  from assms have "p \<noteq> []" "d = butlast p" by (auto simp: path_parent_def split: if_splits)
  then have "p = d @ [last p]" by simp
  then show ?thesis unfolding place_def by (metis filter.simps filter_append append_Nil2)
qed

text \<open>The step before the key is created: the parent directory is there and private.\<close>

lemma prepare_parent_Inr:
  assumes "client_prepare_private_key_parent os fs p = (fs1, Inr u :: 'e key_error + unit)"
  shows "\<exists>d m. fs1 (place d) = Some (DirNode m) \<and> private_mode m
     \<and> d = (case path_parent p of None \<Rightarrow> [CurDir] | Some d \<Rightarrow> if d = [] then [CurDir] else d)
     \<and> (\<forall>q. q \<noteq> place d \<longrightarrow> fs1 q = fs q)
     \<and> (fs (place d) \<noteq> None \<longrightarrow> fs1 = fs)"
proof -
  define d where "d = (case path_parent p of None \<Rightarrow> [CurDir] | Some d \<Rightarrow> if d = [] then [CurDir] else d)"
  have priv: "private_mode 0x1C0" by (simp add: private_mode_def)
  show ?thesis
  proof (cases "path_exists fs d")
    case True
    with assms have "fs1 = fs" "client_enforce_private_parent_permissions fs d = (Inr u :: 'e key_error + unit)"
      by (auto simp: client_prepare_private_key_parent_def d_def [symmetric] Let_def)
    then show ?thesis unfolding enforce_parent_iff by (auto simp: d_def [symmetric])
  next
    case False
    with assms have "fs (place d) = None" "fs1 = fs(place d \<mapsto> DirNode 0x1C0)"
      by (auto simp: client_prepare_private_key_parent_def d_def [symmetric] Let_def create_dir_def
          set_permissions_def split: if_splits option.splits)
    then show ?thesis by (auto simp: d_def [symmetric] priv)
  qed
qed

lemma write_private_key_Inr:
  assumes "client_write_private_key encode os fs p k = (fs', Inr u :: 'e key_error + unit)"
  shows "\<exists>fs1. client_prepare_private_key_parent os fs p = (fs1, Inr () :: 'e key_error + unit) \<and> fs1 (place p) = None
     \<and> fs' = fs1(place p \<mapsto> FileNode (0x180 AND NOT (os_umask os)) (encode k))"
  using assms
  by (auto simp: client_write_private_key_def open_create_new_def write_file_def
      split: prod.splits sum.splits option.splits if_splits)

lemma owner_only: "private_mode (0x180 AND NOT u)"
proof -
  have "(0x180 AND NOT u) AND 0x3F = (0x180 AND 0x3F) AND NOT (u :: 32 word)"
    by (simp only: ac_simps)
  then show ?thesis by (simp add: private_mode_def)
qed

lemma prepare_parent_keeps:
  "fs q \<noteq> None \<Longrightarrow> fst (client_prepare_private_key_parent os fs p :: fs \<times> ('e key_error + unit)) q = fs q"
  by (auto simp: client_prepare_private_key_parent_def Let_def create_dir_def set_permissions_def
      split: option.splits if_splits)

lemma write_private_key_keeps:
  assumes "fs (place q) = Some n"
  shows "fst (client_write_private_key encode os fs p k :: fs \<times> ('e key_error + unit)) (place q) = Some n"
proof -
  obtain fs1 and r :: "'e key_error + unit" where pp: "client_prepare_private_key_parent os fs p = (fs1, r)"
    by fastforce
  then have k: "fs1 (place q) = Some n"
    using prepare_parent_keeps [of fs "place q" os p, where 'e = 'e] assms by simp
  then show ?thesis
    by (auto simp: client_write_private_key_def pp open_create_new_def write_file_def
        split: sum.splits option.splits if_splits)
qed

lemma write_private_key_refuses:
  assumes "fs (place p) = Some n"
  shows "\<exists>e. snd (client_write_private_key encode os fs p k) = (Inl e :: 'e key_error + unit)"
proof -
  obtain fs1 and r :: "'e key_error + unit" where pp: "client_prepare_private_key_parent os fs p = (fs1, r)"
    by fastforce
  then have "fs1 (place p) = Some n"
    using prepare_parent_keeps [of fs "place p" os p, where 'e = 'e] assms by simp
  then show ?thesis
    by (cases r) (auto simp: client_write_private_key_def pp open_create_new_def)
qed

text \<open>After a successful write.\<close>

lemma written_key_reads_back:
  assumes "client_write_private_key encode os fs p k = (fs', Inr u :: 'e key_error + unit)"
    and "decode (encode k) = Some k" and "\<forall>c \<in> set (encode k). \<not> white_space c"
    and "length k = 32" and "\<not> bit (os_umask os) 8"
  shows "client_read_private_key decode fs' p = (Inr k :: 'd key_error + bytes)
    \<and> (\<exists>m s. fs' (place p) = Some (FileNode m s) \<and> m AND 0x3F = 0)
    \<and> (\<exists>d m. d = (case path_parent p of None \<Rightarrow> [CurDir] | Some d \<Rightarrow> if d = [] then [CurDir] else d)
         \<and> fs' (place d) = Some (DirNode m) \<and> m AND 0x3F = 0
         \<and> (\<forall>q. q = place p \<or> q = place d \<or> fs' q = fs q))"
proof -
  from write_private_key_Inr [OF assms(1)] obtain fs1 where
    prep: "client_prepare_private_key_parent os fs p = (fs1, Inr () :: 'e key_error + unit)"
    and free: "fs1 (place p) = None"
    and fs': "fs' = fs1(place p \<mapsto> FileNode (0x180 AND NOT (os_umask os)) (encode k))" by blast
  from prepare_parent_Inr [OF prep] obtain d m where
    d: "d = (case path_parent p of None \<Rightarrow> [CurDir] | Some d \<Rightarrow> if d = [] then [CurDir] else d)"
    and dir: "fs1 (place d) = Some (DirNode m)" "private_mode m"
    and rest: "\<forall>q. q \<noteq> place d \<longrightarrow> fs1 q = fs q" by blast
  have ne: "place d \<noteq> place p" using free dir(1) by auto
  have "bit ((0x180 AND NOT (os_umask os)) AND 0x100) 8"
    using assms(5) by (simp add: bit_simps)
  then have "(0x180 AND NOT (os_umask os)) AND 0x100 \<noteq> 0" by (metis bit_0_eq bot_apply bot_bool_def)
  then have "client_read_private_key decode fs' p = (Inr k :: 'd key_error + bytes)"
    using assms(2-4) owner_only [of "os_umask os"]
    by (auto simp: read_private_key_iff fs' trim_no_white)
  then show ?thesis
    using owner_only [of "os_umask os"] dir ne rest d
    by (auto simp: fs' private_mode_def)
qed

section \<open>Properties\<close>

text \<open>\<open>keygen\<close> and \<open>write_private_key\<close> never replace anything.  Whatever is at a path, a link
  or a directory included, is still there unchanged afterwards; and when there is something at the
  key's own path, both report an error.\<close>

theorem write_private_key_never_overwrites:
  fixes api :: "('p, 'b, 'h, 't, 'e) noise_lib"
  assumes "fs (place q) = Some n"
  shows "fst (client_write_private_key encode os fs p k :: fs \<times> ('e key_error + unit)) (place q) = Some n
    \<and> fst (client_keygen api encode fingerprint os fs p) (place q) = Some n
    \<and> (place p \<noteq> place q
        \<or> isl (snd (client_write_private_key encode os fs p k) :: 'e key_error + unit)
          \<and> isl (fst (snd (client_keygen api encode fingerprint os fs p))))"
proof -
  have keep: "fst (client_write_private_key encode os fs p k :: fs \<times> ('e key_error + unit)) (place q) = Some n" for k
    using assms by (rule write_private_key_keeps)
  have refuse: "\<exists>e. snd (client_write_private_key encode os fs p k) = (Inl e :: 'e key_error + unit)"
    if "place p = place q" for k
    using assms that by (intro write_private_key_refuses) simp
  have "fst (client_keygen api encode fingerprint os fs p) (place q) = Some n"
    using keep assms
    by (auto simp: client_keygen_def split: sum.splits prod.splits) (metis fst_conv)+
  moreover have "isl (fst (snd (client_keygen api encode fingerprint os fs p)))" if "place p = place q"
    using refuse [OF that]
    by (auto simp: client_keygen_def split: sum.splits prod.splits) (metis snd_conv sum.distinct(1))
  moreover have "isl (snd (client_write_private_key encode os fs p k) :: 'e key_error + unit)" if "place p = place q"
    using refuse [OF that, of k] by auto
  ultimately show ?thesis using keep [of k] by blast
qed

definition sample_os :: os where
  "sample_os = \<lparr>os_umask = 0x12, os_create_ok = (\<lambda>_. True), os_chmod_ok = (\<lambda>_. True),
     os_write_ok = (\<lambda>_. True), os_sync_ok = (\<lambda>_. True)\<rparr>"

definition sample_fs :: fs where
  "sample_fs = [[Normal ''keys''] \<mapsto> DirNode 0x1C0, [Normal ''keys'', Normal ''old''] \<mapsto> FileNode 0x1A4 [65]]"

text \<open>One scalar value per byte: a stand-in for Base64 in the witnesses.\<close>

definition plain_encode :: "bytes \<Rightarrow> utext" where "plain_encode b = map (\<lambda>w. 256 + unat w) b"
definition plain_decode :: "utext \<Rightarrow> bytes option" where "plain_decode s = Some (map (\<lambda>c. of_nat (c - 256)) s)"

lemma write_private_key_never_overwrites_witness:
  "fst (client_write_private_key plain_encode sample_os sample_fs [Normal ''keys'', Normal ''old''] [1]
       :: fs \<times> (plain_error key_error + unit)) [Normal ''keys'', Normal ''old''] = Some (FileNode 0x1A4 [65])
   \<and> isl (snd (client_write_private_key plain_encode sample_os sample_fs [Normal ''keys'', Normal ''old''] [1])
       :: plain_error key_error + unit)"
  using write_private_key_never_overwrites [where fs = sample_fs and q = "[Normal ''keys'', Normal ''old'']"
      and n = "FileNode 0x1A4 [65]" and p = "[Normal ''keys'', Normal ''old'']" and encode = plain_encode
      and os = sample_os and k = "[1]" and 'e = plain_error and api = plain_noise]
  by (simp add: place_def sample_fs_def)

text \<open>C26: A key that was written can be read back, and nobody else can read it: after a successful
  \<open>write_private_key\<close> the file holds the key, grants nothing to group and world, and stands in a
  directory that grants nothing to them either; every other file is as it was.\<close>

theorem private_key_round_trip:
  assumes "client_write_private_key encode os fs p k = (fs', Inr u :: 'e key_error + unit)"
    and "decode (encode k) = Some k" and "\<forall>c \<in> set (encode k). \<not> white_space c"
    and "length k = 32" and "\<not> bit (os_umask os) 8"
  shows "client_read_private_key decode fs' p = (Inr k :: 'd key_error + bytes)
    \<and> (\<exists>m s. fs' (place p) = Some (FileNode m s) \<and> m AND 0x3F = 0)
    \<and> (\<exists>d m. d = (case path_parent p of None \<Rightarrow> [CurDir] | Some d \<Rightarrow> if d = [] then [CurDir] else d)
         \<and> fs' (place d) = Some (DirNode m) \<and> m AND 0x3F = 0
         \<and> (\<forall>q. q = place p \<or> q = place d \<or> fs' q = fs q))"
  using assms by (rule written_key_reads_back)

lemma private_key_round_trip_witness:
  "client_read_private_key plain_decode
     (fst (client_write_private_key plain_encode sample_os sample_fs [Normal ''keys'', Normal ''new''] (replicate 32 7)
        :: fs \<times> (unit key_error + unit)))
     [Normal ''keys'', Normal ''new''] = (Inr (replicate 32 7) :: unit key_error + bytes)"
proof -
  let ?p = "[Normal ''keys'', Normal ''new'']"
  let ?w = "client_write_private_key plain_encode sample_os sample_fs ?p (replicate 32 7) :: fs \<times> (unit key_error + unit)"
  have "snd ?w = Inr ()"
    by (simp add: client_write_private_key_def client_prepare_private_key_parent_def path_parent_def
        path_exists_def numeral_eq_Suc place_def sample_fs_def sample_os_def
        client_enforce_private_parent_permissions_def symlink_metadata_def open_create_new_def write_file_def)
  then have w: "?w = (fst ?w, Inr ())" by (metis prod.collapse)
  show ?thesis
    by (rule private_key_round_trip [OF w, THEN conjunct1])
       (simp_all add: plain_encode_def plain_decode_def white_space_def sample_os_def bit_simps)
qed

text \<open>What the server reads as its private keys: \<open>read_server_private_keys\<close> returns keys exactly
  when each configured path, the primary one first, is a regular file (not a link) that the owner
  can read and group and world cannot touch, holding the Base64 form of 32 bytes; the keys come in
  the order of the paths.\<close>

theorem server_keys_come_from_private_files:
  "server_read_private_keys decode fs primary additional = (Inr keys :: 'e key_error + bytes list) \<longleftrightarrow>
     list_all2 (\<lambda>p k. \<exists>m s. fs (place p) = Some (FileNode m s) \<and> m AND 0x3F = 0 \<and> m AND 0x100 \<noteq> 0
        \<and> decode (trim s) = Some k \<and> length k = 32) (primary # additional) keys"
proof -
  have "server_collect_keys decode fs ps = (Inr ks :: 'e key_error + bytes list) \<longleftrightarrow>
      list_all2 (\<lambda>p k. \<exists>m s. fs (place p) = Some (FileNode m s) \<and> m AND 0x3F = 0 \<and> m AND 0x100 \<noteq> 0
        \<and> decode (trim s) = Some k \<and> length k = 32) ps ks" for ps ks
    by (induction ps arbitrary: ks)
       (auto simp: rbind_Inr_iff map_err_Inr_iff read_private_key_same read_private_key_iff private_mode_def
         list_all2_Cons1)
  then show ?thesis by (simp only: server_read_private_keys_def)
qed

end
