(* ===== verification/Session.thy ===== *)
theory Session
  imports Copy_Loops Handshake Client_Config Server_Config Key_Files
begin

text \<open>
  One session of each binary, from the accepted connection to the relay: \<open>handle_local\<close>,
  \<open>run_noise\<close>, \<open>complete_noise_handshake\<close> and \<open>verify_remote_noise\<close> of the client,
  \<open>handle_outer\<close> and \<open>run_noise\<close> of the server.

  A session is a computation with two results: the list of the things it did to the world, in order
  (\<open>action\<close>), and its \<open>Result\<close>.  What the world answers is a record (\<open>client_env\<close>,
  \<open>server_env\<close>): the outcome of each socket option, connection and write, the bytes that will arrive
  (\<open>net_stream\<close>), which branch wins each \<open>select!\<close>, the file system, and the relay that runs at
  the end.  Base64, the texts of foreign errors and the Noise library are arguments.
\<close>

section \<open>Computations\<close>

datatype action =
    ConnectRemote utext
  | TlsConnect utext
  | TlsAccept
  | Sent bytes
  | Flushed
  | MarkedHandshake
  | ConnectDestination socket_addr
  | StartedRelay

type_synonym ('err, 'a) run = "action list \<times> ('err + 'a)"

definition run_lift :: "'err + 'a \<Rightarrow> ('err, 'a) run" where
  "run_lift r = ([], r)"

definition run_do :: "action \<Rightarrow> 'err + 'a \<Rightarrow> ('err, 'a) run" where
  "run_do a r = ([a], r)"

definition run_bind :: "('err, 'a) run \<Rightarrow> ('a \<Rightarrow> ('err, 'b) run) \<Rightarrow> ('err, 'b) run" where
  "run_bind m k =
     (case m of
        (tr, Inl e) \<Rightarrow> (tr, Inl e)
      | (tr, Inr x) \<Rightarrow> (case k x of (tr', r) \<Rightarrow> (tr @ tr', r)))"

lemma run_bind_simps [simp]:
  "run_bind (tr, Inl e) k = (tr, Inl e)"
  "run_bind (tr, Inr x) k = (tr @ fst (k x), snd (k x))"
  by (simp_all add: run_bind_def split: prod.splits)

lemma run_lift_simps [simp]: "fst (run_lift r) = []" "snd (run_lift r) = r"
  by (simp_all add: run_lift_def)

lemma run_bind_lift [simp]:
  "run_bind (run_lift (Inl e)) k = run_lift (Inl e)"
  "run_bind (run_lift (Inr x)) k = k x"
  by (simp_all add: run_lift_def)

lemma run_bind_do [simp]:
  "run_bind (run_do a (Inl e)) k = run_do a (Inl e)"
  "run_bind (run_do a (Inr x)) k = (a # fst (k x), snd (k x))"
  by (simp_all add: run_do_def)

section \<open>Races\<close>

text \<open>\<open>select!\<close> between \<open>timeout(d, op)\<close> and the shutdown channel: who is first.  An operation that
  never completes runs into the timeout.\<close>

datatype race = OpFirst | TimeoutFirst | ShutdownFirst

definition race_timeout :: "race \<Rightarrow> string \<Rightarrow> string \<Rightarrow> (anyhow + 'a) poll \<Rightarrow> anyhow + 'a" where
  "race_timeout r elapsed msg op =
     (case r of
        ShutdownFirst \<Rightarrow> Inl [''shutdown requested'']
      | TimeoutFirst \<Rightarrow> Inl [msg, elapsed]
      | OpFirst \<Rightarrow> (case op of Ready x \<Rightarrow> x | Pending \<Rightarrow> Inl [msg, elapsed]))"

lemma race_timeout_Inr [result_iff]:
  "race_timeout r elapsed msg op = Inr x \<longleftrightarrow> r = OpFirst \<and> op = Ready (Inr x)"
  by (cases r; cases op) (simp_all add: race_timeout_def)

text \<open>The texts of errors that come from other crates.\<close>

record 'e texts =
  tx_elapsed :: string
  tx_io :: "io_error \<Rightarrow> string"
  tx_snow :: "'e \<Rightarrow> anyhow"
  tx_key :: "'e key_error \<Rightarrow> anyhow"

fun wire_error_chain :: "'e texts \<Rightarrow> wire_error \<Rightarrow> anyhow" where
  "wire_error_chain tx (WireIo e) = [tx_io tx e]"
| "wire_error_chain tx (InvalidFrameLength n) = [''invalid frame length '' @ show_nat n]"
| "wire_error_chain tx OversizedFrame = [''received oversized protocol frame'']"

definition tunnel_err :: "'e texts \<Rightarrow> 'e tunnel_error + 'a \<Rightarrow> anyhow + 'a" where
  "tunnel_err tx r = map_err (tunnel_error_chain (tx_snow tx)) r"

text \<open>A reader's result with the state of the stream behind it.\<close>

definition with_stream :: "('x \<Rightarrow> anyhow) \<Rightarrow> ('x + 'a) poll \<times> 'r \<Rightarrow> (anyhow + 'a \<times> 'r) poll" where
  "with_stream f m =
     (case m of
        (Pending, s) \<Rightarrow> Pending
      | (Ready (Inl e), s) \<Rightarrow> Ready (Inl (f e))
      | (Ready (Inr x), s) \<Rightarrow> Ready (Inr (x, s)))"

lemma with_stream_Inr [result_iff]:
  "with_stream f m = Ready (Inr (x, s)) \<longleftrightarrow> m = (Ready (Inr x), s)"
  by (auto simp: with_stream_def split: prod.splits poll.splits sum.splits)

section \<open>The client\<close>

record ('t, 'e) client_env =
  ce_shutdown :: bool
  ce_local_nodelay :: "anyhow + unit"
  ce_local_keepalive :: "anyhow + unit"
  ce_connect :: "(anyhow + unit) poll"
  ce_connect_race :: race
  ce_remote_nodelay :: "anyhow + unit"
  ce_remote_keepalive :: "anyhow + unit"
  ce_valid_server_name :: "utext \<Rightarrow> bool"
  ce_tls :: "(anyhow + unit) poll"
  ce_tls_race :: race
  ce_fs :: fs
  ce_decode :: "utext \<Rightarrow> bytes option"
  ce_write_preface :: "anyhow + unit"
  ce_write_first :: "anyhow + unit"
  ce_flush :: "anyhow + unit"
  ce_incoming :: net_stream
  ce_reply_race :: race
  ce_relay :: "'t cipher_cell \<Rightarrow> net_stream \<Rightarrow> anyhow + unit"
  ce_texts :: "'e texts"

definition tls_server_name :: "(utext \<Rightarrow> bool) \<Rightarrow> client_outer_tls \<Rightarrow> anyhow + utext" where
  "tls_server_name valid c =
     rbind (ok_or (cot_server_name c) [''outer_tls.server_name is required when outer TLS is enabled'']) (\<lambda>name.
       if valid name then Inr name else Inl [''outer_tls.server_name is not a valid DNS name''])"

definition enable_tcp_keepalive :: "anyhow + unit \<Rightarrow> anyhow + unit" where
  "enable_tcp_keepalive set_keepalive = context_msg ''could not enable TCP keepalive'' set_keepalive"

text \<open>\<open>complete_noise_handshake\<close>; the timeout here does not race with shutdown, so a
  \<open>ShutdownFirst\<close> among the answers counts as the timeout.\<close>

definition no_shutdown :: "race \<Rightarrow> race" where
  "no_shutdown r = (if r = ShutdownFirst then TimeoutFirst else r)"

definition complete_noise_handshake ::
    "('p, 'b, 'h, 't, 'e) noise_lib \<Rightarrow> ('t, 'e) client_env \<Rightarrow> bytes \<Rightarrow> bytes
       \<Rightarrow> (anyhow, 't cipher_cell \<times> net_stream) run" where
  "complete_noise_handshake api env private server =
     run_bind (run_do (Sent (preface_encode V1)) (ce_write_preface env)) (\<lambda>_.
     run_bind (run_lift (tunnel_err (ce_texts env) (client_handshake_new api private server))) (\<lambda>ch.
     (case first_message api ch of (ch, r) \<Rightarrow>
     run_bind (run_lift (context_msg ''Noise handshake failed'' (tunnel_err (ce_texts env) r))) (\<lambda>first.
     run_bind (run_do (Sent first) (ce_write_first env)) (\<lambda>_.
     run_bind (run_do Flushed (ce_flush env)) (\<lambda>_.
     run_bind (run_lift (race_timeout (no_shutdown (ce_reply_race env)) (tx_elapsed (ce_texts env))
         ''Noise handshake timed out''
         (with_stream (wire_error_chain (ce_texts env)) (client_read_handshake_frame net_ops (ce_incoming env)))))
       (\<lambda>(reply, remote).
     (case client_finish api ch reply of (ch, r) \<Rightarrow>
       run_lift (rbind (context_msg ''Noise handshake failed'' (tunnel_err (ce_texts env) r))
         (\<lambda>session. Inr (session, remote)))))))))))"

definition client_run_noise ::
    "('p, 'b, 'h, 't, 'e) noise_lib \<Rightarrow> ('t, 'e) client_env \<Rightarrow> client_config \<Rightarrow> (anyhow, unit) run" where
  "client_run_noise api env config =
     run_bind (run_lift (map_err (tx_key (ce_texts env))
         (client_read_private_key (ce_decode env) (ce_fs env) (path_components (cc_private_key_file config)))))
       (\<lambda>private.
     run_bind (run_lift (map_err (tx_key (ce_texts env))
         (client_decode_public_key (ce_decode env) (cc_server_public_key config)))) (\<lambda>server.
     run_bind (complete_noise_handshake api env private server) (\<lambda>(session, remote).
     run_bind (run_do MarkedHandshake (Inr ())) (\<lambda>_.
       run_do StartedRelay (ce_relay env session remote)))))"

definition handle_local ::
    "('p, 'b, 'h, 't, 'e) noise_lib \<Rightarrow> ('t, 'e) client_env \<Rightarrow> client_config \<Rightarrow> bool \<Rightarrow> (anyhow, unit) run" where
  "handle_local api env config tls =
     (if ce_shutdown env then run_lift (Inl [''shutdown requested''])
      else
        run_bind (run_lift (context_msg ''local TCP nodelay setup failed'' (ce_local_nodelay env))) (\<lambda>_.
        run_bind (run_lift (context_msg ''local TCP keepalive setup failed''
            (enable_tcp_keepalive (ce_local_keepalive env)))) (\<lambda>_.
        run_bind (run_do (ConnectRemote (cc_remote_address config))
            (race_timeout (ce_connect_race env) (tx_elapsed (ce_texts env)) ''remote connect timed out''
              (ce_connect env))) (\<lambda>_.
        run_bind (run_lift (context_msg ''remote TCP nodelay setup failed'' (ce_remote_nodelay env))) (\<lambda>_.
        run_bind (run_lift (context_msg ''remote TCP keepalive setup failed''
            (enable_tcp_keepalive (ce_remote_keepalive env)))) (\<lambda>_.
          if tls
          then run_bind (run_lift (tls_server_name (ce_valid_server_name env) (cc_outer_tls config))) (\<lambda>name.
               run_bind (run_do (TlsConnect name)
                   (race_timeout (ce_tls_race env) (tx_elapsed (ce_texts env)) ''outer TLS handshake timed out''
                     (ce_tls env))) (\<lambda>_.
                 client_run_noise api env config))
          else client_run_noise api env config))))))"

text \<open>\<open>verify_remote_noise\<close> of \<open>doctor\<close>: the handshake without a relay and without a shutdown channel;
  building the TLS connector is an answer of the environment.\<close>

definition verify_remote_noise ::
    "('p, 'b, 'h, 't, 'e) noise_lib \<Rightarrow> ('t, 'e) client_env \<Rightarrow> (anyhow + unit) \<Rightarrow> client_config
       \<Rightarrow> bytes \<Rightarrow> bytes \<Rightarrow> (anyhow, unit) run" where
  "verify_remote_noise api env tls_connector config private server =
     run_bind (run_do (ConnectRemote (cc_remote_address config))
         (race_timeout (no_shutdown (ce_connect_race env)) (tx_elapsed (ce_texts env))
           ''remote connect timed out'' (ce_connect env))) (\<lambda>_.
     run_bind (run_lift (ce_remote_nodelay env)) (\<lambda>_.
     run_bind (run_lift (enable_tcp_keepalive (ce_remote_keepalive env))) (\<lambda>_.
       if cot_enabled (cc_outer_tls config)
       then run_bind (run_lift tls_connector) (\<lambda>_.
            run_bind (run_lift (tls_server_name (ce_valid_server_name env) (cc_outer_tls config))) (\<lambda>name.
            run_bind (run_do (TlsConnect name)
                (race_timeout (no_shutdown (ce_tls_race env)) (tx_elapsed (ce_texts env))
                  ''outer TLS handshake timed out'' (ce_tls env))) (\<lambda>_.
            run_bind (complete_noise_handshake api env private server) (\<lambda>_.
              run_lift (Inr ())))))
       else run_bind (complete_noise_handshake api env private server) (\<lambda>_. run_lift (Inr ())))))"

section \<open>The server\<close>

record ('t, 'e) server_env =
  se_shutdown :: bool
  se_outer_nodelay :: "anyhow + unit"
  se_outer_keepalive :: "anyhow + unit"
  se_tls :: "(anyhow + unit) poll"
  se_tls_race :: race
  se_fs :: fs
  se_decode :: "utext \<Rightarrow> bytes option"
  se_incoming :: net_stream
  se_preface_race :: race
  se_first_race :: race
  se_write_reply :: "anyhow + unit"
  se_flush :: "anyhow + unit"
  se_connect :: "(anyhow + unit) poll"
  se_connect_race :: race
  se_destination_nodelay :: "anyhow + unit"
  se_destination_keepalive :: "anyhow + unit"
  se_relay :: "'t cipher_cell \<Rightarrow> net_stream \<Rightarrow> anyhow + unit"
  se_texts :: "'e texts"

text \<open>\<open>collect::<Result<_>>\<close> over the configured clients.\<close>

fun decode_clients :: "(utext \<Rightarrow> bytes option) \<Rightarrow> authorised_client list \<Rightarrow> 'e key_error + bytes list" where
  "decode_clients decode [] = Inr []"
| "decode_clients decode (c # cs) =
     rbind (server_decode_public_key decode (ac_public_key c)) (\<lambda>k.
     rbind (decode_clients decode cs) (\<lambda>ks. Inr (k # ks)))"

text \<open>The error of a server session is \<open>None\<close> when it panicked.\<close>

definition failing :: "anyhow + 'a \<Rightarrow> anyhow option + 'a" where
  "failing r = map_err Some r"

definition server_run_noise ::
    "('p, 'b, 'h, 't, 'e) noise_lib \<Rightarrow> ('t, 'e) server_env \<Rightarrow> server_config \<Rightarrow> (anyhow option, unit) run" where
  "server_run_noise api env config =
     run_bind (run_lift (failing (map_err (tx_key (se_texts env))
         (server_read_private_keys (se_decode env) (se_fs env)
           (path_components (id_private_key_file (sc_identity config)))
           (map path_components (id_additional_files (sc_identity config))))))) (\<lambda>private_keys.
     run_bind (run_lift (failing (map_err (tx_key (se_texts env))
         (decode_clients (se_decode env) (sc_authorized_clients config))))) (\<lambda>clients.
     run_bind (run_lift (failing (race_timeout (se_preface_race env) (tx_elapsed (se_texts env)) ''preface timeout''
         (with_stream (\<lambda>e. [tx_io (se_texts env) e]) (rd_read_exact net_ops (se_incoming env) 6)))))
       (\<lambda>(preface, outer).
     run_bind (run_lift (failing (tunnel_err (se_texts env) (new_with_static_identities private_keys clients)))) (\<lambda>handshake.
     (case accept_preface handshake preface of (handshake, r) \<Rightarrow>
     run_bind (run_lift (failing (tunnel_err (se_texts env) r))) (\<lambda>_.
     run_bind (run_lift (failing (race_timeout (se_first_race env) (tx_elapsed (se_texts env)) ''Noise handshake timeout''
         (with_stream (wire_error_chain (se_texts env)) (server_read_handshake_frame net_ops outer))))) (\<lambda>(first, outer).
     (case receive_client api handshake first of (handshake, r) \<Rightarrow>
     run_bind (run_lift (case r of
           None \<Rightarrow> Inl None
         | Some r \<Rightarrow> failing (context_msg ''Noise handshake failed'' (tunnel_err (se_texts env) r)))) (\<lambda>reply.
     (case reply_message api reply of (reply, r) \<Rightarrow>
     run_bind (run_lift (failing (tunnel_err (se_texts env) r))) (\<lambda>message.
     run_bind (run_do (Sent message) (failing (se_write_reply env))) (\<lambda>_.
     run_bind (run_do Flushed (failing (se_flush env))) (\<lambda>_.
     run_bind (run_lift (failing (tunnel_err (se_texts env) (into_session api reply)))) (\<lambda>session.
     run_bind (run_do MarkedHandshake (Inr ())) (\<lambda>_.
     run_bind (run_do (ConnectDestination (sc_destination_address config))
         (failing (race_timeout (se_connect_race env) (tx_elapsed (se_texts env)) ''destination connect timeout''
           (se_connect env)))) (\<lambda>_.
     run_bind (run_lift (failing (se_destination_nodelay env))) (\<lambda>_.
     run_bind (run_lift (failing (enable_tcp_keepalive (se_destination_keepalive env)))) (\<lambda>_.
       run_do StartedRelay (failing (se_relay env session outer))))))))))))))))))))"

definition handle_outer ::
    "('p, 'b, 'h, 't, 'e) noise_lib \<Rightarrow> ('t, 'e) server_env \<Rightarrow> server_config \<Rightarrow> bool \<Rightarrow> (anyhow option, unit) run" where
  "handle_outer api env config tls =
     (if se_shutdown env then run_lift (failing (Inl [''shutdown requested'']))
      else
        run_bind (run_lift (failing (se_outer_nodelay env))) (\<lambda>_.
        run_bind (run_lift (failing (enable_tcp_keepalive (se_outer_keepalive env)))) (\<lambda>_.
          if tls
          then run_bind (run_do TlsAccept
                 (failing (race_timeout (se_tls_race env) (tx_elapsed (se_texts env)) ''outer TLS handshake timed out''
                   (se_tls env)))) (\<lambda>_. server_run_noise api env config)
          else server_run_noise api env config)))"

section \<open>What a session did\<close>

lemma fst_run_bind_lift [simp]:
  "fst (run_bind (run_lift r) k) = (case r of Inl e \<Rightarrow> [] | Inr x \<Rightarrow> fst (k x))"
  by (cases r) simp_all

lemma fst_run_bind_do [simp]:
  "fst (run_bind (run_do a r) k) = a # (case r of Inl e \<Rightarrow> [] | Inr x \<Rightarrow> fst (k x))"
  by (cases r) (simp_all add: run_do_def)

lemma fst_run_do [simp]: "fst (run_do a r) = [a]" "snd (run_do a r) = r"
  by (simp_all add: run_do_def)

lemma failing_Inr [result_iff]: "failing r = Inr x \<longleftrightarrow> r = Inr x"
  by (simp add: failing_def map_err_Inr_iff)

lemma tunnel_err_Inr [result_iff]: "tunnel_err tx r = Inr x \<longleftrightarrow> r = Inr x"
  by (simp add: tunnel_err_def map_err_Inr_iff)

text \<open>Everything a server session does after reading happens behind an accepted client message.\<close>

lemma server_run_noise_trace:
  "fst (server_run_noise api env config) = [] \<or>
   (\<exists>keys clients preface outer sh sh1 first outer2 sh2 reply message reply2.
      server_read_private_keys (se_decode env) (se_fs env)
           (path_components (id_private_key_file (sc_identity config)))
           (map path_components (id_additional_files (sc_identity config))) = (Inr keys :: 'e key_error + _)
      \<and> decode_clients (se_decode env) (sc_authorized_clients config) = (Inr clients :: 'e key_error + _)
      \<and> rd_read_exact net_ops (se_incoming env) 6 = (Ready (Inr preface), outer)
      \<and> new_with_static_identities keys clients = (Inr sh :: 'e tunnel_error + _)
      \<and> accept_preface sh preface = (sh1, Inr () :: 'e tunnel_error + _)
      \<and> server_read_handshake_frame net_ops outer = (Ready (Inr first), outer2)
      \<and> receive_client (api :: ('p, 'b, 'h, 't, 'e) noise_lib) sh1 first = (sh2, Some (Inr reply))
      \<and> reply_message api reply = (reply2, Inr message)
      \<and> prefix (fst (server_run_noise api env config))
           [Sent message, Flushed, MarkedHandshake, ConnectDestination (sc_destination_address config), StartedRelay])"
  unfolding server_run_noise_def
  by (auto simp: result_iff split: sum.splits prod.splits option.splits)

end
