(* ===== verification/Session_Traces.thy ===== *)
theory Session_Traces
  imports Session
begin

text \<open>
  Lemmas about the sessions of \<open>Session\<close>: what a session that got to a point must have seen
  (inversion of its trace), that a server session does not panic, and what it does when nothing goes
  wrong.  Also the facts about reading from a \<open>net_stream\<close> that they need.
\<close>

lemma net_exact_Ready:
  assumes "rd_read_exact net_ops r n = (Ready (Inr b), r')"
  shows "n \<le> length (net_content r) \<and> b = take n (net_content r) \<and> net_content r' = drop n (net_content r)"
proof (cases "n \<le> length (net_content r)")
  case True
  from net.exact_data [OF this] assms True show ?thesis by auto
next
  case False
  then have "length (net_content r) < n" by simp
  from net.exact_short [OF this] assms show ?thesis by (cases "net_end r") auto
qed

lemma net_handshake_frame_Ready:
  assumes "client_read_handshake_frame net_ops r = (Ready (Inr f), r')"
  shows "net_content r = f @ net_content r'"
  using net.read_handshake_frame_parses [of r] assms
  by (cases "net_end r") (auto simp: parse_handshake_def Let_def split: if_splits)

lemma accept_preface_Inr:
  "accept_preface sh v = (sh', Inr u :: 'e tunnel_error + unit) \<Longrightarrow>
     v = PREFACE \<and> sh' = sh\<lparr>preface_accepted := True\<rparr>"
  by (auto simp: accept_preface_def preface_parse_accepts preface_encode_def split: if_splits sum.splits)

text \<open>The client that a server session serves.\<close>

definition authorised_by ::
    "('p, 'b, 'h, 't, 'e) noise_lib \<Rightarrow> ('t, 'e) server_env \<Rightarrow> server_config \<Rightarrow> bytes \<Rightarrow> bytes \<Rightarrow> bytes \<Rightarrow> 'h \<Rightarrow> bool" where
  "authorised_by api env config k m rest st \<longleftrightarrow>
     (\<exists>keys clients.
        server_read_private_keys (se_decode env) (se_fs env)
           (path_components (id_private_key_file (sc_identity config)))
           (map path_components (id_additional_files (sc_identity config))) = (Inr keys :: 'e key_error + _)
        \<and> decode_clients (se_decode env) (sc_authorized_clients config) = (Inr clients :: 'e key_error + _)
        \<and> k \<in> set keys \<and> identity_accepts api (set clients) m k st
        \<and> net_content (se_incoming env) = PREFACE @ framed handshake_header m @ rest)"

lemma server_run_noise_authorised:
  "fst (server_run_noise api env config) = []
   \<or> (\<exists>k m rest st message. authorised_by api env config k m rest st
        \<and> prefix (fst (server_run_noise api env config))
           [Sent message, Flushed, MarkedHandshake, ConnectDestination (sc_destination_address config), StartedRelay])"
  using server_run_noise_trace [of api env config]
proof (elim disjE exE conjE)
  fix keys clients preface outer sh sh1 first outer2 sh2 reply message reply2
  assume keys: "server_read_private_keys (se_decode env) (se_fs env)
           (path_components (id_private_key_file (sc_identity config)))
           (map path_components (id_additional_files (sc_identity config))) = (Inr keys :: 'e key_error + _)"
    and clients: "decode_clients (se_decode env) (sc_authorized_clients config) = (Inr clients :: 'e key_error + _)"
    and preface: "rd_read_exact net_ops (se_incoming env) 6 = (Ready (Inr preface), outer)"
    and sh: "new_with_static_identities keys clients = (Inr sh :: 'e tunnel_error + _)"
    and sh1: "accept_preface sh preface = (sh1, Inr () :: 'e tunnel_error + _)"
    and first: "server_read_handshake_frame net_ops outer = (Ready (Inr first), outer2)"
    and reply: "receive_client api sh1 first = (sh2, Some (Inr reply))"
    and tr: "prefix (fst (server_run_noise api env config))
           [Sent message, Flushed, MarkedHandshake, ConnectDestination (sc_destination_address config), StartedRelay]"
  from reply [unfolded receive_client_accepts] obtain m pre k post st where
    m: "decode_handshake_frame first = (Inr m :: 'e tunnel_error + bytes)"
    and ids: "static_identities sh1 = Some (pre @ k # post)" "identity_accepts api (allow_list sh1) m k st" by blast
  from m have "first = framed handshake_header m" by (simp add: hs_frame.decode_iff)
  moreover from sh1 have p: "preface = PREFACE" "sh1 = sh\<lparr>preface_accepted := True\<rparr>"
    using accept_preface_Inr by blast+
  ultimately have "net_content (se_incoming env) = PREFACE @ framed handshake_header m @ net_content outer2"
    using net_exact_Ready [OF preface] net_handshake_frame_Ready [OF first [unfolded read_handshake_frame_same]]
    by (metis append_take_drop_id)
  moreover have "k \<in> set keys" "allow_list sh1 = set clients"
    using sh ids(1) p(2) by (auto simp: new_with_static_identities_Inr)
  ultimately show ?thesis
    using keys clients ids(2) tr unfolding authorised_by_def by (metis (no_types, lifting))
qed simp

lemma snd_run_bind_lift [simp]:
  "snd (run_bind (run_lift r) k) = (case r of Inl e \<Rightarrow> Inl e | Inr x \<Rightarrow> snd (k x))"
  by (cases r) simp_all

lemma snd_run_bind_do [simp]:
  "snd (run_bind (run_do a r) k) = (case r of Inl e \<Rightarrow> Inl e | Inr x \<Rightarrow> snd (k x))"
  by (cases r) (simp_all add: run_do_def)

lemma failing_not_None [simp]: "failing r \<noteq> Inl None"
  by (cases r) (simp_all add: failing_def)

lemma failing_Inl: "failing r = Inl e \<Longrightarrow> e \<noteq> None"
  by (cases r) (auto simp: failing_def)

lemma run_bind_no_panic:
  "snd m \<noteq> Inl None \<Longrightarrow> (\<And>x. snd m = Inr x \<Longrightarrow> snd (k x) \<noteq> Inl None) \<Longrightarrow> snd (run_bind m k) \<noteq> Inl None"
  by (cases m; cases "snd m") auto

lemma receive_after_accept_no_panic:
  assumes "new_with_static_identities keys clients = (Inr sh :: 'e tunnel_error + _)"
    and "accept_preface sh v = (sh1, r :: 'e tunnel_error + unit)"
    and "receive_client api sh1 f = (sh2, r2)"
  shows "r2 \<noteq> None"
  using accept_preface_inv [OF new_with_static_identities_inv [OF assms(1)], of v]
    receive_client_no_panic [of sh1 api f] assms(2,3) by (metis fst_conv snd_conv)

lemma server_run_noise_no_panic: "snd (server_run_noise api env config) \<noteq> Inl None"
  unfolding server_run_noise_def
  by (auto simp del: not_None_eq simp: failing_Inr tunnel_err_Inr dest!: failing_Inl
      dest: receive_after_accept_no_panic split: sum.splits prod.splits option.splits)

lemma fst_run_bind:
  "fst (run_bind m k) = fst m @ (case snd m of Inl e \<Rightarrow> [] | Inr x \<Rightarrow> fst (k x))"
  by (cases m; cases "snd m") auto

lemma snd_run_bind:
  "snd (run_bind m k) = (case snd m of Inl e \<Rightarrow> Inl e | Inr x \<Rightarrow> snd (k x))"
  by (cases m; cases "snd m") auto

lemma ik_agreement_steps:
  assumes ik: "ik_agreement api cpriv cpub sprivs spriv spub ta tb"
    and ids: "spriv \<in> set sprivs" and auth: "cpub \<in> set clients" "length cpub = 32"
  obtains ch0 ch1 m1 reply reply2 m2 ch2 where
    "client_handshake_new api cpriv spub = Inr ch0"
    "first_message api ch0 = (ch1, Inr (framed handshake_header m1))" "length m1 \<le> MAX_HANDSHAKE_MESSAGE"
    "try_identities api (set clients) m1 sprivs False None = Some (Inr reply)"
    "reply_message api reply = (reply2, Inr (framed handshake_header m2))" "length m2 \<le> MAX_HANDSHAKE_MESSAGE"
    "client_finish api ch1 (framed handshake_header m2) = (ch2, Inr (transport_session_new ta))"
    "into_session api reply2 = Inr (transport_session_new tb)"
proof -
  from ik obtain b b1 b2 i0 m1 i1 r0 pl1 r1 m2 r2 pl2 i2 where
    c: "noise_builder api = Inr b" "n_local_private_key api b cpriv = Inr b1"
      "n_remote_public_key api b1 spub = Inr b2" "n_build_initiator api b2 = Inr i0"
    and m1: "n_hs_write api i0 [] MAX_HANDSHAKE_MESSAGE = Inr (m1, i1)" "length m1 \<le> MAX_HANDSHAKE_MESSAGE"
    and r: "build_responder_for api spriv = Inr r0"
      "n_hs_read api r0 m1 MAX_HANDSHAKE_MESSAGE = Inr (pl1, r1)" "n_remote_static api r1 = Some cpub"
    and others: "\<forall>k \<in> set sprivs. k \<noteq> spriv \<longrightarrow>
        (\<exists>st e. build_responder_for api k = Inr st \<and> n_hs_read api st m1 MAX_HANDSHAKE_MESSAGE = Inl e)"
    and m2: "n_hs_write api r1 [] MAX_HANDSHAKE_MESSAGE = Inr (m2, r2)" "length m2 \<le> MAX_HANDSHAKE_MESSAGE"
    and fin: "n_hs_read api i1 m2 MAX_HANDSHAKE_MESSAGE = Inr (pl2, i2)"
      "n_into_transport api i2 = Inr ta" "n_into_transport api r2 = Inr tb"
    unfolding ik_agreement_def by blast
  have "identity_accepts api (set clients) m1 spriv r1"
    using r auth by (auto simp: identity_accepts_def)
  moreover have "\<forall>k \<in> set sprivs. k \<noteq> spriv \<longrightarrow> identity_rejects api (set clients) m1 k"
    using others unfolding identity_rejects_def by blast
  ultimately have accept: "try_identities api (set clients) m1 sprivs False None
      = Some (Inr \<lparr>sr_state = Some r1, sent_reply = False\<rparr>)"
    using ids by (intro try_identities_finds)
  show ?thesis
    by (rule that [where ?m1.0 = m1 and ?m2.0 = m2 and ?ch0.0 = "\<lparr>ch_state = Some i0, sent_first = False\<rparr>"
          and ?ch1.0 = "\<lparr>ch_state = Some i1, sent_first = True\<rparr>"
          and ?ch2.0 = "\<lparr>ch_state = None, sent_first = True\<rparr>"
          and ?reply2.0 = "\<lparr>sr_state = Some r2, sent_reply = True\<rparr>", OF _ _ m1(2) accept])
       (use c m1 m2 fin in \<open>simp_all add: client_handshake_new_def first_message_def encode_handshake_frame_eq
         reply_message_def client_finish_def hs_frame.decode_framed into_session_def\<close>)
qed

lemma net_exact_prefix:
  assumes "net_content r = b @ rest"
  obtains r' where "rd_read_exact net_ops r (length b) = (Ready (Inr b), r')" "net_content r' = rest"
  using net.exact_data [of "length b" r] assms by auto

lemma net_reads_framed:
  assumes "net_content r = framed handshake_header m @ rest" and "length m \<le> MAX_HANDSHAKE_MESSAGE"
  obtains r' where "client_read_handshake_frame net_ops r = (Ready (Inr (framed handshake_header m)), r')"
    and "net_content r' = rest"
proof -
  have len: "length (handshake_header (length m)) = 2" by simp
  have "unat (u16_from_be_bytes (handshake_header (length m) ! 0) (handshake_header (length m) ! 1)) = length m"
    using assms(2) by (intro handshake_header_bytes) (simp add: tunnel_limits)
  then have "parse_handshake (net_content r) (net_end r) = (Ready (Inr (framed handshake_header m)), rest)"
    using assms len by (simp add: parse_handshake_def framed_def Let_def nth_append)
  with net.read_handshake_frame_parses [of r] show ?thesis by (metis fst_conv snd_conv that)
qed

definition client_willing :: "('t, 'e) client_env \<Rightarrow> client_config \<Rightarrow> bool" where
  "client_willing env config \<longleftrightarrow>
     \<not> ce_shutdown env \<and> ce_local_nodelay env = Inr () \<and> ce_local_keepalive env = Inr ()
     \<and> ce_connect env = Ready (Inr ()) \<and> ce_connect_race env = OpFirst
     \<and> ce_remote_nodelay env = Inr () \<and> ce_remote_keepalive env = Inr ()
     \<and> (\<exists>name. cot_server_name (cc_outer_tls config) = Some name \<and> ce_valid_server_name env name)
     \<and> ce_tls env = Ready (Inr ()) \<and> ce_tls_race env = OpFirst
     \<and> ce_write_preface env = Inr () \<and> ce_write_first env = Inr () \<and> ce_flush env = Inr ()
     \<and> ce_reply_race env = OpFirst"

definition server_admitting :: "('t, 'e) server_env \<Rightarrow> bool" where
  "server_admitting env \<longleftrightarrow>
     \<not> se_shutdown env \<and> se_outer_nodelay env = Inr () \<and> se_outer_keepalive env = Inr ()
     \<and> se_tls env = Ready (Inr ()) \<and> se_tls_race env = OpFirst
     \<and> se_preface_race env = OpFirst \<and> se_first_race env = OpFirst
     \<and> se_write_reply env = Inr () \<and> se_flush env = Inr ()"

definition server_willing :: "('t, 'e) server_env \<Rightarrow> bool" where
  "server_willing env \<longleftrightarrow>
     server_admitting env \<and> se_connect env = Ready (Inr ()) \<and> se_connect_race env = OpFirst
     \<and> se_destination_nodelay env = Inr () \<and> se_destination_keepalive env = Inr ()"

lemma race_OpFirst [simp]: "race_timeout OpFirst elapsed msg (Ready x) = x"
  by (simp add: race_timeout_def)

lemma with_stream_Ready [simp]: "with_stream f (Ready (Inr x), s) = Ready (Inr (x, s))"
  by (simp add: with_stream_def)

lemma run_Inr_simps [simp]:
  "failing (Inr x) = Inr x" "tunnel_err tx (Inr x) = Inr x" "enable_tcp_keepalive (Inr ()) = Inr ()"
  by (simp_all add: failing_def tunnel_err_def enable_tcp_keepalive_def)

lemma complete_noise_handshake_runs:
  assumes w: "client_willing env config"
    and hs: "client_handshake_new api cpriv spub = Inr ch0" "first_message api ch0 = (ch1, Inr f1)"
      "client_finish api ch1 (framed handshake_header m2) = (ch2, Inr cell)" "length m2 \<le> MAX_HANDSHAKE_MESSAGE"
    and inc: "net_content (ce_incoming env) = framed handshake_header m2 @ rest"
  shows "\<exists>remote. complete_noise_handshake api env cpriv spub =
      ([Sent (preface_encode V1), Sent f1, Flushed], Inr (cell, remote)) \<and> net_content remote = rest"
proof -
  obtain remote where rd: "client_read_handshake_frame net_ops (ce_incoming env)
      = (Ready (Inr (framed handshake_header m2)), remote)" "net_content remote = rest"
    using net_reads_framed [OF inc hs(4)] by blast
  have "complete_noise_handshake api env cpriv spub =
      ([Sent (preface_encode V1), Sent f1, Flushed], Inr (cell, remote))"
    using w rd(1) hs
    by (simp add: complete_noise_handshake_def client_willing_def no_shutdown_def run_lift_def)
  with rd(2) show ?thesis by blast
qed

lemma client_run_noise_runs:
  fixes api :: "('p, 'b, 'h, 't, 'e) noise_lib" and env :: "('t, 'e) client_env"
  assumes w: "client_willing env config"
    and k: "client_read_private_key (ce_decode env) (ce_fs env) (path_components (cc_private_key_file config))
          = (Inr cpriv :: 'e key_error + _)"
      "client_decode_public_key (ce_decode env) (cc_server_public_key config) = (Inr spub :: 'e key_error + _)"
    and hs: "client_handshake_new api cpriv spub = Inr ch0" "first_message api ch0 = (ch1, Inr f1)"
      "client_finish api ch1 (framed handshake_header m2) = (ch2, Inr cell)" "length m2 \<le> MAX_HANDSHAKE_MESSAGE"
    and inc: "net_content (ce_incoming env) = framed handshake_header m2 @ rest"
  shows "\<exists>remote. client_run_noise api env config =
      ([Sent (preface_encode V1), Sent f1, Flushed, MarkedHandshake, StartedRelay], ce_relay env cell remote)
    \<and> net_content remote = rest"
  using complete_noise_handshake_runs [OF w hs inc] k by (auto simp: client_run_noise_def)

lemma client_run_noise_sends:
  fixes api :: "('p, 'b, 'h, 't, 'e) noise_lib" and env :: "('t, 'e) client_env"
  assumes w: "client_willing env config"
    and k: "client_read_private_key (ce_decode env) (ce_fs env) (path_components (cc_private_key_file config))
          = (Inr cpriv :: 'e key_error + _)"
      "client_decode_public_key (ce_decode env) (cc_server_public_key config) = (Inr spub :: 'e key_error + _)"
    and hs: "client_handshake_new api cpriv spub = Inr ch0" "first_message api ch0 = (ch1, Inr f1)"
  shows "\<exists>tr. fst (client_run_noise api env config) = [Sent (preface_encode V1), Sent f1, Flushed] @ tr
    \<and> set tr \<subseteq> {MarkedHandshake, StartedRelay}"
proof -
  have "fst (complete_noise_handshake api env cpriv spub) = [Sent (preface_encode V1), Sent f1, Flushed]"
    using w hs by (auto simp: complete_noise_handshake_def client_willing_def split: sum.splits prod.splits)
  moreover have "fst (client_run_noise api env config) =
      fst (complete_noise_handshake api env cpriv spub)
        @ (case snd (complete_noise_handshake api env cpriv spub) of Inl e \<Rightarrow> [] | Inr x \<Rightarrow> [MarkedHandshake, StartedRelay])"
    using k by (simp add: client_run_noise_def fst_run_bind case_prod_unfold split: sum.splits)
  ultimately show ?thesis by (auto split: sum.splits)
qed

text \<open>What a client session that has come to its relay has seen.\<close>

lemma complete_noise_handshake_Inr:
  assumes "snd (complete_noise_handshake api env private server) = Inr (session, remote)"
  shows "\<exists>ch0 ch1 first reply ch2.
      client_handshake_new api private server = Inr ch0 \<and> first_message api ch0 = (ch1, Inr first)
      \<and> client_read_handshake_frame net_ops (ce_incoming env) = (Ready (Inr reply), remote)
      \<and> client_finish api ch1 reply = (ch2, Inr session)
      \<and> fst (complete_noise_handshake api env private server) = [Sent (preface_encode V1), Sent first, Flushed]"
  using assms
  by (auto simp: complete_noise_handshake_def result_iff split: sum.splits prod.splits)

lemma client_run_noise_relay:
  fixes env :: "('t, 'e) client_env"
  assumes "StartedRelay \<in> set (fst (client_run_noise api env config))"
  shows "\<exists>cpriv spub session remote.
      client_read_private_key (ce_decode env) (ce_fs env) (path_components (cc_private_key_file config))
        = (Inr cpriv :: 'e key_error + _)
      \<and> client_decode_public_key (ce_decode env) (cc_server_public_key config) = (Inr spub :: 'e key_error + _)
      \<and> snd (complete_noise_handshake api env cpriv spub) = Inr (session, remote)
      \<and> fst (client_run_noise api env config)
          = fst (complete_noise_handshake api env cpriv spub) @ [MarkedHandshake, StartedRelay]
      \<and> snd (client_run_noise api env config) = ce_relay env session remote"
proof -
  obtain cpriv where k1:
    "client_read_private_key (ce_decode env) (ce_fs env) (path_components (cc_private_key_file config))
        = (Inr cpriv :: 'e key_error + _)"
    using assms
    by (cases "client_read_private_key (ce_decode env) (ce_fs env)
          (path_components (cc_private_key_file config)) :: 'e key_error + bytes")
       (auto simp: client_run_noise_def)
  obtain spub where k2:
    "client_decode_public_key (ce_decode env) (cc_server_public_key config) = (Inr spub :: 'e key_error + _)"
    using assms k1
    by (cases "client_decode_public_key (ce_decode env) (cc_server_public_key config) :: 'e key_error + bytes")
       (auto simp: client_run_noise_def)
  have "StartedRelay \<notin> set (fst (complete_noise_handshake api env cpriv spub))"
    by (auto simp: complete_noise_handshake_def split: sum.splits prod.splits)
  then show ?thesis
    using assms k1 k2
    by (cases "snd (complete_noise_handshake api env cpriv spub)")
       (auto simp: client_run_noise_def fst_run_bind snd_run_bind)
qed

text \<open>The last part of \<open>server_run_noise\<close>.\<close>

definition server_connect ::
    "('t, 'e) server_env \<Rightarrow> server_config \<Rightarrow> 't cipher_cell \<Rightarrow> net_stream \<Rightarrow> (anyhow option, unit) run" where
  "server_connect env config session outer =
     run_bind (run_do (ConnectDestination (sc_destination_address config))
         (failing (race_timeout (se_connect_race env) (tx_elapsed (se_texts env)) ''destination connect timeout''
           (se_connect env)))) (\<lambda>_.
     run_bind (run_lift (failing (se_destination_nodelay env))) (\<lambda>_.
     run_bind (run_lift (failing (enable_tcp_keepalive (se_destination_keepalive env)))) (\<lambda>_.
       run_do StartedRelay (failing (se_relay env session outer)))))"

lemma failing_Inl_simp [simp]: "failing (Inl e) = Inl (Some e)"
  by (simp add: failing_def)

lemma server_run_noise_admits:
  fixes api :: "('p, 'b, 'h, 't, 'e) noise_lib" and env :: "('t, 'e) server_env"
  assumes w: "server_admitting env"
    and k: "server_read_private_keys (se_decode env) (se_fs env)
           (path_components (id_private_key_file (sc_identity config)))
           (map path_components (id_additional_files (sc_identity config))) = (Inr keys :: 'e key_error + _)"
      "decode_clients (se_decode env) (sc_authorized_clients config) = (Inr clients :: 'e key_error + _)"
      "keys \<noteq> []" "length keys \<le> MAX_SERVER_STATIC_IDENTITIES"
    and hs: "try_identities api (set clients) m1 keys False None = Some (Inr reply)"
      "reply_message api reply = (reply2, Inr f2)" "into_session api reply2 = Inr cell"
      "length m1 \<le> MAX_HANDSHAKE_MESSAGE"
    and inc: "net_content (se_incoming env) = preface_encode V1 @ framed handshake_header m1 @ rest"
  shows "\<exists>outer. server_run_noise api env config =
      ([Sent f2, Flushed, MarkedHandshake] @ fst (server_connect env config cell outer), snd (server_connect env config cell outer))
    \<and> net_content outer = rest"
proof -
  obtain o1 where o1: "rd_read_exact net_ops (se_incoming env) 6 = (Ready (Inr (preface_encode V1)), o1)"
    "net_content o1 = framed handshake_header m1 @ rest"
    using net_exact_prefix [OF inc] by (auto simp: preface_length)
  obtain o2 where o2: "server_read_handshake_frame net_ops o1 = (Ready (Inr (framed handshake_header m1)), o2)"
    "net_content o2 = rest"
    using net_reads_framed [OF o1(2) hs(4)] unfolding read_handshake_frame_same by blast
  have rc: "receive_client api \<lparr>static_identities = Some keys, allow_list = set clients, preface_accepted = True\<rparr>
      (framed handshake_header m1) =
      (\<lparr>static_identities = None, allow_list = set clients, preface_accepted = True\<rparr>, Some (Inr reply))"
    using hs(1,4) by (simp add: receive_client_def hs_frame.decode_framed)
  have "server_run_noise api env config =
      ([Sent f2, Flushed, MarkedHandshake] @ fst (server_connect env config cell o2), snd (server_connect env config cell o2))"
    using w k o1(1) o2(1) hs(2,3) rc
    by (simp add: server_run_noise_def server_admitting_def new_with_static_identities_def accept_preface_def
        server_connect_def)
  with o2(2) show ?thesis by blast
qed

lemma server_run_noise_runs:
  fixes api :: "('p, 'b, 'h, 't, 'e) noise_lib" and env :: "('t, 'e) server_env"
  assumes w: "server_willing env"
    and k: "server_read_private_keys (se_decode env) (se_fs env)
           (path_components (id_private_key_file (sc_identity config)))
           (map path_components (id_additional_files (sc_identity config))) = (Inr keys :: 'e key_error + _)"
      "decode_clients (se_decode env) (sc_authorized_clients config) = (Inr clients :: 'e key_error + _)"
      "keys \<noteq> []" "length keys \<le> MAX_SERVER_STATIC_IDENTITIES"
    and hs: "try_identities api (set clients) m1 keys False None = Some (Inr reply)"
      "reply_message api reply = (reply2, Inr f2)" "into_session api reply2 = Inr cell"
      "length m1 \<le> MAX_HANDSHAKE_MESSAGE"
    and inc: "net_content (se_incoming env) = preface_encode V1 @ framed handshake_header m1 @ rest"
  shows "\<exists>outer. server_run_noise api env config =
      ([Sent f2, Flushed, MarkedHandshake, ConnectDestination (sc_destination_address config), StartedRelay],
       failing (se_relay env cell outer))
    \<and> net_content outer = rest"
proof -
  have "server_connect env config cell outer =
      ([ConnectDestination (sc_destination_address config), StartedRelay], failing (se_relay env cell outer))" for outer
    using w by (simp add: server_connect_def server_willing_def run_do_def)
  then show ?thesis
    using server_run_noise_admits [OF _ k hs inc] w by (simp add: server_willing_def)
qed

end
