(* ===== verification/Secure_Session.thy ===== *)
theory Secure_Session
  imports Noise_Instance
begin

text \<open>
  Properties of the protocol library (\<open>crates/secure-tunnel/src/lib.rs\<close>) as its users see it: both
  ends of an established session in any interleaving (\<open>duplex_step\<close>), sessions that fail closed,
  and what the handshake objects allow.  The concrete library of \<open>Noise_Instance\<close> is used
  by the witnesses only.
\<close>

section \<open>Two sessions talking to each other\<close>

text \<open>
  Both ends of a connection, with the frames in flight in each direction and what each end has
  sealed and opened so far.  A delivery hands the oldest frame in flight to \<open>open_record\<close>; with
  nothing in flight it does nothing.  The ends may act in any order.  \<open>half\<close> is what concerns one
  direction: the frames in flight, what was sealed into it and what was opened from it.
\<close>

record 'e half =
  wire :: "bytes list"
  sealed :: "bytes list"
  opened :: "('e tunnel_error + bytes) list"

datatype duplex_op = SealA bytes | SealB bytes | DeliverA | DeliverB

definition seal_into ::
    "('p, 'b, 'h, 't, 'e) noise_lib \<Rightarrow> bytes \<Rightarrow> 't cipher_cell \<Rightarrow> 'e half \<Rightarrow> 't cipher_cell \<times> 'e half" where
  "seal_into api p cell h =
     (case seal_record api cell p of
        (cell', Inl e) \<Rightarrow> (cell', h)
      | (cell', Inr f) \<Rightarrow> (cell', h\<lparr>wire := wire h @ [f], sealed := sealed h @ [p]\<rparr>))"

definition open_from ::
    "('p, 'b, 'h, 't, 'e) noise_lib \<Rightarrow> 't cipher_cell \<Rightarrow> 'e half \<Rightarrow> 't cipher_cell \<times> 'e half" where
  "open_from api cell h =
     (case wire h of
        [] \<Rightarrow> (cell, h)
      | f # fs \<Rightarrow>
          (case open_record api cell f of
             (cell', r) \<Rightarrow> (cell', h\<lparr>wire := fs, opened := opened h @ [r]\<rparr>)))"

type_synonym ('t, 'e) duplex = "'t cipher_cell \<times> 't cipher_cell \<times> 'e half \<times> 'e half"

fun duplex_step ::
    "('p, 'b, 'h, 't, 'e) noise_lib \<Rightarrow> ('t, 'e) duplex \<Rightarrow> duplex_op \<Rightarrow> ('t, 'e) duplex" where
  "duplex_step api (a, b, ab, ba) (SealA p) = (let (a', ab') = seal_into api p a ab in (a', b, ab', ba))"
| "duplex_step api (a, b, ab, ba) (SealB p) = (let (b', ba') = seal_into api p b ba in (a, b', ab, ba'))"
| "duplex_step api (a, b, ab, ba) DeliverA = (let (a', ba') = open_from api a ba in (a', b, ab, ba'))"
| "duplex_step api (a, b, ab, ba) DeliverB = (let (b', ab') = open_from api b ab in (a, b', ab', ba))"

definition half_new :: "'e half" where
  "half_new = \<lparr>wire = [], sealed = [], opened = []\<rparr>"

definition successes :: "('e tunnel_error + bytes) list \<Rightarrow> bytes list" where
  "successes rs = concat (map (\<lambda>r. case r of Inl e \<Rightarrow> [] | Inr p \<Rightarrow> [p]) rs)"

lemma successes_append [simp]:
  "successes (rs @ [r]) = successes rs @ (case r of Inl e \<Rightarrow> [] | Inr p \<Rightarrow> [p])"
  by (simp add: successes_def)

text \<open>What links one direction to the records in flight in it, from the receiver's cell.\<close>

definition half_ok :: "'t cipher_cell \<Rightarrow> 't \<Rightarrow> (bytes \<times> bytes) list \<Rightarrow> 'e half \<Rightarrow> bool" where
  "half_ok receiver t q h \<longleftrightarrow>
     (if cell_closed receiver then prefix (successes (opened h)) (sealed h)
      else receiver = transport_session_new t
           \<and> wire h = map (framed record_header \<circ> fst) q
           \<and> sealed h = successes (opened h) @ map snd q
           \<and> list_all (\<lambda>r. \<exists>p. r = Inr p) (opened h)
           \<and> list_all (\<lambda>(c, p). length p \<le> MAX_PLAINTEXT_RECORD \<and> length c = length p + 16) q)"

definition duplex_inv :: "('p, 'b, 'h, 't, 'e) noise_lib \<Rightarrow> ('t, 'e) duplex \<Rightarrow> bool" where
  "duplex_inv api d \<longleftrightarrow>
     (\<exists>ta tb qab qba. noise_pair api ta tb qab qba
        \<and> half_ok (fst (snd d)) tb qab (fst (snd (snd d)))
        \<and> half_ok (fst d) ta qba (snd (snd (snd d))))"

lemma half_ok_closed_transport:
  "half_ok cell t q h \<Longrightarrow> \<not> cell_closed cell \<Longrightarrow> cell = transport_session_new t"
  by (simp add: half_ok_def)

lemma not_closed_new [simp]: "\<not> cell_closed (transport_session_new t)"
  by (simp add: cell_closed_def transport_session_new_def)

text \<open>Sealing: the sender's own incoming direction only sees its cell change.\<close>

lemma seal_into_ok:
  assumes pair: "noise_pair api ta tb qab qba"
    and out: "half_ok rcv tb qab h" and inc: "half_ok cell ta qba h2"
  shows "\<exists>ta' qab'. noise_pair api ta' tb qab' qba
     \<and> half_ok rcv tb qab' (snd (seal_into api p cell h))
     \<and> half_ok (fst (seal_into api p cell h)) ta' qba h2"
proof (cases "seal_record api cell p")
  case (Pair cell' r)
  show ?thesis
  proof (cases r)
    case (Inl e)
    have "cell' = cell \<or> cell_closed cell'" using seal_record_error [of api cell p e] Pair Inl by simp
    moreover have "half_ok cell' ta qba h2" if "cell_closed cell'"
      using that inc by (auto simp: half_ok_def split: if_splits)
    ultimately show ?thesis
      using pair out inc Pair Inl by (auto simp: seal_into_def)
  next
    case (Inr f)
    from seal_record_Inr [OF Pair [unfolded Inr]] obtain t t' c where
      t: "transport cell = Some t" "\<not> poisoned cell" and len: "length p \<le> MAX_PLAINTEXT_RECORD"
      and w: "n_ts_write api t p (length p + 16) = Inr (c, t')"
      and f: "f = framed record_header c" "cell' = cell\<lparr>transport := Some t'\<rparr>" by metis
    have open_cell: "\<not> cell_closed cell" using t by (simp add: cell_closed_def)
    with inc t have tt: "t = ta" "cell' = transport_session_new t'"
      using f(2) by (auto simp: half_ok_def transport_session_new_def)
    from noise_pair_write [OF pair len w [unfolded tt(1)]]
    have lc: "length c = length p + 16" and pair': "noise_pair api t' tb (qab @ [(c, p)]) qba" by simp_all
    have "half_ok rcv tb (qab @ [(c, p)]) (snd (seal_into api p cell h))"
      using out Pair Inr f(1) len lc
      by (auto simp: half_ok_def seal_into_def split: if_splits)
    moreover have "half_ok cell' t' qba h2"
      using inc open_cell tt(2) by (simp add: half_ok_def)
    ultimately show ?thesis using pair' Pair Inr by (auto simp: seal_into_def)
  qed
qed

lemma open_from_ok:
  assumes pair: "noise_pair api ta tb qab qba"
    and inc: "half_ok cell tb qab h"
  shows "\<exists>tb' qab'. noise_pair api ta tb' qab' qba \<and> half_ok (fst (open_from api cell h)) tb' qab' (snd (open_from api cell h))"
proof (cases "wire h")
  case Nil
  with pair inc show ?thesis by (auto simp: open_from_def)
next
  case (Cons f fs)
  show ?thesis
  proof (cases "cell_closed cell")
    case True
    from open_record_closed [OF this, of api f] obtain e where "open_record api cell f = (cell, Inl e)"
      by (cases "open_record api cell f") auto
    with True inc pair Cons show ?thesis by (auto simp: open_from_def half_ok_def)
  next
    case False
    with inc Cons obtain c p q where q: "qab = (c, p) # q" and f: "f = framed record_header c"
      and fs: "fs = map (framed record_header \<circ> fst) q"
      by (cases qab) (auto simp: half_ok_def)
    have cell: "cell = transport_session_new tb" using inc False by (rule half_ok_closed_transport)
    from inc False q have len: "length p \<le> MAX_PLAINTEXT_RECORD" "length c = length p + 16"
      by (auto simp: half_ok_def)
    from noise_pair_read [OF pair [unfolded q]] obtain tb' where
      rd: "n_ts_read api tb c (length c - 16) = Inr (p, tb')" and pair': "noise_pair api ta tb' q qba" by blast
    have op: "open_record api cell f = (transport_session_new tb', Inr p)"
      unfolding f using open_record_framed [of c cell tb api p tb'] rd len cell
      by (simp add: transport_session_new_def tunnel_limits)
    have "half_ok (fst (open_from api cell h)) tb' q (snd (open_from api cell h))"
      using inc False Cons op q fs by (auto simp: open_from_def half_ok_def)
    then show ?thesis using pair' by blast
  qed
qed

lemma duplex_step_inv:
  assumes "duplex_inv api d"
  shows "duplex_inv api (duplex_step api d i)"
proof -
  obtain a b ab ba where d: "d = (a, b, ab, ba)" by (cases d)
  with assms obtain ta tb qab qba where pair: "noise_pair api ta tb qab qba"
    and ok: "half_ok b tb qab ab" "half_ok a ta qba ba" by (auto simp: duplex_inv_def)
  note rev = noise_pair_sym [OF pair]
  show ?thesis
  proof (cases i)
    case (SealA p)
    from seal_into_ok [OF pair ok, of p] show ?thesis
      unfolding d SealA duplex_inv_def by (simp add: case_prod_unfold Let_def) blast
  next
    case (SealB p)
    from seal_into_ok [OF rev ok(2,1), of p] obtain tb' qba' where
      "noise_pair api tb' ta qba' qab" "half_ok a ta qba' (snd (seal_into api p b ba))"
      "half_ok (fst (seal_into api p b ba)) tb' qab ab" by blast
    with noise_pair_sym [of api tb' ta qba' qab] show ?thesis
      unfolding d SealB duplex_inv_def by (simp add: case_prod_unfold Let_def) blast
  next
    case DeliverA
    from open_from_ok [OF rev ok(2)] obtain ta' qba' where
      "noise_pair api tb ta' qba' qab" "half_ok (fst (open_from api a ba)) ta' qba' (snd (open_from api a ba))"
      by blast
    with noise_pair_sym [of api tb ta' qba' qab] ok(1) show ?thesis
      unfolding d DeliverA duplex_inv_def by (simp add: case_prod_unfold Let_def) blast
  next
    case DeliverB
    from open_from_ok [OF pair ok(1)] ok(2) show ?thesis
      unfolding d DeliverB duplex_inv_def by (simp add: case_prod_unfold Let_def) blast
  qed
qed

lemma duplex_run_inv: "duplex_inv api d \<Longrightarrow> duplex_inv api (foldl (duplex_step api) d ops)"
  by (induction ops arbitrary: d) (simp_all add: duplex_step_inv)

lemma successes_all_ok:
  "list_all (\<lambda>r. \<exists>p. r = Inr p) rs \<Longrightarrow> map Inr (successes rs) = (rs :: ('e tunnel_error + bytes) list)"
  by (induction rs) (auto simp: successes_def)

section \<open>Properties of sessions\<close>

lemma not_noise_decode: "decode_record_frame f \<noteq> Inl (Noise e)"
  by (simp add: decode_record_frame_def decode_frame_def Let_def)

lemma seal_record_noise:
  "seal_record api cell p = (cell', Inl (Noise e)) \<Longrightarrow> \<not> poisoned cell' \<and> transport cell' = None"
  by (auto simp: seal_record_def Let_def split: if_splits option.splits sum.splits)

lemma open_record_noise:
  fixes api :: "('p, 'b, 'h, 't, 'e) noise_lib"
  assumes "open_record api cell f = (cell', Inl (Noise e))"
  shows "\<not> poisoned cell' \<and> transport cell' = None"
proof (cases "decode_record_frame f :: 'e tunnel_error + bytes")
  case (Inl d)
  with assms show ?thesis using not_noise_decode [of f e] by (simp add: open_record_def)
next
  case (Inr c)
  with assms show ?thesis
    by (auto simp: open_record_def Let_def split: if_splits option.splits sum.splits)
qed

text \<open>C8: Full-duplex delivery.  Two ends of one session seal and receive in any order.  In each
  direction the plaintexts opened so far are an initial segment of the plaintexts sealed, in order
  and without gaps, and every frame an end receives opens successfully unless that end has closed
  its session.\<close>

theorem duplex_in_order:
  assumes "noise_pair api ta tb [] []"
    and "foldl (duplex_step api) (transport_session_new ta, transport_session_new tb, half_new, half_new) ops
           = (a, b, ab, ba)"
  shows "prefix (successes (opened ab)) (sealed ab) \<and> prefix (successes (opened ba)) (sealed ba)
    \<and> (cell_closed b \<or> map Inr (successes (opened ab)) = opened ab)
    \<and> (cell_closed a \<or> map Inr (successes (opened ba)) = opened ba)"
proof -
  have "duplex_inv api (transport_session_new ta, transport_session_new tb, half_new, half_new)"
    using assms(1) by (auto simp: duplex_inv_def half_ok_def half_new_def successes_def)
  from duplex_run_inv [OF this, of ops] assms(2) obtain ta' tb' qab qba where
    "half_ok b tb' qab ab" "half_ok a ta' qba ba" by (auto simp: duplex_inv_def)
  then show ?thesis
    using successes_all_ok [of "opened ab"] successes_all_ok [of "opened ba"]
    by (auto simp: half_ok_def split: if_splits)
qed

lemma duplex_in_order_witness:
  "\<exists>a b ab ba. foldl (duplex_step plain_noise)
       (transport_session_new (0, 0), transport_session_new (0, 0), half_new, half_new)
       [SealA [1], SealA [2], SealB [9], DeliverB, DeliverA] = (a, b, ab, ba)
     \<and> prefix (successes (opened ab)) (sealed ab) \<and> prefix (successes (opened ba)) (sealed ba)
     \<and> opened ab = [Inr [1]] \<and> sealed ab = [[1], [2]] \<and> opened ba = [Inr [9]]"
proof -
  let ?r = "foldl (duplex_step plain_noise)
       (transport_session_new (0, 0), transport_session_new (0, 0), half_new, half_new)
       [SealA [1], SealA [2], SealB [9], DeliverB, DeliverA]"
  have "opened (fst (snd (snd ?r))) = [Inr [1]] \<and> sealed (fst (snd (snd ?r))) = [[1], [2]]
      \<and> opened (snd (snd (snd ?r))) = [Inr [9]]"
    by (simp add: seal_into_def open_from_def half_new_def MAX_PLAINTEXT_RECORD_def)
  moreover obtain a b ab ba where r: "?r = (a, b, ab, ba)" by (metis prod.exhaust)
  moreover have "noise_pair plain_noise (0, 0) (0, 0) [] []" by (rule plain_noise_pair) simp_all
  from duplex_in_order [OF this r] have
    "prefix (successes (opened ab)) (sealed ab) \<and> prefix (successes (opened ba)) (sealed ba)" by blast
  ultimately show ?thesis by auto
qed

text \<open>C7: A cryptographic failure ends the session for both handles.  Once sealing or opening has
  reported an error of the Noise library, every later operation on the shared session, in either
  direction, fails without calling the Noise library again.\<close>

theorem noise_failure_ends_session:
  assumes "record_step api cell i = (cell', Inl (Noise e))"
  shows "run_ops (record_step api) cell' ops
           = (cell', map (\<lambda>j. Inl (case j of
               Seal p \<Rightarrow> if MAX_PLAINTEXT_RECORD < length p then PlaintextTooLarge (length p) else ClosedSession
             | Open f \<Rightarrow> (case decode_record_frame f of Inl d \<Rightarrow> d | Inr c \<Rightarrow> ClosedSession))) ops)"
proof -
  have cell': "\<not> poisoned cell'" "transport cell' = None"
    using assms by (cases i; auto dest: seal_record_noise open_record_noise)+
  have step: "record_step api cell' j = (cell', Inl (case j of
               Seal p \<Rightarrow> if MAX_PLAINTEXT_RECORD < length p then PlaintextTooLarge (length p) else ClosedSession
             | Open f \<Rightarrow> (case decode_record_frame f of Inl d \<Rightarrow> d | Inr c \<Rightarrow> ClosedSession)))" for j
    using cell' by (cases j) (auto simp: seal_record_def open_record_def split: sum.splits)
  show ?thesis by (induction ops) (simp_all add: step)
qed

lemma noise_failure_ends_session_witness:
  "run_ops (record_step plain_noise) \<lparr>poisoned = False, transport = None\<rparr> [Seal [1], Open []]
     = (\<lparr>poisoned = False, transport = None\<rparr>, [Inl ClosedSession, Inl (TruncatedFrame 4 0)])"
proof -
  have "record_step plain_noise (transport_session_new (0, 0)) (Open (framed record_header [1]))
      = (\<lparr>poisoned = False, transport = None\<rparr>, Inl (Noise DecryptFailed))"
    using plain_open_wrong [of "[1]" 0 0] by (simp add: tunnel_limits plain_tag_def list_eq_iff_nth_eq)
  from noise_failure_ends_session [OF this, of "[Seal [1], Open []]"] show ?thesis
    by (simp add: tunnel_limits decode_record_frame_def decode_frame_def)
qed

section \<open>Properties of the handshake\<close>

text \<open>C9: Who is let in.  \<open>receive_client\<close> produces a reply exactly when the preface has been
  accepted, the identities have not been used, the frame decodes, and some configured identity
  decrypts the message to a 32-byte static key on the allow-list while every identity before it
  rejects the message (cannot decrypt it, or finds a key not on the list).\<close>

theorem receive_client_authorises:
  "receive_client api sh f = (sh', Some (Inr sr)) \<longleftrightarrow>
     preface_accepted sh \<and> sh' = sh\<lparr>static_identities := None\<rparr>
     \<and> (\<exists>m pre k post st. decode_handshake_frame f = (Inr m :: 'e tunnel_error + bytes)
          \<and> static_identities sh = Some (pre @ k # post)
          \<and> (\<forall>k' \<in> set pre. identity_rejects api (allow_list sh) m k')
          \<and> identity_accepts (api :: ('p, 'b, 'h, 't, 'e) noise_lib) (allow_list sh) m k st
          \<and> sr = \<lparr>sr_state = Some st, sent_reply = False\<rparr>)"
  by (rule receive_client_accepts)

lemma receive_client_authorises_witness:
  "snd (receive_client plain_noise
     \<lparr>static_identities = Some [replicate 32 1, replicate 32 2], allow_list = {replicate 32 9}, preface_accepted = True\<rparr>
     (framed handshake_header (plain_public (replicate 32 2) @ replicate 32 9)))
   = Some (Inr \<lparr>sr_state = Some (RespGot (replicate 32 2) (replicate 32 9)), sent_reply = False\<rparr>)"
proof -
  let ?sh = "\<lparr>static_identities = Some [replicate 32 1, replicate 32 2], allow_list = {replicate 32 9},
      preface_accepted = True\<rparr> :: server_handshake"
  let ?m = "plain_public (replicate 32 2) @ replicate 32 9"
  have "decode_handshake_frame (framed handshake_header ?m) = (Inr ?m :: plain_error tunnel_error + bytes)"
    by (simp add: hs_frame.decode_iff plain_public_def tunnel_limits)
  moreover have "plain_public (replicate 32 1) \<noteq> plain_public (replicate 32 2)"
    by (simp add: plain_public_def)
  then have "identity_rejects plain_noise {replicate 32 9} ?m (replicate 32 1)"
    by (simp add: identity_rejects_def plain_hs_read_start)
  moreover have "identity_accepts plain_noise {replicate 32 9} ?m (replicate 32 2) (RespGot (replicate 32 2) (replicate 32 9))"
    by (simp add: identity_accepts_def plain_hs_read_start plain_public_def)
  ultimately have "receive_client plain_noise ?sh (framed handshake_header ?m) = (?sh\<lparr>static_identities := None\<rparr>,
      Some (Inr \<lparr>sr_state = Some (RespGot (replicate 32 2) (replicate 32 9)), sent_reply = False\<rparr>))"
    unfolding receive_client_authorises
    by (intro conjI exI [of _ ?m] exI [of _ "[replicate 32 1]"] exI [of _ "replicate 32 2"]
          exI [of _ "[]"] exI [of _ "RespGot (replicate 32 2) (replicate 32 9)"]) simp_all
  then show ?thesis by simp
qed

text \<open>One attempt per connection.  Once \<open>receive_client\<close> has looked at a client's message, this
  server handshake accepts no other message and no preface, whatever the outcome was.\<close>

theorem server_single_attempt:
  assumes "receive_client api sh f = (sh', r)" and "sh' \<noteq> sh"
  shows "\<forall>r \<in> set (snd (run_ops (server_step api) sh' ops)). \<exists>e. r = Inl e"
proof -
  have "server_closed sh'" using receive_client_consumes [of api sh f] assms by auto
  from server.closed_forever [OF this, of api ops] show ?thesis by blast
qed

lemma server_single_attempt_witness:
  "list_all isl (snd (run_ops (server_step plain_noise)
       \<lparr>static_identities = None, allow_list = {}, preface_accepted = True\<rparr>
       [ReceiveClient (framed handshake_header [1]), AcceptPreface PREFACE]))"
proof -
  have dec: "decode_handshake_frame (framed handshake_header [1]) = (Inr [1] :: plain_error tunnel_error + bytes)"
    by (simp add: hs_frame.decode_iff tunnel_limits)
  have "receive_client plain_noise \<lparr>static_identities = Some [[0]], allow_list = {}, preface_accepted = True\<rparr>
      (framed handshake_header [1]) = (\<lparr>static_identities = None, allow_list = {}, preface_accepted = True\<rparr>,
        try_identities plain_noise {} [1] [[0]] False None)"
    by (simp add: receive_client_def dec)
  from server_single_attempt [OF this,
      of "[ReceiveClient (framed handshake_header [1]), AcceptPreface PREFACE]"]
  show ?thesis by (auto simp: list_all_iff)
qed

text \<open>C21: The \<open>expect\<close> in \<open>receive_client\<close> is unreachable: a handshake object made by the constructor
  (one to eight identities) never panics, whatever is called on it and in whatever order.\<close>

theorem server_handshake_never_panics:
  assumes "new_with_static_identities ids clients = (Inr sh :: 'e tunnel_error + server_handshake)"
  shows "Inl None \<notin> set (snd (run_ops (server_step (api :: ('p, 'b, 'h, 't, 'e) noise_lib)) sh ops))"
  using new_with_static_identities_inv [OF assms] by (rule server_run_no_panic)

lemma server_handshake_never_panics_witness:
  "Inl None \<notin> set (snd (run_ops (server_step plain_noise)
      \<lparr>static_identities = Some [[0]], allow_list = {}, preface_accepted = False\<rparr>
      [AcceptPreface PREFACE, ReceiveClient (framed handshake_header [1])]))"
  by (rule server_handshake_never_panics [of "[[0]]" "[]"])
     (simp add: new_with_static_identities_def tunnel_limits)

fun is_first_message :: "'e tunnel_error + 't client_out \<Rightarrow> bool" where
  "is_first_message (Inr (ClientFrame f)) = True" | "is_first_message _ = False"

fun is_session :: "'e tunnel_error + 't client_out \<Rightarrow> bool" where
  "is_session (Inr (ClientSession c)) = True" | "is_session _ = False"

lemma run_ops_Cons:
  "run_ops step s (i # is) = (fst (run_ops step (fst (step s i)) is),
     snd (step s i) # snd (run_ops step (fst (step s i)) is))"
  by (simp add: case_prod_unfold Let_def)

declare run_ops.simps(2) [simp del]

lemma client_frames_after_first:
  "sent_first ch \<or> client_closed ch \<Longrightarrow>
     filter is_first_message (snd (run_ops (client_step api) ch ops)) = []"
proof (induction ops arbitrary: ch)
  case Nil
  then show ?case by simp
next
  case (Cons i ops)
  have "\<not> is_first_message (snd (client_step api ch i))
      \<and> (sent_first (fst (client_step api ch i)) \<or> client_closed (fst (client_step api ch i)))"
    using Cons.prems
    by (cases i) (auto simp: first_message_def client_finish_def client_closed_def rbind_def
        split: option.splits sum.splits)
  with Cons.IH [of "fst (client_step api ch i)"] show ?case by (simp add: run_ops_Cons)
qed

lemma client_sessions_after_close:
  "client_closed ch \<Longrightarrow> filter is_session (snd (run_ops (client_step api) ch ops)) = []"
  using client.closed_forever [of ch api ops] by (auto simp: filter_empty_conv)

text \<open>A client handshake gives out at most one first message and at most one session, whatever is
  called on it and in whatever order.\<close>

theorem client_gives_one_message_and_one_session:
  "length (filter is_first_message (snd (run_ops (client_step api) ch ops))) \<le> 1
   \<and> length (filter is_session (snd (run_ops (client_step api) ch ops))) \<le> 1"
proof (induction ops arbitrary: ch)
  case Nil
  then show ?case by simp
next
  case (Cons i ops)
  let ?ch = "fst (client_step api ch i)" and ?r = "snd (client_step api ch i)"
  have first: "sent_first ?ch \<or> client_closed ?ch" if "is_first_message ?r"
    using that by (cases i) (auto simp: first_message_def client_closed_def rbind_def
        split: option.splits sum.splits if_splits)
  have sess: "client_closed ?ch" if "is_session ?r"
  proof (cases i)
    case FirstMessage
    with that show ?thesis by (cases "snd (first_message api ch)") auto
  next
    case (Finish f)
    with that obtain c where "snd (client_finish api ch f) = Inr c"
      by (cases "snd (client_finish api ch f)") auto
    from client_finish_Inr_closes [OF this] Finish show ?thesis by simp
  qed
  from Cons.IH [of ?ch] client_frames_after_first [OF first, of api ops]
    client_sessions_after_close [OF sess, of api ops]
  show ?case by (auto simp: run_ops_Cons)
qed

text \<open>Two honest sides agree.  When the client pins one of the server's identities, at most eight
  identities are configured and the client's key is on the allow-list, running the two handshakes
  against each other ends with an open session on both sides, the transports of which belong
  together.\<close>

theorem handshake_establishes_session:
  assumes "ik_agreement api cpriv cpub sprivs spriv spub ta tb"
    and "spriv \<in> set sprivs" and "length sprivs \<le> MAX_SERVER_STATIC_IDENTITIES"
    and "cpub \<in> set clients" and "length cpub = 32"
  shows "\<exists>cs ss. handshake_exchange api cpriv spub sprivs clients = Inr (cs, ss)
    \<and> \<not> cell_closed cs \<and> \<not> cell_closed ss
    \<and> (\<exists>ta tb. transport cs = Some ta \<and> transport ss = Some tb \<and> noise_pair api ta tb [] [])"
  using handshake_exchange_agrees [OF assms] assms(1)
  by (auto simp: ik_agreement_def transport_session_new_def cell_closed_def)

lemma handshake_establishes_session_witness:
  "\<exists>cs ss. handshake_exchange plain_noise (replicate 32 3) (plain_public (replicate 32 2))
      [replicate 32 1, replicate 32 2] [plain_public (replicate 32 3)] = Inr (cs, ss)
    \<and> \<not> cell_closed cs \<and> \<not> cell_closed ss
    \<and> (\<exists>ta tb. transport cs = Some ta \<and> transport ss = Some tb \<and> noise_pair plain_noise ta tb [] [])"
proof (rule handshake_establishes_session)
  show "ik_agreement plain_noise (replicate 32 3) (plain_public (replicate 32 3))
      [replicate 32 1, replicate 32 2] (replicate 32 2) (plain_public (replicate 32 2)) (0, 0) (0, 0)"
    by (rule plain_ik_agreement) (simp_all add: plain_public_def)
qed (simp_all add: plain_public_def tunnel_limits)

end
