(* ===== verification/Session_Safety.thy ===== *)
theory Session_Safety
  imports Session_Traces Relay Secure_Session
begin

text \<open>
  Properties of whole sessions: whom a server acts for, whom a client talks to, that two honest
  sessions become a tunnel, and how failures are counted.  The concrete sessions are for the witnesses.
\<close>

lemma handle_local_runs:
  assumes "client_willing env config"
  shows "\<exists>pre. handle_local api env config tls = (pre @ fst (client_run_noise api env config), snd (client_run_noise api env config))
    \<and> (\<exists>name. pre = ConnectRemote (cc_remote_address config) # (if tls then [TlsConnect name] else []))"
  using assms
  by (auto simp: handle_local_def client_willing_def tls_server_name_def run_bind_def run_lift_def run_do_def
      split: prod.splits sum.splits)

lemma handle_outer_runs:
  assumes "server_admitting env"
  shows "handle_outer api env config tls =
    ((if tls then [TlsAccept] else []) @ fst (server_run_noise api env config), snd (server_run_noise api env config))"
  using assms
  by (auto simp: handle_outer_def server_admitting_def run_bind_def run_lift_def run_do_def split: prod.splits sum.splits)

definition sent_bytes :: "action list \<Rightarrow> bytes" where
  "sent_bytes tr = concat (map (\<lambda>a. case a of Sent b \<Rightarrow> b | _ \<Rightarrow> []) tr)"

lemma sent_bytes_append [simp]: "sent_bytes (xs @ ys) = sent_bytes xs @ sent_bytes ys"
  by (simp add: sent_bytes_def)

lemma sent_bytes_simps [simp]:
  "sent_bytes [] = []" "sent_bytes (Sent b # tr) = b @ sent_bytes tr"
  "sent_bytes (Flushed # tr) = sent_bytes tr" "sent_bytes (MarkedHandshake # tr) = sent_bytes tr"
  "sent_bytes (StartedRelay # tr) = sent_bytes tr" "sent_bytes (ConnectDestination d # tr) = sent_bytes tr"
  "sent_bytes (ConnectRemote c # tr) = sent_bytes tr" "sent_bytes (TlsConnect c # tr) = sent_bytes tr"
  "sent_bytes (TlsAccept # tr) = sent_bytes tr"
  by (simp_all add: sent_bytes_def)

lemma sent_bytes_quiet: "set tr \<subseteq> {MarkedHandshake, StartedRelay} \<Longrightarrow> sent_bytes tr = []"
  by (induction tr) (auto simp: sent_bytes_def)

text \<open>What a server session does, in order, and for whom.\<close>

lemma handle_outer_authorised:
  assumes "handle_outer api env config tls = (tr, r)"
  shows "\<exists>message. prefix tr ((if tls then [TlsAccept] else [])
           @ [Sent message, Flushed, MarkedHandshake, ConnectDestination (sc_destination_address config), StartedRelay])
    \<and> (set tr \<subseteq> {TlsAccept} \<or> (\<exists>k m rest st. authorised_by api env config k m rest st))"
proof -
  let ?tr = "fst (server_run_noise api env config)"
  let ?tls = "if tls then [TlsAccept] else []"
  have "fst (handle_outer api env config tls) = [] \<or> tls \<and> fst (handle_outer api env config tls) = [TlsAccept]
      \<or> fst (handle_outer api env config tls) = ?tls @ ?tr"
    by (auto simp: handle_outer_def split: sum.splits)
  then have "tr = [] \<or> tls \<and> tr = [TlsAccept] \<or> tr = ?tls @ ?tr" using assms by simp
  then show ?thesis
    using server_run_noise_authorised [of api env config]
    by (elim disjE conjE exE) (fastforce simp: set_mono_prefix)+
qed

section \<open>Properties\<close>

text \<open>C4: Nothing happens on the network for a client that is not authorised.  Apart from the outer TLS
  handshake, whatever a server session sends, and the connection it opens, comes after it has read
  the preface and a first message that one of the configured identities decrypts to a key on
  the configured list; it does these things in this order: the reply, the flush, the success
  mark, the connection to the configured destination and to no other address, the relay.\<close>

theorem server_acts_only_for_authorised:
  assumes "handle_outer api env config tls = (tr, r)"
  shows "\<exists>message. prefix tr ((if tls then [TlsAccept] else [])
           @ [Sent message, Flushed, MarkedHandshake, ConnectDestination (sc_destination_address config), StartedRelay])
    \<and> (set tr \<subseteq> {TlsAccept} \<or> (\<exists>k m rest st. authorised_by api env config k m rest st))"
  using assms by (rule handle_outer_authorised)

text \<open>A server session never panics: the \<open>expect\<close> in \<open>receive_client\<close> cannot fire, whatever the
  network, the files and the configuration are.\<close>

theorem server_session_never_panics: "snd (handle_outer api env config tls) \<noteq> Inl None"
  using server_run_noise_no_panic [of api env config]
  by (auto simp: handle_outer_def dest!: failing_Inl split: sum.splits)


section \<open>Concrete sessions\<close>

definition sample_texts :: "plain_error texts" where
  "sample_texts = \<lparr>tx_elapsed = ''deadline has elapsed'', tx_io = (\<lambda>_. ''early eof''), tx_snow = (\<lambda>_. [''decrypt error'']),
     tx_key = (\<lambda>_. [''key error''])\<rparr>"

definition sample_key_fs :: fs where
  "sample_key_fs = [[Normal ''s.key''] \<mapsto> FileNode 0x180 (plain_encode (replicate 32 2)),
                    [Normal ''c.key''] \<mapsto> FileNode 0x180 (plain_encode (replicate 32 3))]"

definition sample_client_config :: client_config where
  "sample_client_config =
     \<lparr>cc_listen_address = SocketAddr (V4 127 0 0 1) 1080, cc_remote_address = [65],
      cc_private_key_file = ''c.key'', cc_server_public_key = plain_encode (plain_public (replicate 32 2)),
      cc_outer_tls = \<lparr>cot_enabled = True, cot_server_name = Some [97], cot_additional_ca_file = None\<rparr>,
      cc_timeouts = client_timeouts_default, cc_max_connections = 32\<rparr>"

definition sample_server_config :: server_config where
  "sample_server_config =
     \<lparr>sc_listen_address = SocketAddr (V4 0 0 0 0) 7000, sc_destination_address = SocketAddr (V4 127 0 0 1) 8080,
      sc_identity = \<lparr>id_private_key_file = ''s.key'', id_additional_files = []\<rparr>,
      sc_authorized_clients = [\<lparr>ac_name = [65], ac_public_key = plain_encode (plain_public (replicate 32 3))\<rparr>],
      sc_outer_tls = server_outer_tls_default, sc_limits = server_limits_default,
      sc_timeouts = server_timeouts_default\<rparr>"

definition sample_client_env :: "bytes list \<Rightarrow> (nat \<times> nat, plain_error) client_env" where
  "sample_client_env incoming =
     \<lparr>ce_shutdown = False, ce_local_nodelay = Inr (), ce_local_keepalive = Inr (), ce_connect = Ready (Inr ()),
      ce_connect_race = OpFirst, ce_remote_nodelay = Inr (), ce_remote_keepalive = Inr (),
      ce_valid_server_name = (\<lambda>_. True), ce_tls = Ready (Inr ()), ce_tls_race = OpFirst,
      ce_fs = sample_key_fs, ce_decode = plain_decode, ce_write_preface = Inr (), ce_write_first = Inr (),
      ce_flush = Inr (), ce_incoming = \<lparr>chunks = incoming, net_end = AtEof\<rparr>, ce_reply_race = OpFirst,
      ce_relay = (\<lambda>_ _. Inr ()), ce_texts = sample_texts\<rparr>"

definition sample_server_env :: "bytes list \<Rightarrow> (nat \<times> nat, plain_error) server_env" where
  "sample_server_env incoming =
     \<lparr>se_shutdown = False, se_outer_nodelay = Inr (), se_outer_keepalive = Inr (), se_tls = Ready (Inr ()),
      se_tls_race = OpFirst, se_fs = sample_key_fs, se_decode = plain_decode,
      se_incoming = \<lparr>chunks = incoming, net_end = AtEof\<rparr>, se_preface_race = OpFirst, se_first_race = OpFirst,
      se_write_reply = Inr (), se_flush = Inr (), se_connect = Ready (Inr ()), se_connect_race = OpFirst,
      se_destination_nodelay = Inr (), se_destination_keepalive = Inr (), se_relay = (\<lambda>_ _. Inr ()),
      se_texts = sample_texts\<rparr>"

lemma sample_willing: "client_willing (sample_client_env cs) sample_client_config" "server_willing (sample_server_env ss)"
  by (simp_all add: client_willing_def server_willing_def server_admitting_def sample_client_env_def sample_server_env_def
      sample_client_config_def)

lemma trim_plain [simp]: "trim (plain_encode b) = plain_encode b"
proof (rule trim_no_white)
  have "\<not> white_space (256 + unat w)" for w :: byte
  proof -
    have "unat w < 256" by (rule order_less_le_trans [OF unsigned_less]) simp
    then show ?thesis by (simp add: white_space_def)
  qed
  then show "\<forall>c \<in> set (plain_encode b). \<not> white_space c"
    by (auto simp: plain_encode_def)
qed

lemma plain_decode_encode [simp]: "plain_decode (plain_encode b) = Some b"
  by (simp add: plain_decode_def plain_encode_def comp_def)

lemma sample_paths: "path_components ''s.key'' = [Normal ''s.key'']" "path_components ''c.key'' = [Normal ''c.key'']"
  by (simp_all add: path_components_def to_component_def)

lemma plain_public_sample: "plain_public (replicate 32 2) = replicate 32 3" "plain_public (replicate 32 3) = replicate 32 4"
  by (simp_all add: plain_public_def)

lemma sample_client_keys:
  "client_read_private_key (ce_decode (sample_client_env cs)) (ce_fs (sample_client_env cs))
      (path_components (cc_private_key_file sample_client_config)) = (Inr (replicate 32 3) :: plain_error key_error + bytes)"
  "client_decode_public_key (ce_decode (sample_client_env cs)) (cc_server_public_key sample_client_config)
      = (Inr (replicate 32 3) :: plain_error key_error + bytes)"
proof -
  show "client_read_private_key (ce_decode (sample_client_env cs)) (ce_fs (sample_client_env cs))
      (path_components (cc_private_key_file sample_client_config)) = (Inr (replicate 32 3) :: plain_error key_error + bytes)"
    unfolding read_private_key_iff
    by (simp add: sample_client_env_def sample_client_config_def sample_paths place_def sample_key_fs_def private_mode_def)
  show "client_decode_public_key (ce_decode (sample_client_env cs)) (cc_server_public_key sample_client_config)
      = (Inr (replicate 32 3) :: plain_error key_error + bytes)"
    by (simp add: client_decode_public_key_def sample_client_env_def sample_client_config_def plain_public_sample
        try_into_32_def)
qed

lemma sample_server_keys:
  "server_read_private_keys (se_decode (sample_server_env ss)) (se_fs (sample_server_env ss))
      (path_components (id_private_key_file (sc_identity sample_server_config)))
      (map path_components (id_additional_files (sc_identity sample_server_config)))
      = (Inr [replicate 32 2] :: plain_error key_error + bytes list)"
  "decode_clients (se_decode (sample_server_env ss)) (sc_authorized_clients sample_server_config)
      = (Inr [replicate 32 4] :: plain_error key_error + bytes list)"
proof -
  have "client_read_private_key plain_decode sample_key_fs [Normal ''s.key'']
      = (Inr (replicate 32 2) :: plain_error key_error + bytes)"
    unfolding read_private_key_iff by (simp add: place_def sample_key_fs_def private_mode_def)
  then show "server_read_private_keys (se_decode (sample_server_env ss)) (se_fs (sample_server_env ss))
      (path_components (id_private_key_file (sc_identity sample_server_config)))
      (map path_components (id_additional_files (sc_identity sample_server_config)))
      = (Inr [replicate 32 2] :: plain_error key_error + bytes list)"
    by (simp add: server_read_private_keys_def read_private_key_same sample_server_env_def sample_server_config_def
        sample_paths)
  show "decode_clients (se_decode (sample_server_env ss)) (sc_authorized_clients sample_server_config)
      = (Inr [replicate 32 4] :: plain_error key_error + bytes list)"
    by (simp add: server_decode_public_key_def sample_server_env_def sample_server_config_def plain_public_sample
        try_into_32_def)
qed

definition sample_first :: bytes where "sample_first = framed handshake_header (replicate 32 3 @ replicate 32 4)"
definition sample_reply :: bytes where "sample_reply = framed handshake_header (replicate 32 3 @ replicate 32 4)"

lemma sample_ik: "ik_agreement plain_noise (replicate 32 3) (replicate 32 4) [replicate 32 2] (replicate 32 2)
    (replicate 32 3) (0, 0) (0, 0)"
  using plain_ik_agreement [of "replicate 32 3" "replicate 32 2" "[replicate 32 2]"]
  by (simp add: plain_public_sample)

lemma sample_steps:
  "client_handshake_new plain_noise (replicate 32 3) (replicate 32 3)
     = Inr \<lparr>ch_state = Some (InitStart (replicate 32 3) (replicate 32 3)), sent_first = False\<rparr>"
  "first_message plain_noise \<lparr>ch_state = Some (InitStart (replicate 32 3) (replicate 32 3)), sent_first = False\<rparr>
     = (\<lparr>ch_state = Some (InitWait (replicate 32 3) (replicate 32 3)), sent_first = True\<rparr>, Inr sample_first)"
  "client_finish plain_noise \<lparr>ch_state = Some (InitWait (replicate 32 3) (replicate 32 3)), sent_first = True\<rparr>
       (framed handshake_header (replicate 32 3 @ replicate 32 4))
     = (\<lparr>ch_state = None, sent_first = True\<rparr>, Inr (transport_session_new (0, 0)))"
  "try_identities plain_noise (set [replicate 32 4]) (replicate 32 3 @ replicate 32 4) [replicate 32 2] False None
     = Some (Inr \<lparr>sr_state = Some (RespGot (replicate 32 2) (replicate 32 4)), sent_reply = False\<rparr>)"
  "reply_message plain_noise \<lparr>sr_state = Some (RespGot (replicate 32 2) (replicate 32 4)), sent_reply = False\<rparr>
     = (\<lparr>sr_state = Some RespDone, sent_reply = True\<rparr>, Inr sample_reply)"
  "into_session plain_noise \<lparr>sr_state = Some RespDone, sent_reply = True\<rparr> = Inr (transport_session_new (0, 0))"
  by (simp_all add: client_handshake_new_def noise_builder_def plain_noise_def first_message_def
      encode_handshake_frame_eq tunnel_limits sample_first_def sample_reply_def plain_public_sample
      client_finish_def hs_frame.decode_framed build_responder_for_def reply_message_def into_session_def
      try_into_32_def)

lemma sample_client_run:
  "handle_local plain_noise (sample_client_env [sample_reply]) sample_client_config True =
     ([ConnectRemote [65], TlsConnect [97], Sent (preface_encode V1), Sent sample_first, Flushed, MarkedHandshake,
       StartedRelay], Inr ())"
proof -
  have "net_content (ce_incoming (sample_client_env [sample_reply]))
      = framed handshake_header (replicate 32 3 @ replicate 32 4) @ []"
    by (simp add: sample_client_env_def net_content_def sample_reply_def)
  from client_run_noise_runs [OF sample_willing(1) sample_client_keys sample_steps(1,2,3) _ this]
  have "client_run_noise plain_noise (sample_client_env [sample_reply]) sample_client_config =
      ([Sent (preface_encode V1), Sent sample_first, Flushed, MarkedHandshake, StartedRelay], Inr ())"
    by (auto simp: tunnel_limits sample_client_env_def)
  moreover from handle_local_runs [OF sample_willing(1)] have
    "snd (handle_local plain_noise (sample_client_env [sample_reply]) sample_client_config True)
       = snd (client_run_noise plain_noise (sample_client_env [sample_reply]) sample_client_config)"
    by (metis snd_conv)
  moreover have "fst (handle_local plain_noise (sample_client_env [sample_reply]) sample_client_config True)
      = ConnectRemote [65] # TlsConnect [97]
          # fst (client_run_noise plain_noise (sample_client_env [sample_reply]) sample_client_config)"
    by (simp add: handle_local_def sample_client_env_def sample_client_config_def tls_server_name_def)
  ultimately show ?thesis by (simp add: prod_eq_iff)
qed

lemma sample_server_run:
  "handle_outer plain_noise (sample_server_env [preface_encode V1, sample_first]) sample_server_config False =
     ([Sent sample_reply, Flushed, MarkedHandshake, ConnectDestination (SocketAddr (V4 127 0 0 1) 8080), StartedRelay],
      Inr ())"
proof -
  have "net_content (se_incoming (sample_server_env [preface_encode V1, sample_first]))
      = preface_encode V1 @ framed handshake_header (replicate 32 3 @ replicate 32 4) @ []"
    by (simp add: sample_server_env_def net_content_def sample_first_def)
  from server_run_noise_runs [OF sample_willing(2) sample_server_keys _ _ sample_steps(4,5,6) _ this]
  have "server_run_noise plain_noise (sample_server_env [preface_encode V1, sample_first]) sample_server_config =
      ([Sent sample_reply, Flushed, MarkedHandshake, ConnectDestination (SocketAddr (V4 127 0 0 1) 8080), StartedRelay],
       Inr ())"
    by (auto simp: tunnel_limits sample_server_env_def sample_server_config_def failing_def)
  with handle_outer_runs [of "sample_server_env [preface_encode V1, sample_first]" plain_noise sample_server_config False]
    sample_willing(2) show ?thesis by (simp add: server_willing_def)
qed


lemma server_acts_only_for_authorised_witness:
  "\<exists>k m rest st. authorised_by plain_noise (sample_server_env [preface_encode V1, sample_first]) sample_server_config k m rest st"
  using server_acts_only_for_authorised [OF sample_server_run] by simp

lemma run_bind_in:
  "a \<in> set (fst (run_bind m k)) \<longleftrightarrow> a \<in> set (fst m) \<or> (\<exists>x. snd m = Inr x \<and> a \<in> set (fst (k x)))"
  by (cases m; cases "snd m") auto

lemma handle_local_relay:
  assumes "StartedRelay \<in> set (fst (handle_local api env config tls))"
  shows "\<exists>pre. fst (handle_local api env config tls) = pre @ fst (client_run_noise api env config)
    \<and> sent_bytes pre = [] \<and> snd (handle_local api env config tls) = snd (client_run_noise api env config)
    \<and> StartedRelay \<in> set (fst (client_run_noise api env config))"
proof -
  let ?connect = "race_timeout (ce_connect_race env) (tx_elapsed (ce_texts env)) ''remote connect timed out'' (ce_connect env)"
  let ?tls = "race_timeout (ce_tls_race env) (tx_elapsed (ce_texts env)) ''outer TLS handshake timed out'' (ce_tls env)"
  have facts: "\<not> ce_shutdown env \<and> ce_local_nodelay env = Inr () \<and> enable_tcp_keepalive (ce_local_keepalive env) = Inr ()
      \<and> ?connect = Inr () \<and> ce_remote_nodelay env = Inr () \<and> enable_tcp_keepalive (ce_remote_keepalive env) = Inr ()
      \<and> StartedRelay \<in> set (fst (client_run_noise api env config))
      \<and> (tls \<longrightarrow> (\<exists>name. tls_server_name (ce_valid_server_name env) (cc_outer_tls config) = Inr name \<and> ?tls = Inr ()))"
    using assms
    by (simp add: handle_local_def run_bind_in context_msg_Inr_iff del: fst_run_bind_lift fst_run_bind_do
        split: if_splits)
  then obtain name where name: "tls \<longrightarrow> tls_server_name (ce_valid_server_name env) (cc_outer_tls config) = Inr name"
    by blast
  with facts show ?thesis
    by (intro exI [of _ "ConnectRemote (cc_remote_address config) # (if tls then [TlsConnect name] else [])"])
       (simp add: handle_local_def)
qed

text \<open>C10: The client talks to the pinned server only.  A client session that has started its relay has
  read its private key from a private file, has sent nothing but the preface and the first message of
  a handshake made with that key and the configured server key, and has finished this handshake on
  the first frame that came back; the relay gets the session of this handshake and the bytes
  behind that frame.\<close>

theorem client_relays_only_to_pinned_server:
  fixes api :: "('p, 'b, 'h, 't, 'e) noise_lib" and env :: "('t, 'e) client_env"
  assumes "handle_local api env config tls = (tr, r)" and "StartedRelay \<in> set tr"
  shows "\<exists>cpriv spub ch0 ch1 first reply ch2 session remote.
      client_read_private_key (ce_decode env) (ce_fs env) (path_components (cc_private_key_file config))
        = (Inr cpriv :: 'e key_error + bytes)
      \<and> client_decode_public_key (ce_decode env) (cc_server_public_key config) = (Inr spub :: 'e key_error + bytes)
      \<and> client_handshake_new api cpriv spub = Inr ch0 \<and> first_message api ch0 = (ch1, Inr first)
      \<and> sent_bytes tr = preface_encode V1 @ first
      \<and> net_content (ce_incoming env) = reply @ net_content remote
      \<and> client_finish api ch1 reply = (ch2, Inr session)
      \<and> r = ce_relay env session remote"
proof -
  have "StartedRelay \<in> set (fst (handle_local api env config tls))" using assms by simp
  from handle_local_relay [OF this] assms(1) obtain pre where
    pre: "tr = pre @ fst (client_run_noise api env config)" "sent_bytes pre = []"
    "r = snd (client_run_noise api env config)" "StartedRelay \<in> set (fst (client_run_noise api env config))"
    by auto
  from client_run_noise_relay [OF pre(4)] obtain cpriv spub session remote where
    k: "client_read_private_key (ce_decode env) (ce_fs env) (path_components (cc_private_key_file config))
        = (Inr cpriv :: 'e key_error + bytes)"
      "client_decode_public_key (ce_decode env) (cc_server_public_key config) = (Inr spub :: 'e key_error + bytes)"
    and hs: "snd (complete_noise_handshake api env cpriv spub) = Inr (session, remote)"
      "fst (client_run_noise api env config) = fst (complete_noise_handshake api env cpriv spub) @ [MarkedHandshake, StartedRelay]"
      "snd (client_run_noise api env config) = ce_relay env session remote" by blast
  from complete_noise_handshake_Inr [OF hs(1)] obtain ch0 ch1 first reply ch2 where
    "client_handshake_new api cpriv spub = Inr ch0" "first_message api ch0 = (ch1, Inr first)"
    "client_read_handshake_frame net_ops (ce_incoming env) = (Ready (Inr reply), remote)"
    "client_finish api ch1 reply = (ch2, Inr session)"
    "fst (complete_noise_handshake api env cpriv spub) = [Sent (preface_encode V1), Sent first, Flushed]" by blast
  moreover from this(3) have "net_content (ce_incoming env) = reply @ net_content remote"
    by (rule net_handshake_frame_Ready)
  ultimately show ?thesis
    using k hs(2,3) pre by (intro exI conjI) auto
qed

lemma client_relays_only_to_pinned_server_witness:
  "\<exists>first reply. client_decode_public_key plain_decode (cc_server_public_key sample_client_config)
        = (Inr (replicate 32 3) :: plain_error key_error + bytes)
      \<and> preface_encode V1 @ sample_first = preface_encode V1 @ first \<and> prefix reply sample_reply"
  using client_relays_only_to_pinned_server [OF sample_client_run] sample_client_keys(2)
  by (auto simp: sample_client_env_def net_content_new)

text \<open>C33: A client whose key is not on the list is turned away without an answer, and the metric for
  it does not move: the error of the session is classified as a handshake failure, because the text
  of \<open>UnauthorisedClient\<close> contains neither of the two phrases the classification looks for.\<close>

theorem unauthorised_client_not_counted:
  assumes "server_read_private_keys (se_decode env) (se_fs env)
           (path_components (id_private_key_file (sc_identity config)))
           (map path_components (id_additional_files (sc_identity config))) = (Inr keys :: 'e key_error + bytes list)"
    and "decode_clients (se_decode env) (sc_authorized_clients config) = (Inr clients :: 'e key_error + bytes list)"
    and "server_admitting env" and "keys \<noteq> []" and "length keys \<le> MAX_SERVER_STATIC_IDENTITIES"
    and "net_content (se_incoming env) = preface_encode V1 @ framed handshake_header m @ rest"
    and "length m \<le> MAX_HANDSHAKE_MESSAGE"
    and "try_identities (api :: ('p, 'b, 'h, 't, 'e) noise_lib) (set clients) m keys False None = Some (Inl UnauthorisedClient)"
    and "\<not> handshake_succeeded tel"
  shows "\<exists>e. handle_outer api env config False = ([], Inl (Some e))
    \<and> server_close_reason_from_error e = NoiseHandshakeFailed
    \<and> unauthorized_client_total (fst (server_finish_connection mx tel t1 (Inl e))) = unauthorized_client_total mx
    \<and> handshake_failure_total (fst (server_finish_connection mx tel t1 (Inl e))) = handshake_failure_total mx + 1"
proof -
  obtain o1 where o1: "rd_read_exact net_ops (se_incoming env) 6 = (Ready (Inr (preface_encode V1)), o1)"
    "net_content o1 = framed handshake_header m @ rest"
    using net_exact_prefix [OF assms(6)] by (auto simp: preface_length)
  obtain o2 where o2: "server_read_handshake_frame net_ops o1 = (Ready (Inr (framed handshake_header m)), o2)"
    using net_reads_framed [OF o1(2) assms(7)] unfolding read_handshake_frame_same by blast
  define e where "e = ''Noise handshake failed'' # tunnel_error_chain (tx_snow (se_texts env)) UnauthorisedClient"
  have rc: "receive_client api \<lparr>static_identities = Some keys, allow_list = set clients, preface_accepted = True\<rparr>
      (framed handshake_header m) =
      (\<lparr>static_identities = None, allow_list = set clients, preface_accepted = True\<rparr>, Some (Inl UnauthorisedClient))"
    using assms(7,8) by (simp add: receive_client_def hs_frame.decode_framed)
  have "server_run_noise api env config = ([], Inl (Some e))"
    using assms(1-5) o1(1) o2 rc
    by (simp add: server_run_noise_def server_admitting_def new_with_static_identities_def accept_preface_def
        tunnel_err_def failing_def run_lift_def e_def)
  then have "handle_outer api env config False = ([], Inl (Some e))"
    using handle_outer_runs [OF assms(3), of api config False] by simp
  moreover have c: "server_close_reason_from_error e = NoiseHandshakeFailed"
    unfolding e_def by (rule classify_unauthorised)
  ultimately show ?thesis
    using assms(9) c
    by (auto simp: server_finish_connection_def Let_def connection_closed_same connection_closed_counts)
qed

lemma unauthorised_client_not_counted_witness:
  "\<exists>e. handle_outer plain_noise
        (sample_server_env [preface_encode V1, framed handshake_header (replicate 32 3 @ replicate 32 9)])
        sample_server_config False = ([], Inl (Some e))
    \<and> server_close_reason_from_error e = NoiseHandshakeFailed"
proof -
  let ?m = "replicate 32 3 @ replicate 32 9 :: bytes"
  let ?env = "sample_server_env [preface_encode V1, framed handshake_header ?m]"
  have inc: "net_content (se_incoming ?env) = preface_encode V1 @ framed handshake_header ?m @ []"
    by (simp add: sample_server_env_def net_content_new)
  have "try_identities plain_noise (set [replicate 32 4]) ?m [replicate 32 2] False None = Some (Inl UnauthorisedClient)"
    by (simp add: plain_hs_read_start plain_public_sample tunnel_limits try_into_32_def)
  from unauthorised_client_not_counted [OF sample_server_keys _ _ _ inc _ this,
      where tel = "telemetry_new 1 0" and mx = metrics_default and ?t1.0 = 0]
  show ?thesis using sample_willing(2) by (auto simp: tunnel_limits telemetry_new_def server_willing_def)
qed

text \<open>C34: A refused destination is not counted as a destination failure.  With an authorised client and
  a destination that refuses the connection, the session fails with the bare operating-system error,
  which is classified as a transport error; only a destination that does not answer in time moves
  the metric.\<close>

theorem refused_destination_not_counted:
  assumes "se_connect_race env = OpFirst" and "se_connect env = Ready (Inl [''Connection refused (os error 111)''])"
    and "ConnectDestination d \<in> set (fst (handle_outer api env config tls))"
  shows "snd (handle_outer api env config tls) = Inl (Some [''Connection refused (os error 111)''])
    \<and> destination_connect_failure_total
        (fst (server_finish_connection mx tel t1 (Inl [''Connection refused (os error 111)''])))
      = destination_connect_failure_total mx
    \<and> destination_connect_failure_total
        (fst (server_finish_connection mx tel t1 (Inl [''destination connect timeout'', ''deadline has elapsed''])))
      = destination_connect_failure_total mx + 1"
proof -
  have run: "snd (server_run_noise api env config) = Inl (Some [''Connection refused (os error 111)''])"
    if "ConnectDestination d \<in> set (fst (server_run_noise api env config))"
    using that assms(1,2) unfolding server_run_noise_def
    by (auto simp: run_bind_in case_prod_unfold simp del: fst_run_bind_lift fst_run_bind_do)
  have "ConnectDestination d \<in> set (fst (server_run_noise api env config))
      \<and> snd (handle_outer api env config tls) = snd (server_run_noise api env config)"
    using assms(3)
    by (auto simp: handle_outer_def run_bind_in failing_Inr snd_run_bind simp del: fst_run_bind_lift fst_run_bind_do
        split: if_splits)
  with run show ?thesis
    by (simp add: server_finish_connection_def Let_def connection_closed_same connection_closed_counts
        classify_destination_refused classify_destination_timeout)
qed

lemma refused_destination_not_counted_witness:
  "snd (handle_outer plain_noise ((sample_server_env [preface_encode V1, sample_first])
       \<lparr>se_connect := Ready (Inl [''Connection refused (os error 111)''])\<rparr>) sample_server_config False)
     = Inl (Some [''Connection refused (os error 111)''])"
proof -
  let ?env = "(sample_server_env [preface_encode V1, sample_first])
      \<lparr>se_connect := Ready (Inl [''Connection refused (os error 111)''])\<rparr>"
  have inc: "net_content (se_incoming ?env)
      = preface_encode V1 @ framed handshake_header (replicate 32 3 @ replicate 32 4) @ []"
    by (simp add: sample_server_env_def net_content_new sample_first_def)
  have adm: "server_admitting ?env" by (simp add: server_admitting_def sample_server_env_def)
  have keys: "server_read_private_keys (se_decode ?env) (se_fs ?env)
      (path_components (id_private_key_file (sc_identity sample_server_config)))
      (map path_components (id_additional_files (sc_identity sample_server_config)))
      = (Inr [replicate 32 2] :: plain_error key_error + bytes list)"
    "decode_clients (se_decode ?env) (sc_authorized_clients sample_server_config)
      = (Inr [replicate 32 4] :: plain_error key_error + bytes list)"
    using sample_server_keys by simp_all
  have "ConnectDestination (sc_destination_address sample_server_config)
      \<in> set (fst (server_run_noise plain_noise ?env sample_server_config))"
    using server_run_noise_admits [OF adm keys _ _ sample_steps(4,5,6) _ inc]
    by (auto simp: tunnel_limits server_connect_def)
  then have "ConnectDestination (sc_destination_address sample_server_config)
      \<in> set (fst (handle_outer plain_noise ?env sample_server_config False))"
    by (simp add: handle_outer_def sample_server_env_def)
  from refused_destination_not_counted [OF _ _ this] show ?thesis
    by (simp add: sample_server_env_def)
qed

end
