(* ===== verification/Serve_Loop.thy ===== *)
theory Serve_Loop
  imports Telemetry Client_Config Server_Config Key_Files
begin

text \<open>
  \<open>serve\<close> of both binaries: the checks at startup, and the loop that accepts connections, bounds them
  with a semaphore, keeps the metrics, and drains the sessions on shutdown.

  The loop is a relation on \<open>serve_state\<close>.  A session is known here by its telemetry; it ends
  with any result and any telemetry of the same connection, or panics.  Its permit is released in
  both cases (it is owned by the task), but only a session that ends runs \<open>finish_connection\<close>.  The
  two loops differ in \<open>finish_connection\<close> only.  The last four fields of the state count what has
  happened, for the statements.
\<close>

section \<open>Startup\<close>

datatype 'e startup_error =
    KeyProblem "'e key_error"
  | ClientConfigProblem "'e client_config_error"
  | ServerConfigProblem "'e server_config_error"
  | TlsProblem anyhow
  | BindProblem anyhow

definition client_start ::
    "fs \<Rightarrow> (utext \<Rightarrow> 'e + raw_client_config) \<Rightarrow> (client_outer_tls \<Rightarrow> anyhow + unit) \<Rightarrow> (socket_addr \<Rightarrow> anyhow + unit)
       \<Rightarrow> string \<Rightarrow> 'e startup_error + client_config" where
  "client_start fs parse tls_connector bind config_path =
     rbind (map_err KeyProblem (client_enforce_config_permissions fs (path_components config_path))) (\<lambda>_.
     rbind (map_err ClientConfigProblem
       (client_load parse (\<lambda>p. read_to_string fs (path_components p)) config_path)) (\<lambda>config.
     rbind (map_err KeyProblem
       (client_enforce_private_permissions fs (path_components (cc_private_key_file config)))) (\<lambda>_.
     rbind (if cot_enabled (cc_outer_tls config) then map_err TlsProblem (tls_connector (cc_outer_tls config))
            else Inr ()) (\<lambda>_.
     rbind (map_err BindProblem (bind (cc_listen_address config))) (\<lambda>_.
       Inr config)))))"

fun server_enforce_each :: "fs \<Rightarrow> string list \<Rightarrow> 'e key_error + unit" where
  "server_enforce_each fs [] = Inr ()"
| "server_enforce_each fs (p # ps) =
     rbind (server_enforce_private_permissions fs (path_components p)) (\<lambda>_. server_enforce_each fs ps)"

definition server_start ::
    "fs \<Rightarrow> (utext \<Rightarrow> 'e + raw_server_config) \<Rightarrow> (server_outer_tls \<Rightarrow> anyhow + unit) \<Rightarrow> (socket_addr \<Rightarrow> anyhow + unit)
       \<Rightarrow> string \<Rightarrow> 'e startup_error + server_config" where
  "server_start fs parse tls_acceptor bind config_path =
     rbind (map_err KeyProblem (server_enforce_config_permissions fs (path_components config_path))) (\<lambda>_.
     rbind (map_err ServerConfigProblem
       (server_load parse (\<lambda>p. read_to_string fs (path_components p)) config_path)) (\<lambda>config.
     rbind (map_err KeyProblem (server_enforce_each fs (identity_files (sc_identity config)))) (\<lambda>_.
     rbind (if sot_enabled (sc_outer_tls config) then map_err TlsProblem (tls_acceptor (sc_outer_tls config))
            else Inr ()) (\<lambda>_.
     rbind (map_err BindProblem (bind (sc_listen_address config))) (\<lambda>_.
       Inr config)))))"

section \<open>The loop\<close>

datatype phase = Accepting | Draining | Stopped metrics_snapshot | FailedWith anyhow

record serve_state =
  sv_permits :: nat
  sv_running :: "connection_telemetry list"
  sv_unjoined :: nat
  sv_metrics :: tunnel_metrics
  sv_shutdown :: bool
  sv_phase :: phase
  sv_accepted :: nat
  sv_rejected :: nat
  sv_panicked :: nat
  sv_early :: nat

definition serve_init :: "64 word \<Rightarrow> serve_state" where
  "serve_init max_connections =
     \<lparr>sv_permits = unat max_connections, sv_running = [], sv_unjoined = 0, sv_metrics = metrics_default,
      sv_shutdown = False, sv_phase = Accepting, sv_accepted = 0, sv_rejected = 0, sv_panicked = 0,
      sv_early = 0\<rparr>"

type_synonym finisher =
  "tunnel_metrics \<Rightarrow> connection_telemetry \<Rightarrow> nat \<Rightarrow> anyhow + unit \<Rightarrow> tunnel_metrics \<times> close_log"

definition remove_nth :: "nat \<Rightarrow> 'a list \<Rightarrow> 'a list" where
  "remove_nth i xs = take i xs @ drop (Suc i) xs"

definition on_accept :: "(tunnel_metrics \<Rightarrow> nat \<Rightarrow> tunnel_metrics \<times> connection_telemetry) \<Rightarrow> nat \<Rightarrow> serve_state \<Rightarrow> serve_state" where
  "on_accept opened t s =
     (if sv_permits s = 0 then s\<lparr>sv_rejected := sv_rejected s + 1\<rparr>
      else let (m, tel) = opened (sv_metrics s) t in
        s\<lparr>sv_permits := sv_permits s - 1, sv_metrics := m, sv_running := sv_running s @ [tel],
          sv_accepted := sv_accepted s + 1\<rparr>)"

text \<open>An error of \<open>accept\<close> or of the signal handler returns from \<open>serve\<close>; dropping the \<open>JoinSet\<close>
  aborts the sessions, which gives their permits back.\<close>

definition fail_with :: "anyhow \<Rightarrow> serve_state \<Rightarrow> serve_state" where
  "fail_with e s =
     s\<lparr>sv_phase := FailedWith e, sv_permits := sv_permits s + length (sv_running s), sv_running := [],
       sv_unjoined := 0\<rparr>"

definition ended_early :: "connection_telemetry \<Rightarrow> anyhow + unit \<Rightarrow> bool" where
  "ended_early tel r \<longleftrightarrow>
     \<not> handshake_succeeded tel \<and> (\<exists>e. r = Inl e \<and> client_close_reason_from_error e = Shutdown)"

definition on_session_end :: "finisher \<Rightarrow> nat \<Rightarrow> connection_telemetry \<Rightarrow> anyhow + unit \<Rightarrow> nat \<Rightarrow> serve_state \<Rightarrow> serve_state" where
  "on_session_end finish i tel r t s =
     s\<lparr>sv_metrics := fst (finish (sv_metrics s) tel t r), sv_running := remove_nth i (sv_running s),
       sv_permits := sv_permits s + 1, sv_unjoined := sv_unjoined s + 1,
       sv_early := sv_early s + (if ended_early tel r then 1 else 0)\<rparr>"

definition on_session_panic :: "nat \<Rightarrow> serve_state \<Rightarrow> serve_state" where
  "on_session_panic i s =
     s\<lparr>sv_running := remove_nth i (sv_running s), sv_permits := sv_permits s + 1,
       sv_unjoined := sv_unjoined s + 1, sv_panicked := sv_panicked s + 1\<rparr>"

inductive serve_step ::
    "(tunnel_metrics \<Rightarrow> nat \<Rightarrow> tunnel_metrics \<times> connection_telemetry) \<Rightarrow> finisher \<Rightarrow> (tunnel_metrics \<Rightarrow> metrics_snapshot)
       \<Rightarrow> serve_state \<Rightarrow> serve_state \<Rightarrow> bool"
  for opened finish snapshot where
  signal: "sv_phase s = Accepting \<Longrightarrow>
    serve_step opened finish snapshot s (s\<lparr>sv_shutdown := True, sv_phase := Draining\<rparr>)"
| signal_error: "sv_phase s = Accepting \<Longrightarrow> serve_step opened finish snapshot s (fail_with e s)"
| accept: "sv_phase s = Accepting \<Longrightarrow> serve_step opened finish snapshot s (on_accept opened t s)"
| accept_error: "sv_phase s = Accepting \<Longrightarrow> serve_step opened finish snapshot s (fail_with e s)"
| session_ends: "i < length (sv_running s) \<Longrightarrow> tel_id tel = tel_id (sv_running s ! i) \<Longrightarrow>
    opened_at tel = opened_at (sv_running s ! i) \<Longrightarrow>
    serve_step opened finish snapshot s (on_session_end finish i tel r t s)"
| session_panics: "i < length (sv_running s) \<Longrightarrow> serve_step opened finish snapshot s (on_session_panic i s)"
| join: "0 < sv_unjoined s \<Longrightarrow> serve_step opened finish snapshot s (s\<lparr>sv_unjoined := sv_unjoined s - 1\<rparr>)"
| drained: "sv_phase s = Draining \<Longrightarrow> sv_running s = [] \<Longrightarrow> sv_unjoined s = 0 \<Longrightarrow>
    serve_step opened finish snapshot s (s\<lparr>sv_phase := Stopped (snapshot (sv_metrics s))\<rparr>)"

definition client_serve_step :: "serve_state \<Rightarrow> serve_state \<Rightarrow> bool" where
  "client_serve_step = serve_step connection_opened client_finish_connection client_snapshot"

definition server_serve_step :: "serve_state \<Rightarrow> serve_state \<Rightarrow> bool" where
  "server_serve_step = serve_step server_connection_opened server_finish_connection server_snapshot"

section \<open>Invariant\<close>

definition ids_ok :: "serve_state \<Rightarrow> bool" where
  "ids_ok s \<longleftrightarrow>
     (\<exists>ks. map tel_id (sv_running s) = map of_nat ks \<and> distinct ks \<and> (\<forall>k \<in> set ks. k \<le> sv_accepted s))"

definition serve_inv :: "nat \<Rightarrow> serve_state \<Rightarrow> bool" where
  "serve_inv limit s \<longleftrightarrow>
     sv_permits s + length (sv_running s) = limit
     \<and> connections_total (sv_metrics s) = of_nat (sv_accepted s)
     \<and> next_connection_id (sv_metrics s) = of_nat (sv_accepted s)
     \<and> ((\<exists>e. sv_phase s = FailedWith e)
        \<or> active_connections (sv_metrics s) = of_nat (length (sv_running s) + sv_panicked s)
          \<and> handshake_success_total (sv_metrics s) + handshake_failure_total (sv_metrics s)
              + of_nat (length (sv_running s) + sv_panicked s + sv_early s) = of_nat (sv_accepted s))
     \<and> (\<forall>m. sv_phase s = Stopped m \<longrightarrow> sv_running s = [] \<and> m = client_snapshot (sv_metrics s))
     \<and> (sv_shutdown s \<longleftrightarrow> sv_phase s = Draining \<or> (\<exists>m. sv_phase s = Stopped m))
     \<and> ids_ok s"

lemma remove_nth_length: "i < length xs \<Longrightarrow> length (remove_nth i xs) = length xs - 1"
  by (simp add: remove_nth_def)

lemma remove_nth_map: "map f (remove_nth i xs) = remove_nth i (map f xs)"
  by (simp add: remove_nth_def take_map drop_map)

lemma remove_nth_distinct: "distinct xs \<Longrightarrow> distinct (remove_nth i xs)"
  using set_take_disj_set_drop_if_distinct [of xs i "Suc i"]
  by (simp add: remove_nth_def distinct_take distinct_drop)

lemma remove_nth_set: "set (remove_nth i xs) \<subseteq> set xs"
  by (auto simp: remove_nth_def dest: in_set_takeD in_set_dropD)

lemma ids_ok_remove:
  assumes "ids_ok s" and "sv_running s' = remove_nth i (sv_running s)" and "sv_accepted s' = sv_accepted s"
  shows "ids_ok s'"
proof -
  from assms(1) obtain ks where "map tel_id (sv_running s) = map of_nat ks" "distinct ks"
    "\<forall>k \<in> set ks. k \<le> sv_accepted s" by (auto simp: ids_ok_def)
  then show ?thesis
    using assms(2,3) remove_nth_set [of i ks] remove_nth_distinct [of ks i]
    unfolding ids_ok_def by (intro exI [of _ "remove_nth i ks"]) (auto simp: remove_nth_map)
qed

lemma ids_ok_accept:
  assumes "ids_ok s" and "sv_running s' = sv_running s @ [tel]" and "tel_id tel = of_nat (sv_accepted s + 1)"
    and "sv_accepted s' = sv_accepted s + 1"
  shows "ids_ok s'"
proof -
  from assms(1) obtain ks where "map tel_id (sv_running s) = map of_nat ks" "distinct ks"
    "\<forall>k \<in> set ks. k \<le> sv_accepted s" by (auto simp: ids_ok_def)
  then show ?thesis
    using assms(2-4) unfolding ids_ok_def
    by (intro exI [of _ "ks @ [sv_accepted s + 1]"]) auto
qed

lemma serve_inv_init: "serve_inv (unat n) (serve_init n)"
  by (simp add: serve_inv_def serve_init_def metrics_default_def ids_ok_def)

lemma serve_inv_rejected: "serve_inv limit (s\<lparr>sv_rejected := k\<rparr>) \<longleftrightarrow> serve_inv limit s"
  by (simp add: serve_inv_def ids_ok_def)

lemma on_accept_inv:
  assumes "serve_inv limit s" and "sv_phase s = Accepting"
  shows "serve_inv limit (on_accept connection_opened t s)"
proof (cases "sv_permits s = 0")
  case True
  with assms show ?thesis by (simp add: on_accept_def serve_inv_rejected)
next
  case False
  have "ids_ok (on_accept connection_opened t s)"
    by (rule ids_ok_accept [of s _ "snd (connection_opened (sv_metrics s) t)"])
       (use assms False in \<open>simp_all add: on_accept_def connection_opened_def telemetry_new_def serve_inv_def\<close>)
  with assms False show ?thesis
    by (simp add: on_accept_def connection_opened_def serve_inv_def algebra_simps)
qed

lemma finish_counts:
  fixes m :: tunnel_metrics and tel :: connection_telemetry and t :: nat and r :: "anyhow + unit"
  defines "m' \<equiv> fst (client_finish_connection m tel t r)"
  shows "active_connections m' = active_connections m - 1"
    "connections_total m' = connections_total m" "next_connection_id m' = next_connection_id m"
    "handshake_success_total m' + handshake_failure_total m' + (if ended_early tel r then 1 else 0)
       = handshake_success_total m + handshake_failure_total m + 1"
  by (cases r; simp add: m'_def client_finish_connection_def Let_def connection_closed_counts ended_early_def)+

lemma on_session_end_inv:
  assumes "serve_inv limit s" and "i < length (sv_running s)"
  shows "serve_inv limit (on_session_end client_finish_connection i tel r t s)"
proof -
  let ?s' = "on_session_end client_finish_connection i tel r t s"
  have len: "length (sv_running s) = Suc (length (remove_nth i (sv_running s)))"
    using assms(2) by (simp add: remove_nth_length)
  have ids: "ids_ok ?s'"
    by (rule ids_ok_remove [of s _ i]) (use assms(1) in \<open>simp_all add: on_session_end_def serve_inv_def\<close>)
  have sum: "handshake_success_total (sv_metrics ?s') + handshake_failure_total (sv_metrics ?s')
        + of_nat (length (sv_running ?s') + sv_panicked ?s' + sv_early ?s')
      = handshake_success_total (sv_metrics s) + handshake_failure_total (sv_metrics s)
        + of_nat (length (sv_running s) + sv_panicked s + sv_early s)"
    using finish_counts(4) [of "sv_metrics s" tel t r] len
    by (simp add: on_session_end_def split: if_splits)
  have active: "active_connections (sv_metrics ?s') = of_nat (length (sv_running ?s') + sv_panicked ?s')"
    if "active_connections (sv_metrics s) = of_nat (length (sv_running s) + sv_panicked s)"
    using that len by (simp add: on_session_end_def finish_counts)
  have same: "sv_phase ?s' = sv_phase s" "sv_shutdown ?s' = sv_shutdown s" "sv_accepted ?s' = sv_accepted s"
    "connections_total (sv_metrics ?s') = connections_total (sv_metrics s)"
    "next_connection_id (sv_metrics ?s') = next_connection_id (sv_metrics s)"
    "sv_permits ?s' + length (sv_running ?s') = sv_permits s + length (sv_running s)"
    using len by (simp_all add: on_session_end_def finish_counts)
  have running: "sv_running s \<noteq> []" using assms(2) by auto
  show ?thesis
    using assms(1) running sum active ids unfolding serve_inv_def same by (elim conjE disjE; simp only: simp_thms; blast)
qed

lemma on_session_panic_inv:
  assumes "serve_inv limit s" and "i < length (sv_running s)"
  shows "serve_inv limit (on_session_panic i s)"
proof -
  have len: "length (sv_running s) = Suc (length (remove_nth i (sv_running s)))"
    using assms(2) by (simp add: remove_nth_length)
  have ids: "ids_ok (on_session_panic i s)"
    by (rule ids_ok_remove [of s _ i]) (use assms(1) in \<open>simp_all add: on_session_panic_def serve_inv_def\<close>)
  show ?thesis
    using assms ids len by (auto simp: serve_inv_def on_session_panic_def algebra_simps)
qed

lemma serve_step_inv:
  assumes "client_serve_step s s'" and inv: "serve_inv limit s"
  shows "serve_inv limit s'"
  using assms(1) unfolding client_serve_step_def
proof (cases rule: serve_step.cases)
  case (accept t)
  with inv show ?thesis by (simp add: on_accept_inv)
next
  case (session_ends i tel r t)
  with inv show ?thesis by (simp add: on_session_end_inv)
next
  case (session_panics i)
  with inv show ?thesis by (simp add: on_session_panic_inv)
qed (use inv in \<open>auto simp: serve_inv_def fail_with_def ids_ok_def\<close>)

lemma serve_run_inv:
  "client_serve_step\<^sup>*\<^sup>* (serve_init n) s \<Longrightarrow> serve_inv (unat n) s"
  by (induction rule: rtranclp_induct) (auto intro: serve_inv_init serve_step_inv)

section \<open>The two loops agree\<close>

lemma serve_step_finisher:
  assumes "\<And>m tel t r. fst (f m tel t r) = fst (g m tel t r)" and "serve_step opened f snapshot s s'"
  shows "serve_step opened g snapshot s s'"
proof -
  have end_same: "on_session_end f i tel r t s = on_session_end g i tel r t s" for i tel r t s
    by (simp add: on_session_end_def assms(1))
  from assms(2) show ?thesis
    by (cases rule: serve_step.cases) (auto simp: end_same simp del: One_nat_def intro: serve_step.intros)
qed

lemma serve_step_same: "server_serve_step = client_serve_step"
  unfolding server_serve_step_def client_serve_step_def connection_opened_same snapshot_same
  by (intro ext iffI; erule serve_step_finisher [rotated]; simp add: finish_connection_same)

section \<open>A run\<close>

definition one_accepted :: serve_state where
  "one_accepted = on_accept connection_opened 0 (serve_init 2)"

definition one_ended :: serve_state where
  "one_ended = on_session_end client_finish_connection 0 (telemetry_new 1 0) (Inl [''idle timeout'']) 5000000 one_accepted"

lemma one_accepted_run: "client_serve_step\<^sup>*\<^sup>* (serve_init 2) one_accepted"
  unfolding client_serve_step_def one_accepted_def
  by (intro r_into_rtranclp accept) (simp add: serve_init_def)

lemma one_accepted_fields: "sv_running one_accepted = [telemetry_new 1 0]" "sv_accepted one_accepted = 1"
  "sv_phase one_accepted = Accepting" "sv_panicked one_accepted = 0" "sv_early one_accepted = 0"
  by (simp_all add: one_accepted_def on_accept_def serve_init_def connection_opened_def metrics_default_def)

lemma one_ended_run: "client_serve_step\<^sup>*\<^sup>* (serve_init 2) one_ended"
proof -
  have "client_serve_step one_accepted one_ended"
    unfolding client_serve_step_def one_ended_def by (rule session_ends) (simp_all add: one_accepted_fields)
  with one_accepted_run show ?thesis by (rule rtranclp.rtrancl_into_rtrancl)
qed

section \<open>Properties\<close>

text \<open>C11: The connection limit is never exceeded.  At every moment of the accept loop of either binary the
  running sessions and the free permits together make the configured limit, and no two running
  sessions have the same connection id (before the 64-bit counter has wrapped).\<close>

theorem sessions_stay_within_limit:
  assumes "client_serve_step\<^sup>*\<^sup>* (serve_init n) s \<or> server_serve_step\<^sup>*\<^sup>* (serve_init n) s"
    and "sv_accepted s < 2 ^ 64"
  shows "length (sv_running s) \<le> unat n \<and> sv_permits s + length (sv_running s) = unat n
    \<and> distinct (map tel_id (sv_running s))"
proof -
  have inv: "serve_inv (unat n) s" using assms(1) serve_run_inv by (auto simp: serve_step_same)
  then obtain ks where ks: "map tel_id (sv_running s) = map of_nat ks" "distinct ks"
    "\<forall>k \<in> set ks. k \<le> sv_accepted s" by (auto simp: serve_inv_def ids_ok_def)
  have "inj_on (of_nat :: nat \<Rightarrow> 64 word) (set ks)"
  proof (rule inj_onI)
    fix x y
    assume "x \<in> set ks" "y \<in> set ks" and eq: "(of_nat x :: 64 word) = of_nat y"
    then have "x < 2 ^ 64" "y < 2 ^ 64" using ks(3) assms(2) by fastforce+
    with arg_cong [OF eq, of unat] show "x = y" by (simp add: unat_of_nat)
  qed
  with ks have "distinct (map tel_id (sv_running s))" by (simp add: distinct_map)
  with inv show ?thesis by (simp add: serve_inv_def)
qed

lemma sessions_stay_within_limit_witness:
  "sv_permits one_accepted + 1 = 2 \<and> distinct (map tel_id (sv_running one_accepted))"
  using sessions_stay_within_limit [of 2 one_accepted] one_accepted_run
  by (simp add: one_accepted_fields)

text \<open>C19: The metrics add up.  While the service runs, and after it has stopped, the active count is the
  number of sessions that are running or have panicked, every accepted connection is counted once in
  the total, and each one that is over is counted as a handshake success or failure, except those
  that a shutdown ended before their handshake and those that panicked.\<close>

theorem metrics_add_up:
  assumes "client_serve_step\<^sup>*\<^sup>* (serve_init n) s \<or> server_serve_step\<^sup>*\<^sup>* (serve_init n) s"
    and "\<forall>e. sv_phase s \<noteq> FailedWith e"
  shows "active_connections (sv_metrics s) = of_nat (length (sv_running s) + sv_panicked s)
    \<and> connections_total (sv_metrics s) = of_nat (sv_accepted s)
    \<and> handshake_success_total (sv_metrics s) + handshake_failure_total (sv_metrics s)
        + of_nat (length (sv_running s) + sv_panicked s + sv_early s) = of_nat (sv_accepted s)"
proof -
  have "serve_inv (unat n) s" using assms(1) serve_run_inv by (auto simp: serve_step_same)
  with assms(2) show ?thesis by (auto simp: serve_inv_def)
qed

lemma metrics_add_up_witness:
  "active_connections (sv_metrics one_accepted) = 1 \<and> connections_total (sv_metrics one_accepted) = 1"
  using metrics_add_up [of 2 one_accepted] one_accepted_run by (simp add: one_accepted_fields)

text \<open>An orderly stop.  When either service has stopped after a shutdown signal, no session is
  running, all permits are back, and the snapshot it logs is that of the final metrics: the active
  count in it is the number of sessions that panicked, and its total the number of connections
  ever accepted.\<close>

theorem stopped_service_is_drained:
  assumes "client_serve_step\<^sup>*\<^sup>* (serve_init n) s \<or> server_serve_step\<^sup>*\<^sup>* (serve_init n) s"
    and "sv_phase s = Stopped snap"
  shows "sv_shutdown s \<and> sv_running s = [] \<and> sv_permits s = unat n
    \<and> snap_active snap = of_nat (sv_panicked s) \<and> snap_connections snap = of_nat (sv_accepted s)"
proof -
  have "serve_inv (unat n) s" using assms(1) serve_run_inv by (auto simp: serve_step_same)
  with assms(2) show ?thesis by (auto simp: serve_inv_def client_snapshot_def)
qed

lemma stopped_service_is_drained_witness:
  "\<exists>snap. client_serve_step\<^sup>*\<^sup>* (serve_init 2) ((serve_init 2)\<lparr>sv_shutdown := True, sv_phase := Stopped snap\<rparr>)
     \<and> snap_active snap = 0 \<and> snap_connections snap = 0"
proof -
  let ?d = "(serve_init 2)\<lparr>sv_shutdown := True, sv_phase := Draining\<rparr>"
  let ?f = "?d\<lparr>sv_phase := Stopped (client_snapshot (sv_metrics ?d))\<rparr>"
  have "client_serve_step (serve_init 2) ?d"
    unfolding client_serve_step_def by (rule signal) (simp add: serve_init_def)
  moreover have "client_serve_step ?d ?f"
    unfolding client_serve_step_def by (rule drained) (simp_all add: serve_init_def)
  ultimately have r: "client_serve_step\<^sup>*\<^sup>* (serve_init 2) ?f"
    by (meson rtranclp.rtrancl_into_rtrancl rtranclp.rtrancl_refl)
  from stopped_service_is_drained [of 2 ?f "client_snapshot (sv_metrics ?d)"] r show ?thesis
    by (intro exI [of _ "client_snapshot (sv_metrics ?d)"]) (simp add: serve_init_def)
qed

text \<open>The client service starts only from protected files: when its startup checks succeed, the
  configuration file and the configured private key file are regular files that group and world
  cannot touch, and the local listener is on a loopback address that could be bound.\<close>

theorem client_starts_from_private_files:
  assumes "client_start fs parse tls_connector bind path = Inr c"
  shows "(\<exists>m s. fs (place (path_components path)) = Some (FileNode m s) \<and> m AND 0x3F = 0)
    \<and> (\<exists>m s. fs (place (path_components (cc_private_key_file c))) = Some (FileNode m s) \<and> m AND 0x3F = 0)
    \<and> is_loopback (sa_ip (cc_listen_address c)) \<and> bind (cc_listen_address c) = Inr ()"
  using assms
  by (auto simp: client_start_def client_enforce_config_permissions_def client_enforce_private_permissions_def
      client_load_def client_from_toml_def Let_def result_iff private_mode_def)

definition start_fs :: fs where
  "start_fs = [[Normal ''c.toml''] \<mapsto> FileNode 0x180 [], [Normal ''client.key''] \<mapsto> FileNode 0x180 [],
     [Normal ''s.toml''] \<mapsto> FileNode 0x180 [], [Normal ''a.key''] \<mapsto> FileNode 0x100 [],
     [Normal ''b.key''] \<mapsto> FileNode 0x180 []]"

lemma start_paths: "path_components ''c.toml'' = [Normal ''c.toml'']" "path_components ''s.toml'' = [Normal ''s.toml'']"
  "path_components ''client.key'' = [Normal ''client.key'']" "path_components ''a.key'' = [Normal ''a.key'']"
  "path_components ''b.key'' = [Normal ''b.key'']"
  by (simp_all add: path_components_def to_component_def)

lemma client_starts_from_private_files_witness:
  "is_loopback (sa_ip (cc_listen_address (resolve_client_config sample_client_raw)))
   \<and> (\<exists>m s. start_fs [Normal ''client.key''] = Some (FileNode m s) \<and> m AND 0x3F = 0)"
proof -
  have "client_validate (resolve_client_config sample_client_raw) = (Inr () :: unit client_config_error + unit)"
    by (simp add: client_validate_def resolve_client_config_def
        sample_client_raw_def resolve_client_timeouts_def unwrap_or_def blank_iff white_space_def
        client_limits_default_def default_connect_seconds_def default_handshake_seconds_def
        default_idle_seconds_def default_max_connections_def client_outer_tls_default_def tunnel_limits)
  moreover have "cc_private_key_file (resolve_client_config sample_client_raw) = ''client.key''"
    "\<not> cot_enabled (cc_outer_tls (resolve_client_config sample_client_raw))"
    by (simp_all add: resolve_client_config_def sample_client_raw_def client_outer_tls_default_def)
  moreover have "client_enforce_sensitive_permissions start_fs [Normal ''c.toml''] kind = (Inr () :: unit key_error + unit)"
    "client_enforce_sensitive_permissions start_fs [Normal ''client.key''] kind = (Inr () :: unit key_error + unit)" for kind
    unfolding enforce_sensitive_iff by (simp_all add: start_fs_def place_def private_mode_def)
  moreover have "read_to_string start_fs [Normal ''c.toml''] = Some []"
    by (rule read_file [where m = "0x180"]) (simp_all add: start_fs_def place_def)
  ultimately have "client_start start_fs (\<lambda>_. Inr sample_client_raw :: unit + _) (\<lambda>_. Inr ()) (\<lambda>_. Inr ()) ''c.toml''
      = Inr (resolve_client_config sample_client_raw)"
    by (simp add: client_start_def client_enforce_config_permissions_def client_enforce_private_permissions_def
        client_load_def client_from_toml_def start_paths Let_def)
  from client_starts_from_private_files [OF this] show ?thesis
    by (simp add: start_paths place_def resolve_client_config_def sample_client_raw_def)
qed

text \<open>The server service starts only from protected files: the configuration file and every
  configured private key file are regular files that group and world cannot touch, and the
  destination is a loopback address.\<close>

theorem server_starts_from_private_files:
  assumes "server_start fs parse tls_acceptor bind path = Inr c"
  shows "(\<exists>m s. fs (place (path_components path)) = Some (FileNode m s) \<and> m AND 0x3F = 0)
    \<and> list_all (\<lambda>p. \<exists>m s. fs (place (path_components p)) = Some (FileNode m s) \<and> m AND 0x3F = 0)
        (identity_files (sc_identity c))
    \<and> is_loopback (sa_ip (sc_destination_address c))"
proof -
  have each: "server_enforce_each fs ps = (Inr () :: 'e key_error + unit) \<Longrightarrow>
      list_all (\<lambda>p. \<exists>m s. fs (place (path_components p)) = Some (FileNode m s) \<and> m AND 0x3F = 0) ps" for ps
    by (induction ps) (auto simp: rbind_Inr_iff key_files_same client_enforce_private_permissions_def
        enforce_sensitive_iff private_mode_def)
  from assms show ?thesis
    by (auto simp: server_start_def key_files_same client_enforce_config_permissions_def rbind_Inr_iff
        map_err_Inr_iff ok_or_Inr_iff enforce_sensitive_iff private_mode_def server_load_def
        server_from_toml_def Let_def server_validate_iff dest!: each)
qed

lemma server_starts_from_private_files_witness:
  "is_loopback (sa_ip (sc_destination_address (resolve_server_config sample_server_raw)))
   \<and> (\<exists>m s. start_fs [Normal ''b.key''] = Some (FileNode m s) \<and> m AND 0x3F = 0)"
proof -
  have rd: "read_to_string start_fs [Normal ''s.toml''] = Some []"
    by (rule read_file [where m = "0x180"]) (simp_all add: start_fs_def place_def)
  have "server_load (\<lambda>_. Inr sample_server_raw :: unit + _) (\<lambda>p. read_to_string start_fs (path_components p)) ''s.toml''
      = Inr (resolve_server_config sample_server_raw)"
    using sample_server_loads
    by (simp add: server_load_def rd start_paths)
  moreover have "identity_files (sc_identity (resolve_server_config sample_server_raw)) = [''a.key'', ''b.key'']"
    "\<not> sot_enabled (sc_outer_tls (resolve_server_config sample_server_raw))"
    by (simp_all add: identity_files_def resolve_server_config_def sample_server_raw_def unwrap_or_def
        server_outer_tls_default_def)
  moreover have "client_enforce_sensitive_permissions start_fs [Normal ''s.toml''] kind = (Inr () :: unit key_error + unit)"
    "client_enforce_sensitive_permissions start_fs [Normal ''a.key''] kind = (Inr () :: unit key_error + unit)"
    "client_enforce_sensitive_permissions start_fs [Normal ''b.key''] kind = (Inr () :: unit key_error + unit)" for kind
    unfolding enforce_sensitive_iff by (simp_all add: start_fs_def place_def private_mode_def)
  ultimately have "server_start start_fs (\<lambda>_. Inr sample_server_raw :: unit + _) (\<lambda>_. Inr ()) (\<lambda>_. Inr ()) ''s.toml''
      = Inr (resolve_server_config sample_server_raw)"
    by (simp add: server_start_def key_files_same client_enforce_config_permissions_def
        client_enforce_private_permissions_def start_paths)
  from server_starts_from_private_files [OF this] show ?thesis
    by (simp add: start_paths place_def identity_files_def resolve_server_config_def sample_server_raw_def unwrap_or_def)
qed

end
