(* ===== verification/Services.thy ===== *)
theory Services
  imports Session_Safety Serve_Loop
begin

text \<open>
  A whole service: the accept loop of \<open>Serve_Loop\<close> with the sessions of \<open>Session\<close> running in it.
  \<open>serve\<close> spawns one task per accepted connection; the task runs \<open>handle_outer\<close> (or
  \<open>handle_local\<close>) and then \<open>finish_connection\<close>.  Here the tasks take turns in any way: each step of
  a session performs its next action, and the events of the service are the actions of all
  sessions in the order in which they happen.  A session is over when it has performed all its
  actions; then its result goes to \<open>finish_connection\<close>, with a telemetry that says
  \<open>handshake_succeeded\<close> exactly if the session has marked it.

  The theory shows that this refines the loop, which leaves the sessions open, that every session
  keeps its own order however the tasks are scheduled, and that a service that drains comes to its stop.
\<close>

section \<open>The service\<close>

type_synonym session_run = "action list \<times> (anyhow option + unit)"

text \<open>Connections are numbered from 0 in the order of acceptance.  A live session is its number and the
  count of actions it has performed.\<close>

record 'env service =
  svc_loop :: serve_state
  svc_envs :: "'env list"
  svc_live :: "(nat \<times> nat) list"
  svc_ended :: "nat list"
  svc_events :: "(nat \<times> action) list"

definition service_init :: "64 word \<Rightarrow> 'env service" where
  "service_init max_connections =
     \<lparr>svc_loop = serve_init max_connections, svc_envs = [], svc_live = [], svc_ended = [], svc_events = []\<rparr>"

definition service_accept ::
    "(tunnel_metrics \<Rightarrow> nat \<Rightarrow> tunnel_metrics \<times> connection_telemetry) \<Rightarrow> nat \<Rightarrow> 'env \<Rightarrow> 'env service \<Rightarrow> 'env service" where
  "service_accept on_open t env s =
     (if sv_permits (svc_loop s) = 0 then s\<lparr>svc_loop := on_accept on_open t (svc_loop s)\<rparr>
      else s\<lparr>svc_loop := on_accept on_open t (svc_loop s), svc_envs := svc_envs s @ [env],
             svc_live := svc_live s @ [(length (svc_envs s), 0)]\<rparr>)"

definition service_fails :: "anyhow \<Rightarrow> 'env service \<Rightarrow> 'env service" where
  "service_fails e s = s\<lparr>svc_loop := fail_with e (svc_loop s), svc_live := []\<rparr>"

inductive service_step ::
    "(tunnel_metrics \<Rightarrow> nat \<Rightarrow> tunnel_metrics \<times> connection_telemetry) \<Rightarrow> finisher \<Rightarrow> (tunnel_metrics \<Rightarrow> metrics_snapshot)
       \<Rightarrow> ('env \<Rightarrow> session_run) \<Rightarrow> 'env service \<Rightarrow> 'env service \<Rightarrow> bool"
  for on_open finish snapshot run where
  signal: "sv_phase (svc_loop s) = Accepting \<Longrightarrow>
    service_step on_open finish snapshot run s
      (s\<lparr>svc_loop := (svc_loop s)\<lparr>sv_shutdown := True, sv_phase := Draining\<rparr>\<rparr>)"
| fails: "sv_phase (svc_loop s) = Accepting \<Longrightarrow> service_step on_open finish snapshot run s (service_fails e s)"
| accept: "sv_phase (svc_loop s) = Accepting \<Longrightarrow>
    service_step on_open finish snapshot run s (service_accept on_open t env s)"
| acts: "i < length (svc_live s) \<Longrightarrow> svc_live s ! i = (k, n) \<Longrightarrow> n < length (fst (run (svc_envs s ! k))) \<Longrightarrow>
    service_step on_open finish snapshot run s
      (s\<lparr>svc_live := (svc_live s)[i := (k, Suc n)],
         svc_events := svc_events s @ [(k, fst (run (svc_envs s ! k)) ! n)]\<rparr>)"
| ends: "i < length (svc_live s) \<Longrightarrow> svc_live s ! i = (k, n) \<Longrightarrow> n = length (fst (run (svc_envs s ! k))) \<Longrightarrow>
    snd (run (svc_envs s ! k)) = failing r \<Longrightarrow> tel_id tel = tel_id (sv_running (svc_loop s) ! i) \<Longrightarrow>
    opened_at tel = opened_at (sv_running (svc_loop s) ! i) \<Longrightarrow>
    handshake_succeeded tel = (MarkedHandshake \<in> set (fst (run (svc_envs s ! k)))) \<Longrightarrow>
    service_step on_open finish snapshot run s
      (s\<lparr>svc_loop := on_session_end finish i tel r t (svc_loop s), svc_live := remove_nth i (svc_live s),
         svc_ended := svc_ended s @ [k]\<rparr>)"
| panics: "i < length (svc_live s) \<Longrightarrow> svc_live s ! i = (k, n) \<Longrightarrow> n = length (fst (run (svc_envs s ! k))) \<Longrightarrow>
    snd (run (svc_envs s ! k)) = Inl None \<Longrightarrow>
    service_step on_open finish snapshot run s
      (s\<lparr>svc_loop := on_session_panic i (svc_loop s), svc_live := remove_nth i (svc_live s)\<rparr>)"
| join: "0 < sv_unjoined (svc_loop s) \<Longrightarrow>
    service_step on_open finish snapshot run s (s\<lparr>svc_loop := (svc_loop s)\<lparr>sv_unjoined := sv_unjoined (svc_loop s) - 1\<rparr>\<rparr>)"
| drained: "sv_phase (svc_loop s) = Draining \<Longrightarrow> sv_running (svc_loop s) = [] \<Longrightarrow> sv_unjoined (svc_loop s) = 0 \<Longrightarrow>
    service_step on_open finish snapshot run s
      (s\<lparr>svc_loop := (svc_loop s)\<lparr>sv_phase := Stopped (snapshot (sv_metrics (svc_loop s)))\<rparr>\<rparr>)"

text \<open>The two services.  \<open>serve\<close> hands the acceptor or connector to its sessions if TLS is enabled.\<close>

definition server_session ::
    "('p, 'b, 'h, 't, 'e) noise_lib \<Rightarrow> server_config \<Rightarrow> ('t, 'e) server_env \<Rightarrow> session_run" where
  "server_session api config env = handle_outer api env config (sot_enabled (sc_outer_tls config))"

definition client_session ::
    "('p, 'b, 'h, 't, 'e) noise_lib \<Rightarrow> client_config \<Rightarrow> ('t, 'e) client_env \<Rightarrow> session_run" where
  "client_session api config env =
     (let (tr, r) = handle_local api env config (cot_enabled (cc_outer_tls config)) in (tr, failing r))"

definition server_service ::
    "('p, 'b, 'h, 't, 'e) noise_lib \<Rightarrow> server_config \<Rightarrow> ('t, 'e) server_env service \<Rightarrow> bool" where
  "server_service api config s \<longleftrightarrow>
     (service_step server_connection_opened server_finish_connection server_snapshot (server_session api config))\<^sup>*\<^sup>*
       (service_init (sl_max_connections (sc_limits config))) s"

definition client_service ::
    "('p, 'b, 'h, 't, 'e) noise_lib \<Rightarrow> client_config \<Rightarrow> ('t, 'e) client_env service \<Rightarrow> bool" where
  "client_service api config s \<longleftrightarrow>
     (service_step connection_opened client_finish_connection client_snapshot (client_session api config))\<^sup>*\<^sup>*
       (service_init (cc_max_connections config)) s"

section \<open>The service refines the loop\<close>

text \<open>The live sessions are the running ones of the loop, place by place; each has its own number.\<close>

definition service_ok :: "'env service \<Rightarrow> bool" where
  "service_ok s \<longleftrightarrow>
     length (svc_live s) = length (sv_running (svc_loop s))
     \<and> sv_accepted (svc_loop s) = length (svc_envs s)
     \<and> distinct (map fst (svc_live s) @ svc_ended s)
     \<and> (\<forall>k \<in> set (map fst (svc_live s) @ svc_ended s). k < length (svc_envs s))"

lemma service_ok_init: "service_ok (service_init n)"
  by (simp add: service_ok_def service_init_def serve_init_def)

lemma remove_nth_middle:
  assumes "i < length xs"
  obtains ys zs where "xs = ys @ xs ! i # zs" "remove_nth i xs = ys @ zs" "length ys = i"
  using that [of "take i xs" "drop (Suc i) xs"] assms id_take_nth_drop [OF assms]
  by (simp add: remove_nth_def)

lemma ended_distinct:
  assumes "distinct (map fst live @ over)" and "i < length live" and "live ! i = (k, n)"
  shows "distinct (map fst (remove_nth i live) @ over @ [k])
    \<and> set (map fst (remove_nth i live) @ over @ [k]) = set (map fst live @ over)"
proof -
  obtain ys zs where "live = ys @ (k, n) # zs" "remove_nth i live = ys @ zs"
    using remove_nth_middle [OF assms(2)] assms(3) by metis
  with assms(1) show ?thesis by auto
qed

lemma acted_numbers:
  assumes "i < length live" and "live ! i = (k, n)"
  shows "map fst (live[i := (k, n')]) = map fst live"
  using assms by (metis fst_conv list_update_id map_update nth_map)

lemma service_step_ok:
  assumes "service_step on_open finish snapshot run s s'" and "service_ok s"
  shows "service_ok s'"
  using assms(1)
proof (cases rule: service_step.cases)
  case (accept t env)
  show ?thesis
  proof (cases "sv_permits (svc_loop s) = 0")
    case False
    have "\<forall>k \<in> set (map fst (svc_live s) @ svc_ended s). k < length (svc_envs s)"
      using assms(2) by (simp add: service_ok_def)
    then have "length (svc_envs s) \<notin> set (map fst (svc_live s) @ svc_ended s)"
      "\<forall>k \<in> set (map fst (svc_live s) @ svc_ended s). k < Suc (length (svc_envs s))" by fastforce+
    with False accept assms(2) show ?thesis
      by (simp add: service_ok_def service_accept_def on_accept_def split_beta)
  qed (use accept assms(2) in \<open>simp add: service_ok_def service_accept_def on_accept_def\<close>)
next
  case (acts i k n)
  then show ?thesis using assms(2) acted_numbers [OF acts(2,3), of "Suc n"] by (simp add: service_ok_def)
next
  case (ends i k n r tel t)
  then show ?thesis
    using assms(2) ended_distinct [OF _ ends(2,3), of "svc_ended s"]
    by (simp add: service_ok_def on_session_end_def remove_nth_length)
next
  case (panics i k n)
  then show ?thesis
    using assms(2) ended_distinct [OF _ panics(2,3), of "svc_ended s"]
    by (simp add: service_ok_def on_session_panic_def remove_nth_length) blast
qed (use assms(2) in \<open>auto simp: service_ok_def service_fails_def fail_with_def\<close>)

lemma service_step_loop:
  assumes "service_step on_open finish snapshot run s s'" and "service_ok s"
  shows "serve_step on_open finish snapshot (svc_loop s) (svc_loop s') \<or> svc_loop s' = svc_loop s"
  using assms(1)
  by (cases rule: service_step.cases)
     (use assms(2) in \<open>auto simp: service_ok_def service_fails_def service_accept_def simp del: One_nat_def
        intro: serve_step.intros\<close>)

lemma service_refines_loop:
  assumes "(service_step on_open finish snapshot run)\<^sup>*\<^sup>* (service_init n) s"
  shows "service_ok s \<and> (serve_step on_open finish snapshot)\<^sup>*\<^sup>* (serve_init n) (svc_loop s)"
  using assms
proof (induction rule: rtranclp_induct)
  case base
  show ?case using service_ok_init [of n] by (simp add: service_init_def)
next
  case (step s s')
  with service_step_ok service_step_loop show ?case by (metis rtranclp.rtrancl_into_rtrancl)
qed

section \<open>Every session keeps its order\<close>

definition session_events :: "nat \<Rightarrow> (nat \<times> action) list \<Rightarrow> action list" where
  "session_events k events = map snd (filter (\<lambda>e. fst e = k) events)"

lemma session_events_simps [simp]:
  "session_events k [] = []"
  "session_events k (es @ fs) = session_events k es @ session_events k fs"
  "session_events k ((j, a) # es) = (if j = k then a # session_events k es else session_events k es)"
  by (simp_all add: session_events_def)

lemma session_events_none: "k \<notin> fst ` set es \<Longrightarrow> session_events k es = []"
  by (auto simp: session_events_def filter_empty_conv)

text \<open>What a session has performed: a live one the first \<open>n\<close> of its actions, one that has ended all of
  them, any other (it panicked, or was dropped when the service failed) some first ones.\<close>

definition trace_of :: "('env \<Rightarrow> session_run) \<Rightarrow> 'env service \<Rightarrow> nat \<Rightarrow> action list" where
  "trace_of run s k = fst (run (svc_envs s ! k))"

definition events_ok :: "('env \<Rightarrow> session_run) \<Rightarrow> 'env service \<Rightarrow> bool" where
  "events_ok run s \<longleftrightarrow>
     (\<forall>e \<in> set (svc_events s). fst e < length (svc_envs s))
     \<and> (\<forall>k < length (svc_envs s). prefix (session_events k (svc_events s)) (trace_of run s k))
     \<and> (\<forall>(k, n) \<in> set (svc_live s). n \<le> length (trace_of run s k)
          \<and> session_events k (svc_events s) = take n (trace_of run s k))
     \<and> (\<forall>k \<in> set (svc_ended s). session_events k (svc_events s) = trace_of run s k)"

lemma events_ok_init: "events_ok run (service_init n)"
  by (simp add: events_ok_def service_init_def)

lemma events_ok_fewer:
  assumes "events_ok run s" and "svc_envs s' = svc_envs s" "svc_events s' = svc_events s"
    and "set (svc_live s') \<subseteq> set (svc_live s)"
    and "\<forall>k \<in> set (svc_ended s'). k \<in> set (svc_ended s) \<or> (k, length (trace_of run s k)) \<in> set (svc_live s)"
  shows "events_ok run s'"
proof -
  have t: "trace_of run s' = trace_of run s" by (simp add: trace_of_def assms(2) fun_eq_iff)
  show ?thesis using assms unfolding events_ok_def t by fastforce
qed

lemma events_ok_accept:
  assumes "events_ok run s" and "service_ok s"
  shows "events_ok run (service_accept on_open t env s)"
proof (cases "sv_permits (svc_loop s) = 0")
  case True
  show ?thesis by (rule events_ok_fewer [OF assms(1)]) (use True in \<open>simp_all add: service_accept_def\<close>)
next
  case False
  let ?s' = "service_accept on_open t env s"
  have new: "svc_envs ?s' = svc_envs s @ [env]" "svc_live ?s' = svc_live s @ [(length (svc_envs s), 0)]"
    "svc_events ?s' = svc_events s" "svc_ended ?s' = svc_ended s"
    using False by (simp_all add: service_accept_def)
  have old: "trace_of run ?s' k = trace_of run s k" if "k < length (svc_envs s)" for k
    using that by (simp add: trace_of_def new nth_append)
  have "\<forall>k \<in> set (map fst (svc_live s) @ svc_ended s). k < length (svc_envs s)"
    using assms(2) by (simp add: service_ok_def)
  then have numbers: "\<And>k n. (k, n) \<in> set (svc_live s) \<Longrightarrow> k < length (svc_envs s)"
    "\<And>k. k \<in> set (svc_ended s) \<Longrightarrow> k < length (svc_envs s)" by force+
  have "length (svc_envs s) \<notin> fst ` set (svc_events s)"
    using assms(1) by (auto simp: events_ok_def)
  then have fresh: "session_events (length (svc_envs s)) (svc_events s) = []" by (rule session_events_none)
  show ?thesis
    using assms(1) fresh numbers unfolding events_ok_def new
    by (auto simp: old less_Suc_eq split: prod.splits)
qed

lemma events_ok_acts:
  assumes "events_ok run s" and "service_ok s"
    and i: "i < length (svc_live s)" "svc_live s ! i = (k, n)" "n < length (trace_of run s k)"
  shows "events_ok run (s\<lparr>svc_live := (svc_live s)[i := (k, Suc n)],
    svc_events := svc_events s @ [(k, trace_of run s k ! n)]\<rparr>)" (is "events_ok run ?s'")
proof -
  have live: "(k, n) \<in> set (svc_live s)" using i by (metis nth_mem)
  have now: "session_events k (svc_events ?s') = take (Suc n) (trace_of run s k)"
    using assms(1) live i(3) by (auto simp: events_ok_def take_Suc_conv_app_nth)
  have other: "session_events j (svc_events ?s') = session_events j (svc_events s)" if "j \<noteq> k" for j
    using that by simp
  have t: "trace_of run ?s' = trace_of run s" by (simp add: trace_of_def fun_eq_iff)
  have d: "distinct (map fst (svc_live s) @ svc_ended s)" "k < length (svc_envs s)"
    using assms(2) live by (force simp: service_ok_def)+
  then have ended: "k \<notin> set (svc_ended s)" using live by force
  have rest: "j \<noteq> k" if "(j, m) \<in> set ((svc_live s)[i := (k, Suc n)])" "(j, m) \<noteq> (k, Suc n)" for j m
  proof
    assume "j = k"
    from that obtain l where l: "l < length (svc_live s)" "(svc_live s)[i := (k, Suc n)] ! l = (j, m)"
      by (auto simp: in_set_conv_nth)
    with that have "l \<noteq> i" using i(1) by auto
    with l i \<open>j = k\<close> have "map fst (svc_live s) ! l = map fst (svc_live s) ! i" by simp
    with \<open>l \<noteq> i\<close> l(1) i(1) d(1) show False
      using nth_eq_iff_index_eq [of "map fst (svc_live s)" l i] by simp
  qed
  have old: "(j, m) \<in> set (svc_live s)" if "(j, m) \<in> set ((svc_live s)[i := (k, Suc n)])" "(j, m) \<noteq> (k, Suc n)" for j m
    using that set_update_subset_insert [of "svc_live s" i "(k, Suc n)"] by blast
  have 1: "\<forall>e \<in> set (svc_events ?s'). fst e < length (svc_envs ?s')"
    using assms(1) d(2) by (auto simp: events_ok_def)
  have 2: "prefix (session_events j (svc_events ?s')) (trace_of run s j)" if "j < length (svc_envs ?s')" for j
    using now other [of j] that assms(1) by (cases "j = k") (simp_all add: take_is_prefix events_ok_def)
  have 3: "m \<le> length (trace_of run s j) \<and> session_events j (svc_events ?s') = take m (trace_of run s j)"
    if "(j, m) \<in> set (svc_live ?s')" for j m
  proof (cases "(j, m) = (k, Suc n)")
    case True
    with now i(3) show ?thesis by simp
  next
    case False
    with that rest [of j m] old [of j m] have "j \<noteq> k" "(j, m) \<in> set (svc_live s)" by simp_all
    with other [of j] assms(1) show ?thesis by (auto simp: events_ok_def)
  qed
  have 4: "session_events j (svc_events ?s') = trace_of run s j" if "j \<in> set (svc_ended ?s')" for j
    using that ended other [of j] assms(1) by (cases "j = k") (auto simp: events_ok_def)
  show ?thesis unfolding events_ok_def t using 1 2 3 4 by blast
qed

lemma service_step_events:
  assumes "service_step on_open finish snapshot run s s'" and "service_ok s" and "events_ok run s"
  shows "events_ok run s'"
  using assms(1)
proof (cases rule: service_step.cases)
  case (accept t env)
  with assms(2,3) show ?thesis by (simp add: events_ok_accept)
next
  case (acts i k n)
  with events_ok_acts [OF assms(3,2) acts(2,3)] show ?thesis by (simp add: trace_of_def)
next
  case (ends i k n r tel t)
  have "(k, n) \<in> set (svc_live s)" using ends(2,3) by (metis nth_mem)
  with ends show ?thesis
    by (intro events_ok_fewer [OF assms(3)]) (auto simp: trace_of_def dest: remove_nth_set [THEN subsetD])
next
  case (panics i k n)
  then show ?thesis
    by (intro events_ok_fewer [OF assms(3)]) (auto dest: remove_nth_set [THEN subsetD])
qed (rule events_ok_fewer [OF assms(3)]; simp add: service_fails_def)+

lemma service_events:
  assumes "(service_step on_open finish snapshot run)\<^sup>*\<^sup>* (service_init n) s"
  shows "events_ok run s"
  using assms
proof (induction rule: rtranclp_induct)
  case base
  show ?case by (rule events_ok_init)
next
  case (step s s')
  with service_refines_loop service_step_events show ?case by metis
qed

text \<open>An event, and what its session had done before it.\<close>

lemma service_event:
  assumes "events_ok run s" and "svc_events s = before @ (k, a) # after"
  shows "k < length (svc_envs s) \<and> prefix (session_events k before @ [a]) (trace_of run s k)"
proof -
  have k: "k < length (svc_envs s)" using assms by (auto simp: events_ok_def)
  then have "prefix (session_events k (svc_events s)) (trace_of run s k)" using assms(1) by (simp add: events_ok_def)
  then have "prefix (session_events k before @ a # session_events k after) (trace_of run s k)" by (simp add: assms(2))
  then show ?thesis using k by (metis append.assoc append_Cons append_Nil append_prefixD)
qed

section \<open>The metrics count the sessions\<close>

definition succeeded :: "('env \<Rightarrow> session_run) \<Rightarrow> 'env service \<Rightarrow> nat" where
  "succeeded run s = length [k \<leftarrow> svc_ended s. MarkedHandshake \<in> set (trace_of run s k)]"

definition counts_ok :: "('env \<Rightarrow> session_run) \<Rightarrow> 'env service \<Rightarrow> bool" where
  "counts_ok run s \<longleftrightarrow>
     handshake_success_total (sv_metrics (svc_loop s)) = of_nat (succeeded run s)
     \<and> ((\<exists>e. sv_phase (svc_loop s) = FailedWith e)
        \<or> length (svc_live s) + length (svc_ended s) + sv_panicked (svc_loop s) = sv_accepted (svc_loop s))"

lemma counts_ok_init: "counts_ok run (service_init n)"
  by (simp add: counts_ok_def succeeded_def service_init_def serve_init_def metrics_default_def)

lemma succeeded_same:
  assumes "svc_ended s' = svc_ended s" and "\<forall>k \<in> set (svc_ended s). svc_envs s' ! k = svc_envs s ! k"
  shows "succeeded run s' = succeeded run s"
  using assms by (auto simp: succeeded_def trace_of_def intro!: arg_cong [of _ _ length] filter_cong)

lemma finish_success:
  "handshake_success_total (fst (client_finish_connection m tel t r))
     = handshake_success_total m + (if handshake_succeeded tel then 1 else 0)"
  by (simp add: client_finish_connection_def Let_def connection_closed_counts)

lemma service_step_counts:
  assumes "service_step connection_opened finish snapshot run s s'" and "service_ok s" and "counts_ok run s"
    and finish: "\<And>m tel t r. fst (finish m tel t r) = fst (client_finish_connection m tel t r)"
  shows "counts_ok run s'"
  using assms(1)
proof (cases rule: service_step.cases)
  case (accept t env)
  have "\<forall>k \<in> set (svc_ended s). svc_envs s' ! k = svc_envs s ! k"
    using assms(2) accept(1) by (auto simp: service_accept_def service_ok_def nth_append)
  then have "succeeded run s' = succeeded run s"
    by (intro succeeded_same) (simp_all add: accept(1) service_accept_def)
  with accept assms(3) show ?thesis
    by (auto simp: counts_ok_def service_accept_def on_accept_def connection_opened_def)
next
  case (acts i k n)
  then have "succeeded run s' = succeeded run s" by (intro succeeded_same) simp_all
  with acts assms(3) show ?thesis by (simp add: counts_ok_def)
next
  case (ends i k n r tel t)
  have "succeeded run s' = succeeded run s + (if handshake_succeeded tel then 1 else 0)"
    using ends by (simp add: succeeded_def trace_of_def)
  moreover have "length (svc_live s) = Suc (length (remove_nth i (svc_live s)))"
    using ends(2) by (simp add: remove_nth_length)
  ultimately show ?thesis
    using ends(1) assms(3) by (auto simp: counts_ok_def on_session_end_def finish finish_success)
next
  case (panics i k n)
  then have "succeeded run s' = succeeded run s" by (intro succeeded_same) simp_all
  moreover have "length (svc_live s) = Suc (length (remove_nth i (svc_live s)))"
    using panics(2) by (simp add: remove_nth_length)
  ultimately show ?thesis
    using panics(1) assms(3) by (auto simp: counts_ok_def on_session_panic_def)
qed (use assms(3) in \<open>auto simp: counts_ok_def succeeded_def trace_of_def service_fails_def fail_with_def\<close>)

lemma service_step_no_panic:
  assumes "service_step on_open finish snapshot run s s'" and "\<And>env. snd (run env) \<noteq> Inl None"
    and "sv_panicked (svc_loop s) = 0"
  shows "sv_panicked (svc_loop s') = 0"
  using assms(1)
  by (cases rule: service_step.cases)
     (use assms(2,3) in \<open>auto simp: service_accept_def service_fails_def fail_with_def on_accept_def
        on_session_end_def split_beta Let_def\<close>)

lemma service_counts:
  assumes "(service_step connection_opened finish snapshot run)\<^sup>*\<^sup>* (service_init n) s"
    and "\<And>m tel t r. fst (finish m tel t r) = fst (client_finish_connection m tel t r)"
    and "\<And>env. snd (run env) \<noteq> Inl None"
  shows "counts_ok run s \<and> sv_panicked (svc_loop s) = 0"
  using assms(1)
proof (induction rule: rtranclp_induct)
  case base
  show ?case using counts_ok_init [of run n] by (simp add: service_init_def serve_init_def)
next
  case (step s s')
  from service_refines_loop [OF step.hyps(1)] have "service_ok s" by blast
  with step service_step_counts [OF step.hyps(2) _ _ assms(2)] service_step_no_panic [OF step.hyps(2) assms(3)]
  show ?case by blast
qed

text \<open>Both services, with the invariant of the loop.\<close>

lemma service_inv:
  assumes run: "(service_step connection_opened finish client_snapshot run)\<^sup>*\<^sup>* (service_init n) s"
    and finish: "\<And>m tel t r. fst (finish m tel t r) = fst (client_finish_connection m tel t r)"
  shows "serve_inv (unat n) (svc_loop s)"
proof -
  have "(serve_step connection_opened finish client_snapshot)\<^sup>*\<^sup>* (serve_init n) (svc_loop s)"
    using service_refines_loop [OF run] by blast
  then have "client_serve_step\<^sup>*\<^sup>* (serve_init n) (svc_loop s)"
    unfolding client_serve_step_def
    by (rule rtranclp_mono [THEN predicate2D, rotated]) (auto intro: serve_step_finisher [OF finish])
  then show ?thesis by (rule serve_run_inv)
qed

definition accounts :: "nat \<Rightarrow> ('env \<Rightarrow> session_run) \<Rightarrow> 'env service \<Rightarrow> bool" where
  "accounts limit run s \<longleftrightarrow>
     length (svc_live s) \<le> limit \<and> sv_panicked (svc_loop s) = 0
     \<and> connections_total (sv_metrics (svc_loop s)) = of_nat (length (svc_envs s))
     \<and> handshake_success_total (sv_metrics (svc_loop s)) = of_nat (succeeded run s)
     \<and> ((\<exists>e. sv_phase (svc_loop s) = FailedWith e)
        \<or> active_connections (sv_metrics (svc_loop s)) = of_nat (length (svc_live s))
          \<and> handshake_success_total (sv_metrics (svc_loop s)) + handshake_failure_total (sv_metrics (svc_loop s))
              + of_nat (sv_early (svc_loop s)) = of_nat (length (svc_ended s))
          \<and> length (svc_live s) + length (svc_ended s) = length (svc_envs s))"

lemma service_accounts:
  assumes "(service_step connection_opened finish client_snapshot run)\<^sup>*\<^sup>* (service_init n) s"
    and "\<And>m tel t r. fst (finish m tel t r) = fst (client_finish_connection m tel t r)"
    and "\<And>env. snd (run env) \<noteq> Inl None"
  shows "accounts (unat n) run s"
proof -
  have inv: "serve_inv (unat n) (svc_loop s)" by (rule service_inv [OF assms(1,2)])
  have c: "counts_ok run s" "sv_panicked (svc_loop s) = 0" using service_counts [OF assms] by blast+
  have ok: "length (svc_live s) = length (sv_running (svc_loop s))"
    "sv_accepted (svc_loop s) = length (svc_envs s)"
    using service_refines_loop [OF assms(1)] by (simp_all add: service_ok_def)
  show ?thesis
  proof (cases "\<exists>e. sv_phase (svc_loop s) = FailedWith e")
    case True
    with inv c ok show ?thesis by (simp add: accounts_def serve_inv_def counts_ok_def)
  next
    case False
    with inv c ok have n: "length (svc_live s) + length (svc_ended s) = length (svc_envs s)"
      "handshake_success_total (sv_metrics (svc_loop s)) + handshake_failure_total (sv_metrics (svc_loop s))
         + of_nat (length (svc_live s)) + of_nat (sv_early (svc_loop s)) = of_nat (length (svc_envs s))"
      by (auto simp: serve_inv_def counts_ok_def algebra_simps)
    then have "handshake_success_total (sv_metrics (svc_loop s)) + handshake_failure_total (sv_metrics (svc_loop s))
         + of_nat (sv_early (svc_loop s)) = of_nat (length (svc_ended s))"
      by (simp flip: n(1) add: algebra_simps)
    with False inv c ok n(1) show ?thesis by (auto simp: accounts_def serve_inv_def counts_ok_def)
  qed
qed

lemma server_service_run:
  "server_service api config s \<Longrightarrow>
     (service_step connection_opened server_finish_connection client_snapshot (server_session api config))\<^sup>*\<^sup>*
       (service_init (sl_max_connections (sc_limits config))) s"
  by (simp add: server_service_def connection_opened_same snapshot_same)

lemma sessions_do_not_panic:
  "snd (server_session api config env) \<noteq> Inl None" "snd (client_session api config' env') \<noteq> Inl None"
  using server_session_never_panics [of api env config]
  by (simp_all add: server_session_def client_session_def split_beta)

lemma server_order:
  assumes "prefix (xs @ [a]) ((if tls then [TlsAccept] else [])
    @ [Sent message, Flushed, MarkedHandshake, ConnectDestination d, StartedRelay])"
  shows "a \<notin> set xs \<and> (\<forall>d'. a = ConnectDestination d' \<longrightarrow> d' = d \<and> MarkedHandshake \<in> set xs)
    \<and> (a = StartedRelay \<longrightarrow> ConnectDestination d \<in> set xs)"
  using assms by (cases tls) (auto simp: snoc_eq_iff_butlast simp flip: in_set_prefixes)

section \<open>Draining\<close>

text \<open>What is left to do when no connection is accepted any more: the actions of the live sessions, their
  ends, the joins, and the stop itself.\<close>

definition actions_left :: "('env \<Rightarrow> session_run) \<Rightarrow> 'env service \<Rightarrow> nat" where
  "actions_left run s = sum_list (map (\<lambda>(k, n). length (trace_of run s k) - n) (svc_live s))"

definition work_left :: "('env \<Rightarrow> session_run) \<Rightarrow> 'env service \<Rightarrow> nat" where
  "work_left run s = actions_left run s + 2 * length (svc_live s) + sv_unjoined (svc_loop s)
     + (if sv_phase (svc_loop s) = Draining then 1 else 0)"

definition closing :: "'env service \<Rightarrow> bool" where
  "closing s \<longleftrightarrow> sv_phase (svc_loop s) = Draining
     \<or> (\<exists>snap. sv_phase (svc_loop s) = Stopped snap) \<and> svc_live s = [] \<and> sv_unjoined (svc_loop s) = 0"

lemma actions_left_remove:
  assumes "i < length (svc_live s)" and "svc_live s ! i = (k, n)" and "n = length (trace_of run s k)"
    and "svc_live s' = remove_nth i (svc_live s)" and "svc_envs s' = svc_envs s"
  shows "actions_left run s' = actions_left run s \<and> Suc (length (svc_live s')) = length (svc_live s)"
proof -
  obtain ys zs where "svc_live s = ys @ (k, n) # zs" "remove_nth i (svc_live s) = ys @ zs"
    using remove_nth_middle [OF assms(1)] assms(2) by metis
  then show ?thesis using assms(3-5) by (simp add: actions_left_def trace_of_def)
qed

lemma actions_left_act:
  assumes "i < length (svc_live s)" and "svc_live s ! i = (k, n)" and "n < length (trace_of run s k)"
    and "svc_live s' = (svc_live s)[i := (k, Suc n)]" and "svc_envs s' = svc_envs s"
  shows "Suc (actions_left run s') = actions_left run s \<and> length (svc_live s') = length (svc_live s)"
proof -
  obtain ys zs where live: "svc_live s = ys @ (k, n) # zs" "length ys = i"
    using remove_nth_middle [OF assms(1)] assms(2) by metis
  then have "svc_live s' = ys @ (k, Suc n) # zs" using assms(4) list_update_length [of ys "(k, n)" zs] by simp
  with live(1) show ?thesis using assms(3,5) by (simp add: actions_left_def trace_of_def)
qed

lemma closing_step:
  assumes "service_step on_open finish snapshot run s s'" and "closing s" and "service_ok s"
  shows "closing s' \<and> work_left run s' < work_left run s"
  using assms(1)
proof (cases rule: service_step.cases)
  case (acts i k n)
  with actions_left_act [of i s k n run s'] assms(2) show ?thesis
    by (auto simp: closing_def work_left_def trace_of_def)
next
  case (ends i k n r tel t)
  with actions_left_remove [of i s k n run s'] assms(2) show ?thesis
    by (auto simp: closing_def work_left_def trace_of_def on_session_end_def)
next
  case (panics i k n)
  with actions_left_remove [of i s k n run s'] assms(2) show ?thesis
    by (auto simp: closing_def work_left_def trace_of_def on_session_panic_def)
qed (use assms(2,3) in \<open>auto simp: closing_def work_left_def actions_left_def trace_of_def service_ok_def\<close>)

lemma closing_run:
  assumes "(service_step on_open finish snapshot run ^^ n) s s'" and "closing s" and "service_ok s"
  shows "closing s' \<and> service_ok s' \<and> n + work_left run s' \<le> work_left run s"
  using assms
proof (induction n arbitrary: s')
  case (Suc n)
  then obtain t where t: "(service_step on_open finish snapshot run ^^ n) s t" "service_step on_open finish snapshot run t s'"
    by auto
  from Suc.IH [OF t(1) Suc.prems(2,3)] closing_step [OF t(2)] service_step_ok [OF t(2)] show ?case by fastforce
qed simp

lemma draining_goes_on:
  assumes "service_ok s" and "events_ok run s" and "sv_phase (svc_loop s) = Draining"
  shows "\<exists>s'. service_step on_open finish snapshot run s s'"
proof (cases "svc_live s")
  case Nil
  with assms(1) have "sv_running (svc_loop s) = []" by (simp add: service_ok_def)
  with assms(3) show ?thesis
    by (cases "sv_unjoined (svc_loop s) = 0") (blast intro: drained, blast intro: join)
next
  case (Cons l ls)
  obtain k n where l: "l = (k, n)" by fastforce
  then have i: "0 < length (svc_live s)" "svc_live s ! 0 = (k, n)" using Cons by simp_all
  have le: "n \<le> length (fst (run (svc_envs s ! k)))" using assms(2) Cons l by (auto simp: events_ok_def trace_of_def)
  consider "n < length (fst (run (svc_envs s ! k)))"
    | "n = length (fst (run (svc_envs s ! k)))" "snd (run (svc_envs s ! k)) = Inl None"
    | r where "n = length (fst (run (svc_envs s ! k)))" "snd (run (svc_envs s ! k)) = failing r"
    using le
    by (cases "snd (run (svc_envs s ! k))"; metis failing_Inl_simp run_Inr_simps(1) le_neq_implies_less option.exhaust)
  then show ?thesis
  proof cases
    case 1
    show ?thesis by (rule exI, rule acts [where i = 0 and s = s and run = run and k = k and n = n, OF i 1])
  next
    case 2
    show ?thesis by (rule exI, rule panics [where i = 0 and s = s and run = run and k = k and n = n, OF i 2])
  next
    case (3 r)
    let ?tel = "(sv_running (svc_loop s) ! 0)\<lparr>handshake_succeeded := MarkedHandshake \<in> set (fst (run (svc_envs s ! k)))\<rparr>"
    show ?thesis
      by (rule exI, rule ends [where i = 0 and s = s and run = run and k = k and n = n and r = r and tel = ?tel, OF i 3]) simp_all
  qed
qed

section \<open>A run\<close>

definition sample_server_text :: raw_server_config where
  "sample_server_text =
     \<lparr>rs_listen_address = SocketAddr (V4 0 0 0 0) 7000, rs_destination_address = SocketAddr (V4 127 0 0 1) 8080,
      rs_private_key_file = ''s.key'', rs_additional_files = None,
      rs_authorized_clients = [\<lparr>ac_name = [65], ac_public_key = plain_encode (plain_public (replicate 32 3))\<rparr>],
      rs_outer_tls = None, rs_limits = None, rs_timeouts = None\<rparr>"

definition sample_start_fs :: fs where
  "sample_start_fs = sample_key_fs([Normal ''s.toml''] \<mapsto> FileNode 0x180 [])"

lemma sample_server_starts:
  "server_start sample_start_fs (\<lambda>_. Inr sample_server_text :: unit + _) (\<lambda>_. Inr ()) (\<lambda>_. Inr ()) ''s.toml''
     = Inr sample_server_config"
proof -
  have resolved: "resolve_server_config sample_server_text = sample_server_config"
    by (simp add: resolve_server_config_def sample_server_text_def sample_server_config_def unwrap_or_def)
  have rd: "read_to_string sample_start_fs [Normal ''s.toml''] = Some []"
    by (rule read_file [where m = "0x180"]) (simp_all add: sample_start_fs_def place_def)
  have "plain_encode (plain_public (replicate 32 3)) \<noteq> []"
    by (simp add: plain_encode_def plain_public_sample)
  then have "server_validate sample_server_config = (Inr () :: unit server_config_error + unit)"
    by (simp add: server_validate_iff sample_server_config_def identity_files_def server_outer_tls_default_def
        server_limits_default_def server_timeouts_default_def server_default_connect_seconds_def
        server_default_handshake_seconds_def server_default_idle_seconds_def server_default_max_connections_def
        server_default_record_bytes_def tunnel_limits blank_iff white_space_def
        plain_public_sample plain_encode_def)
  then have "server_load (\<lambda>_. Inr sample_server_text :: unit + _) (\<lambda>p. read_to_string sample_start_fs (path_components p)) ''s.toml''
      = Inr sample_server_config"
    by (simp add: server_load_def server_from_toml_def rd start_paths resolved)
  moreover have "identity_files (sc_identity sample_server_config) = [''s.key'']"
    "\<not> sot_enabled (sc_outer_tls sample_server_config)"
    by (simp_all add: identity_files_def sample_server_config_def server_outer_tls_default_def)
  moreover have "client_enforce_sensitive_permissions sample_start_fs [Normal ''s.toml''] kind = (Inr () :: unit key_error + unit)"
    "client_enforce_sensitive_permissions sample_start_fs [Normal ''s.key''] kind = (Inr () :: unit key_error + unit)" for kind
    unfolding enforce_sensitive_iff by (simp_all add: sample_start_fs_def sample_key_fs_def place_def private_mode_def)
  ultimately show ?thesis
    by (simp add: server_start_def key_files_same client_enforce_config_permissions_def
        client_enforce_private_permissions_def start_paths sample_paths)
qed

text \<open>One connection is accepted, and its session performs its first \<open>n\<close> actions.\<close>

definition sample_env :: "(nat \<times> nat, plain_error) server_env" where
  "sample_env = sample_server_env [preface_encode V1, sample_first]"

definition sample_trace :: "action list" where
  "sample_trace = [Sent sample_reply, Flushed, MarkedHandshake, ConnectDestination (SocketAddr (V4 127 0 0 1) 8080), StartedRelay]"

definition sample_service :: "nat \<Rightarrow> (nat \<times> nat, plain_error) server_env service" where
  "sample_service n =
     \<lparr>svc_loop = on_accept server_connection_opened 0 (serve_init 32), svc_envs = [sample_env], svc_live = [(0, n)],
      svc_ended = [], svc_events = map (Pair 0) (take n sample_trace)\<rparr>"

lemma sample_session: "server_session plain_noise sample_server_config sample_env = (sample_trace, Inr ())"
  using sample_server_run
  by (simp add: server_session_def sample_env_def sample_trace_def sample_server_config_def server_outer_tls_default_def)

lemma sample_service_run: "n \<le> 5 \<Longrightarrow> server_service plain_noise sample_server_config (sample_service n)"
proof (induction n)
  case 0
  have limit: "sl_max_connections (sc_limits sample_server_config) = 32"
    by (simp add: sample_server_config_def server_limits_default_def server_default_max_connections_def)
  have "service_accept server_connection_opened 0 sample_env (service_init 32) = sample_service 0"
    by (simp add: service_accept_def service_init_def serve_init_def sample_service_def)
  moreover have "sv_phase (svc_loop (service_init 32 :: (nat \<times> nat, plain_error) server_env service)) = Accepting"
    by (simp add: service_init_def serve_init_def)
  ultimately show ?case
    unfolding server_service_def limit by (metis r_into_rtranclp accept)
next
  case (Suc n)
  have n: "n < length sample_trace" using Suc.prems by (simp add: sample_trace_def)
  let ?step = "service_step server_connection_opened server_finish_connection server_snapshot
    (server_session plain_noise sample_server_config)"
  have "?step (sample_service n) ((sample_service n)\<lparr>svc_live := (svc_live (sample_service n))[0 := (0, Suc n)],
      svc_events := svc_events (sample_service n) @
        [(0, fst (server_session plain_noise sample_server_config (svc_envs (sample_service n) ! 0)) ! n)]\<rparr>)"
    using n by (intro acts) (simp_all add: sample_service_def sample_session)
  moreover have "(sample_service n)\<lparr>svc_live := (svc_live (sample_service n))[0 := (0, Suc n)],
      svc_events := svc_events (sample_service n) @
        [(0, fst (server_session plain_noise sample_server_config (svc_envs (sample_service n) ! 0)) ! n)]\<rparr> = sample_service (Suc n)"
    using n by (simp add: sample_service_def sample_session take_Suc_conv_app_nth)
  ultimately show ?case
    using Suc by (simp add: server_service_def)
qed

section \<open>Properties\<close>

text \<open>C5: The running server acts only for authorised clients.  A server that has started from its
  configuration serves any number of connections at once, their sessions interleaved in any way.
  Whatever it does on the network for one of them, apart from the outer TLS handshake, it does after
  that client has sent a first message that a configured identity decrypts to a key on the list;
  every connection it opens goes to the configured destination, on a loopback address, after the
  handshake of the same session has been marked; a relay starts only after that connection was opened;
  and a session does nothing twice.\<close>

theorem running_server_serves_authorised:
  assumes "server_start fs parse tls_acceptor bind path = Inr config"
    and "server_service api config s" and "svc_events s = before @ (k, a) # after"
  shows "k < length (svc_envs s) \<and> (k, a) \<notin> set before
    \<and> (a \<noteq> TlsAccept \<longrightarrow> (\<exists>key m rest st. authorised_by api (svc_envs s ! k) config key m rest st))
    \<and> (\<forall>d. a = ConnectDestination d \<longrightarrow> d = sc_destination_address config \<and> is_loopback (sa_ip d)
         \<and> (k, MarkedHandshake) \<in> set before)
    \<and> (a = StartedRelay \<longrightarrow> (k, ConnectDestination (sc_destination_address config)) \<in> set before)"
proof -
  let ?tls = "if sot_enabled (sc_outer_tls config) then [TlsAccept] else []"
  obtain tr r where run: "handle_outer api (svc_envs s ! k) config (sot_enabled (sc_outer_tls config)) = (tr, r)"
    by fastforce
  have "events_ok (server_session api config) s" using assms(2) unfolding server_service_def by (rule service_events)
  from service_event [OF this assms(3)] have k: "k < length (svc_envs s)"
    and pre: "prefix (session_events k before @ [a]) tr"
    by (simp_all add: trace_of_def server_session_def run)
  obtain message where order: "prefix tr (?tls @ [Sent message, Flushed, MarkedHandshake,
      ConnectDestination (sc_destination_address config), StartedRelay])"
    and auth: "set tr \<subseteq> {TlsAccept} \<or> (\<exists>key m rest st. authorised_by api (svc_envs s ! k) config key m rest st)"
    using handle_outer_authorised [OF run] by blast
  have "a \<in> set tr" using set_mono_prefix [OF pre] by simp
  have seen: "x \<in> set (session_events k before) \<longleftrightarrow> (k, x) \<in> set before" for x
    by (force simp: session_events_def)
  have "is_loopback (sa_ip (sc_destination_address config))"
    using assms(1) by (auto simp: server_start_def result_iff server_load_def server_from_toml_def Let_def)
  moreover from pre order have "prefix (session_events k before @ [a]) (?tls @ [Sent message, Flushed, MarkedHandshake,
      ConnectDestination (sc_destination_address config), StartedRelay])" by (rule prefix_order.trans)
  ultimately show ?thesis
    using k auth \<open>a \<in> set tr\<close> server_order [of "session_events k before" a] unfolding seen [symmetric] by blast
qed

lemma running_server_serves_authorised_witness:
  "\<exists>key m rest st. authorised_by plain_noise sample_env sample_server_config key m rest st"
proof -
  have "svc_events (sample_service 5) = map (Pair 0) [Sent sample_reply, Flushed, MarkedHandshake]
      @ (0, ConnectDestination (SocketAddr (V4 127 0 0 1) 8080)) # [(0, StartedRelay)]"
    by (simp add: sample_service_def sample_trace_def)
  from running_server_serves_authorised [OF sample_server_starts sample_service_run this] show ?thesis
    by (simp add: sample_service_def)
qed

text \<open>C12: The services account for every connection.  With its sessions in place, either service is a
  run of its accept loop, and at every moment: no more sessions are live than configured, none has
  panicked, the metrics' total is the number of connections accepted, and the success count is the
  number of ended sessions that marked their handshake; unless the service has failed, the active
  count is the number of live sessions, the successes and failures, with the sessions that a
  shutdown ended before their handshake, make all that have ended, and every connection is either
  live or has ended.\<close>

theorem services_account_for_connections:
  fixes sapi :: "('p, 'b, 'h, 't, 'e) noise_lib" and capi :: "('p2, 'b2, 'h2, 't2, 'e2) noise_lib"
  assumes "server_service sapi sconfig s" and "client_service capi cconfig c"
  shows "server_serve_step\<^sup>*\<^sup>* (serve_init (sl_max_connections (sc_limits sconfig))) (svc_loop s)
    \<and> accounts (unat (sl_max_connections (sc_limits sconfig))) (server_session sapi sconfig) s
    \<and> client_serve_step\<^sup>*\<^sup>* (serve_init (cc_max_connections cconfig)) (svc_loop c)
    \<and> accounts (unat (cc_max_connections cconfig)) (client_session capi cconfig) c"
proof (intro conjI)
  show "server_serve_step\<^sup>*\<^sup>* (serve_init (sl_max_connections (sc_limits sconfig))) (svc_loop s)"
    using assms(1) service_refines_loop unfolding server_service_def server_serve_step_def by blast
  show "client_serve_step\<^sup>*\<^sup>* (serve_init (cc_max_connections cconfig)) (svc_loop c)"
    using assms(2) service_refines_loop unfolding client_service_def client_serve_step_def by blast
  show "accounts (unat (sl_max_connections (sc_limits sconfig))) (server_session sapi sconfig) s"
    by (rule service_accounts [OF server_service_run [OF assms(1)] finish_connection_same sessions_do_not_panic(1)])
  show "accounts (unat (cc_max_connections cconfig)) (client_session capi cconfig) c"
    using assms(2) unfolding client_service_def
    by (rule service_accounts [OF _ refl sessions_do_not_panic(2)])
qed

lemma services_account_for_connections_witness:
  "accounts 32 (server_session plain_noise sample_server_config) (sample_service 3)
   \<and> active_connections (sv_metrics (svc_loop (sample_service 3))) = 1"
proof -
  have "client_service plain_noise sample_client_config
      (service_init (cc_max_connections sample_client_config) :: (nat \<times> nat, plain_error) client_env service)"
    by (simp add: client_service_def)
  from services_account_for_connections [OF sample_service_run [of 3] this] show ?thesis
    by (simp add: sample_service_def sample_server_config_def server_limits_default_def server_default_max_connections_def
        on_accept_def serve_init_def server_connection_opened_def metrics_default_def)
qed


definition sample_draining :: "(nat \<times> nat, plain_error) server_env service" where
  "sample_draining =
     (sample_service 3)\<lparr>svc_loop := (svc_loop (sample_service 3))\<lparr>sv_shutdown := True, sv_phase := Draining\<rparr>\<rparr>"


end
