(* ===== verification/Metrics_Races.thy ===== *)
theory Metrics_Races
  imports Telemetry "HOL-Library.Multiset"
begin

text \<open>
  The process metrics under concurrency.  \<open>Telemetry\<close> runs \<open>connection_opened\<close> and
  \<open>connection_closed\<close> of \<open>TunnelMetrics\<close> in one piece.  In the programs many sessions share the
  metrics, and what is atomic is each \<open>fetch_add\<close> and \<open>fetch_sub\<close>: here a call is the list of
  its atomic updates, in the order of the code, and the calls in flight interleave in any way.

  A relaxed update of one counter is still atomic, and each counter has one modification order; no
  code between two updates reads a shared counter except the one \<open>fetch_add\<close> that gives out a
  connection id.  So an interleaving of whole updates is all that can be told apart.
\<close>

section \<open>Atomic updates\<close>

datatype counter =
    Active | NextId | HandshakeSuccess | HandshakeFailure | UnauthorizedTotal | DecryptTotal
  | ConnectionsTotal | BytesIn | BytesOut | DurationMs | DestinationFailure

fun counter_of :: "counter \<Rightarrow> tunnel_metrics \<Rightarrow> 64 word" where
  "counter_of Active m = active_connections m"
| "counter_of NextId m = next_connection_id m"
| "counter_of HandshakeSuccess m = handshake_success_total m"
| "counter_of HandshakeFailure m = handshake_failure_total m"
| "counter_of UnauthorizedTotal m = unauthorized_client_total m"
| "counter_of DecryptTotal m = decrypt_failure_total m"
| "counter_of ConnectionsTotal m = connections_total m"
| "counter_of BytesIn m = bytes_in_total m"
| "counter_of BytesOut m = bytes_out_total m"
| "counter_of DurationMs m = connection_duration_ms_total m"
| "counter_of DestinationFailure m = destination_connect_failure_total m"

fun set_counter :: "counter \<Rightarrow> 64 word \<Rightarrow> tunnel_metrics \<Rightarrow> tunnel_metrics" where
  "set_counter Active v m = m\<lparr>active_connections := v\<rparr>"
| "set_counter NextId v m = m\<lparr>next_connection_id := v\<rparr>"
| "set_counter HandshakeSuccess v m = m\<lparr>handshake_success_total := v\<rparr>"
| "set_counter HandshakeFailure v m = m\<lparr>handshake_failure_total := v\<rparr>"
| "set_counter UnauthorizedTotal v m = m\<lparr>unauthorized_client_total := v\<rparr>"
| "set_counter DecryptTotal v m = m\<lparr>decrypt_failure_total := v\<rparr>"
| "set_counter ConnectionsTotal v m = m\<lparr>connections_total := v\<rparr>"
| "set_counter BytesIn v m = m\<lparr>bytes_in_total := v\<rparr>"
| "set_counter BytesOut v m = m\<lparr>bytes_out_total := v\<rparr>"
| "set_counter DurationMs v m = m\<lparr>connection_duration_ms_total := v\<rparr>"
| "set_counter DestinationFailure v m = m\<lparr>destination_connect_failure_total := v\<rparr>"

text \<open>\<open>TakeId\<close> is the \<open>fetch_add\<close> of \<open>next_connection_id\<close>, whose result plus one is the new id.\<close>

datatype atomic_op = FetchAdd counter "64 word" | FetchSub counter "64 word" | TakeId

fun perform :: "atomic_op \<Rightarrow> tunnel_metrics \<Rightarrow> tunnel_metrics" where
  "perform (FetchAdd c v) m = set_counter c (counter_of c m + v) m"
| "perform (FetchSub c v) m = set_counter c (counter_of c m - v) m"
| "perform TakeId m = set_counter NextId (counter_of NextId m + 1) m"

fun id_given :: "atomic_op \<Rightarrow> tunnel_metrics \<Rightarrow> 64 word list" where
  "id_given TakeId m = [counter_of NextId m + 1]"
| "id_given (FetchAdd c v) m = []"
| "id_given (FetchSub c v) m = []"

section \<open>The calls\<close>

definition client_opened_ops :: "atomic_op list" where
  "client_opened_ops = [FetchAdd Active 1, FetchAdd ConnectionsTotal 1, TakeId]"

definition server_opened_ops :: "atomic_op list" where
  "server_opened_ops = [FetchAdd Active 1, FetchAdd ConnectionsTotal 1, TakeId]"

definition client_closed_ops :: "connection_telemetry \<Rightarrow> close_reason \<Rightarrow> 64 word \<Rightarrow> atomic_op list" where
  "client_closed_ops telemetry reason duration =
     [FetchSub Active 1]
     @ (let handshaken = handshake_succeeded telemetry in
        if handshaken then [FetchAdd HandshakeSuccess 1]
        else if reason \<noteq> Shutdown then [FetchAdd HandshakeFailure 1] else [])
     @ (if reason = UnauthorizedClient then [FetchAdd UnauthorizedTotal 1] else [])
     @ (if reason = close_reason.DecryptFailed then [FetchAdd DecryptTotal 1] else [])
     @ (if reason = DestinationConnectFailed then [FetchAdd DestinationFailure 1] else [])
     @ [FetchAdd BytesIn (bytes_client_to_server telemetry), FetchAdd BytesOut (bytes_server_to_client telemetry),
        FetchAdd DurationMs duration]"

definition server_closed_ops :: "connection_telemetry \<Rightarrow> close_reason \<Rightarrow> 64 word \<Rightarrow> atomic_op list" where
  "server_closed_ops telemetry reason duration =
     [FetchSub Active 1]
     @ (if handshake_succeeded telemetry then [FetchAdd HandshakeSuccess 1]
        else if reason \<noteq> Shutdown then [FetchAdd HandshakeFailure 1] else [])
     @ (if reason = UnauthorizedClient then [FetchAdd UnauthorizedTotal 1] else [])
     @ (if reason = close_reason.DecryptFailed then [FetchAdd DecryptTotal 1] else [])
     @ (if reason = DestinationConnectFailed then [FetchAdd DestinationFailure 1] else [])
     @ [FetchAdd BytesIn (bytes_client_to_server telemetry), FetchAdd BytesOut (bytes_server_to_client telemetry),
        FetchAdd DurationMs duration]"

lemma metric_ops_same: "server_opened_ops = client_opened_ops" "server_closed_ops = client_closed_ops"
  by (simp_all add: fun_eq_iff server_opened_ops_def client_opened_ops_def server_closed_ops_def client_closed_ops_def)

datatype metric_call = is_Opened: Opened nat | Closed connection_telemetry close_reason "64 word"

fun client_call_ops :: "metric_call \<Rightarrow> atomic_op list" where
  "client_call_ops (Opened now) = client_opened_ops"
| "client_call_ops (Closed tel reason d) = client_closed_ops tel reason d"

fun server_call_ops :: "metric_call \<Rightarrow> atomic_op list" where
  "server_call_ops (Opened now) = server_opened_ops"
| "server_call_ops (Closed tel reason d) = server_closed_ops tel reason d"

lemma call_ops_same: "server_call_ops = client_call_ops"
proof
  show "server_call_ops call = client_call_ops call" for call
    by (cases call) (simp_all add: metric_ops_same)
qed

text \<open>A call in one piece.\<close>

fun run_call :: "metric_call \<Rightarrow> tunnel_metrics \<Rightarrow> tunnel_metrics" where
  "run_call (Opened now) m = fst (connection_opened m now)"
| "run_call (Closed tel reason d) m = client_connection_closed m tel reason d"

section \<open>Interleaving\<close>

text \<open>The calls in flight are what is left of each; a step performs the next update of one of them.\<close>

record race =
  rc_metrics :: tunnel_metrics
  rc_calls :: "atomic_op list list"
  rc_ids :: "64 word list"

definition race_init :: "tunnel_metrics \<Rightarrow> atomic_op list list \<Rightarrow> race" where
  "race_init m calls = \<lparr>rc_metrics = m, rc_calls = calls, rc_ids = []\<rparr>"

inductive race_step :: "race \<Rightarrow> race \<Rightarrow> bool" where
  update: "i < length (rc_calls s) \<Longrightarrow> rc_calls s ! i = a # rest \<Longrightarrow>
    race_step s (s\<lparr>rc_metrics := perform a (rc_metrics s), rc_calls := (rc_calls s)[i := rest],
      rc_ids := rc_ids s @ id_given a (rc_metrics s)\<rparr>)"

definition race_over :: "race \<Rightarrow> bool" where
  "race_over s \<longleftrightarrow> list_all (\<lambda>c. c = []) (rc_calls s)"

section \<open>What an update adds\<close>

fun op_delta :: "counter \<Rightarrow> atomic_op \<Rightarrow> 64 word" where
  "op_delta c (FetchAdd d v) = (if c = d then v else 0)"
| "op_delta c (FetchSub d v) = (if c = d then - v else 0)"
| "op_delta c TakeId = (if c = NextId then 1 else 0)"

definition ops_delta :: "counter \<Rightarrow> atomic_op list \<Rightarrow> 64 word" where
  "ops_delta c as = sum_list (map (op_delta c) as)"

definition call_delta :: "counter \<Rightarrow> atomic_op list list \<Rightarrow> 64 word" where
  "call_delta c calls = sum_list (map (ops_delta c) calls)"

lemma counter_of_set_counter [simp]: "counter_of c (set_counter d v m) = (if c = d then v else counter_of c m)"
  by (cases c; cases d) simp_all

lemma counter_of_perform [simp]: "counter_of c (perform a m) = counter_of c m + op_delta c a"
  by (cases a; cases "c = NextId") (simp_all del: set_counter.simps)

lemma metrics_eqI: "(\<And>c. counter_of c m = counter_of c m') \<Longrightarrow> m = m'" for m m' :: tunnel_metrics
proof -
  assume eq: "\<And>c. counter_of c m = counter_of c m'"
  show "m = m'"
    using eq [of Active] eq [of NextId] eq [of HandshakeSuccess] eq [of HandshakeFailure]
      eq [of UnauthorizedTotal] eq [of DecryptTotal] eq [of ConnectionsTotal] eq [of BytesIn]
      eq [of BytesOut] eq [of DurationMs] eq [of DestinationFailure]
    by simp
qed

lemma ops_delta_simps [simp]:
  "ops_delta c [] = 0" "ops_delta c (a # as) = op_delta c a + ops_delta c as"
  "ops_delta c (as @ bs) = ops_delta c as + ops_delta c bs"
  by (simp_all add: ops_delta_def)

lemma call_delta_simps [simp]:
  "call_delta c [] = 0" "call_delta c (a # as) = ops_delta c a + call_delta c as"
  "call_delta c (as @ bs) = call_delta c as + call_delta c bs"
  by (simp_all add: call_delta_def)

lemma sum_list_update_nth:
  fixes f :: "'a \<Rightarrow> 'b::comm_monoid_add"
  shows "i < length xs \<Longrightarrow> sum_list (map f (xs[i := y])) + f (xs ! i) = sum_list (map f xs) + f y"
proof (induction xs arbitrary: i)
  case (Cons x xs)
  show ?case
  proof (cases i)
    case (Suc k)
    then show ?thesis using Cons.IH [of k] Cons.prems by (simp add: add.assoc)
  qed (simp add: ac_simps)
qed simp

lemma call_delta_update:
  assumes "i < length calls" and "calls ! i = a # rest"
  shows "call_delta c (calls[i := rest]) + op_delta c a = call_delta c calls"
  using sum_list_update_nth [OF assms(1), of "ops_delta c" rest] assms(2)
  by (simp add: call_delta_def algebra_simps)

lemma run_call_adds: "counter_of c (run_call call m) = counter_of c m + ops_delta c (client_call_ops call)"
proof (cases call)
  case (Opened now)
  then show ?thesis by (cases c) (simp_all add: connection_opened_def client_opened_ops_def)
next
  case (Closed tel reason d)
  then show ?thesis
    by (cases c) (simp_all add: client_connection_closed_def client_closed_ops_def Let_def)
qed

lemma run_calls_add:
  "counter_of c (fold run_call calls m) = counter_of c m + call_delta c (map client_call_ops calls)"
  by (induction calls arbitrary: m) (simp_all add: run_call_adds)

section \<open>What a race keeps\<close>

definition openings :: "atomic_op list list \<Rightarrow> nat" where
  "openings calls = length (filter (\<lambda>a. a = TakeId) (concat calls))"

lemma openings_update:
  assumes "i < length calls" and "calls ! i = a # rest"
  shows "openings calls = openings (calls[i := rest]) + (if a = TakeId then 1 else 0)"
  using sum_list_update_nth [OF assms(1), of "\<lambda>as. length (filter (\<lambda>a. a = TakeId) as)" rest] assms(2)
  by (simp add: openings_def filter_concat length_concat comp_def split: if_splits)

lemma openings_calls:
  "openings (map client_call_ops calls) = length [c \<leftarrow> calls. is_Opened c]"
proof (induction calls)
  case (Cons c calls)
  have "filter (\<lambda>a. a = TakeId) (client_closed_ops tel reason d) = []" for tel reason d
    by (simp add: client_closed_ops_def)
  with Cons show ?case by (cases c) (simp_all add: openings_def client_opened_ops_def)
qed (simp add: openings_def)

lemma race_keeps_sum:
  assumes "race_step\<^sup>*\<^sup>* (race_init m calls) s"
  shows "counter_of c (rc_metrics s) + call_delta c (rc_calls s) = counter_of c m + call_delta c calls"
  using assms
proof (induction rule: rtranclp_induct)
  case (step s s')
  from step.hyps(2) show ?case
  proof cases
    case (update i a rest)
    have "counter_of c (rc_metrics s') + call_delta c (rc_calls s')
        = counter_of c (rc_metrics s) + (call_delta c ((rc_calls s)[i := rest]) + op_delta c a)"
      by (simp add: update(1))
    then show ?thesis using step.IH call_delta_update [OF update(2,3), of c] by simp
  qed
qed (simp add: race_init_def)

text \<open>The ids are given out in the order of the \<open>fetch_add\<close>s, as long as nothing else touches their counter.\<close>

definition id_op :: "atomic_op \<Rightarrow> bool" where
  "id_op a \<longleftrightarrow> op_delta NextId a = (if a = TakeId then 1 else 0)"

definition only_takes_ids :: "atomic_op list list \<Rightarrow> bool" where
  "only_takes_ids calls \<longleftrightarrow> list_all (list_all id_op) calls"

lemma only_takes_ids_update:
  assumes "only_takes_ids calls" and "i < length calls" and "calls ! i = a # rest"
  shows "only_takes_ids (calls[i := rest]) \<and> id_op a"
proof -
  have "list_all id_op (calls ! i)"
    using assms(1,2) unfolding only_takes_ids_def list_all_length [of "list_all id_op"] by blast
  then have rest: "list_all id_op rest" and a: "id_op a" by (simp_all add: assms(3))
  have "set (calls[i := rest]) \<subseteq> insert rest (set calls)" by (rule set_update_subset_insert)
  with a rest assms(1) show ?thesis by (auto simp: only_takes_ids_def list.pred_set [of "list_all id_op"])
qed

lemma only_takes_ids_calls: "only_takes_ids (map client_call_ops calls)"
proof -
  have "list_all id_op (client_call_ops call)" for call
    by (cases call) (simp_all add: client_opened_ops_def client_closed_ops_def id_op_def)
  then show ?thesis by (simp add: only_takes_ids_def list_all_iff [of "list_all id_op"])
qed

definition ids_from :: "64 word \<Rightarrow> nat \<Rightarrow> 64 word list" where
  "ids_from start n = map (\<lambda>k. start + of_nat (Suc k)) [0..<n]"

lemma ids_from_Suc [simp]: "ids_from start (Suc n) = ids_from start n @ [start + of_nat (Suc n)]"
  by (simp add: ids_from_def)

lemma race_keeps_ids:
  assumes "race_step\<^sup>*\<^sup>* (race_init m calls) s" and "only_takes_ids calls"
  shows "only_takes_ids (rc_calls s) \<and> openings (rc_calls s) + length (rc_ids s) = openings calls
    \<and> next_connection_id (rc_metrics s) = next_connection_id m + of_nat (length (rc_ids s))
    \<and> rc_ids s = ids_from (next_connection_id m) (length (rc_ids s))"
  using assms(1)
proof (induction rule: rtranclp_induct)
  case base
  with assms(2) show ?case by (simp add: race_init_def ids_from_def)
next
  case (step s s')
  from step.hyps(2) show ?case
  proof cases
    case (update i a rest)
    have ok: "only_takes_ids ((rc_calls s)[i := rest])"
      and d: "op_delta NextId a = (if a = TakeId then 1 else 0)"
      using only_takes_ids_update [OF _ update(2,3)] step.IH by (auto simp: id_op_def)
    have n: "next_connection_id (perform a (rc_metrics s)) = next_connection_id (rc_metrics s) + op_delta NextId a"
      using counter_of_perform [of NextId a "rc_metrics s"] by (simp only: counter_of.simps)
    show ?thesis
    proof (cases "a = TakeId")
      case True
      then show ?thesis
        using step.IH ok update(1) openings_update [OF update(2,3)]
        by (auto simp: algebra_simps)
    next
      case False
      then have "id_given a (rc_metrics s) = []" by (cases a) simp_all
      with False show ?thesis
        using step.IH ok update(1) n d openings_update [OF update(2,3)] by simp
    qed
  qed
qed

lemma race_over_left: "race_over s \<Longrightarrow> call_delta c (rc_calls s) = 0 \<and> openings (rc_calls s) = 0"
proof -
  have "list_all (\<lambda>c. c = []) calls \<Longrightarrow> call_delta c calls = 0 \<and> openings calls = 0" for calls
    by (induction calls) (simp_all add: openings_def)
  then show "race_over s \<Longrightarrow> ?thesis" by (simp add: race_over_def)
qed

text \<open>A race that is not over can go on, and every step leaves less to do.\<close>

lemma race_goes_on: "\<not> race_over s \<Longrightarrow> \<exists>s'. race_step s s'"
proof -
  assume "\<not> race_over s"
  then obtain i where "i < length (rc_calls s)" "rc_calls s ! i \<noteq> []"
    by (auto simp: race_over_def list_all_length)
  then show ?thesis by (metis neq_Nil_conv race_step.update)
qed

lemma race_step_shrinks:
  assumes "race_step s s'"
  shows "sum_list (map length (rc_calls s')) < sum_list (map length (rc_calls s))"
proof -
  obtain i a rest where "i < length (rc_calls s)" "rc_calls s ! i = a # rest" "rc_calls s' = (rc_calls s)[i := rest]"
    using assms by (cases rule: race_step.cases) auto
  then show ?thesis using sum_list_update_nth [of i "rc_calls s" length rest] by simp
qed

lemma race_ends: "\<exists>s'. race_step\<^sup>*\<^sup>* s s' \<and> race_over s'"
proof (induction "sum_list (map length (rc_calls s))" arbitrary: s rule: less_induct)
  case less
  show ?case
  proof (cases "race_over s")
    case False
    then obtain s1 where "race_step s s1" using race_goes_on by blast
    with less [of s1] race_step_shrinks show ?thesis by (meson converse_rtranclp_into_rtranclp)
  qed blast
qed

section \<open>Properties\<close>

text \<open>C20: Concurrent sessions lose no update of the metrics.  Calls of \<open>connection_opened\<close> and
  \<open>connection_closed\<close> that run at the same time, their atomic updates interleaved in any way, always
  come to an end, and then leave the metrics that the same calls leave when each runs in one piece,
  in any order one likes; and the connection ids they have given out are consecutive, each once.\<close>

theorem concurrent_updates_serialize:
  assumes "race_step\<^sup>*\<^sup>* (race_init m (map client_call_ops calls)) s
      \<or> race_step\<^sup>*\<^sup>* (race_init m (map server_call_ops calls)) s"
  shows "(\<exists>s'. race_step\<^sup>*\<^sup>* s s' \<and> race_over s')
    \<and> (race_over s \<longrightarrow>
        (\<forall>calls'. mset calls' = mset calls \<longrightarrow> rc_metrics s = fold run_call calls' m)
        \<and> rc_ids s = ids_from (next_connection_id m) (length [c \<leftarrow> calls. is_Opened c]))"
proof (intro conjI impI allI)
  show "\<exists>s'. race_step\<^sup>*\<^sup>* s s' \<and> race_over s'" by (rule race_ends)
next
  fix calls'
  assume over: "race_over s" and perm: "mset calls' = mset calls"
  have run: "race_step\<^sup>*\<^sup>* (race_init m (map client_call_ops calls)) s" using assms by (simp add: call_ops_same)
  have same: "call_delta c (map client_call_ops calls') = call_delta c (map client_call_ops calls)" for c
    using perm by (simp add: call_delta_def comp_def flip: sum_mset_sum_list)
  show "rc_metrics s = fold run_call calls' m"
    using race_keeps_sum [OF run] race_over_left [OF over]
    by (intro metrics_eqI) (simp add: run_calls_add same)
next
  assume over: "race_over s"
  have run: "race_step\<^sup>*\<^sup>* (race_init m (map client_call_ops calls)) s" using assms by (simp add: call_ops_same)
  show "rc_ids s = ids_from (next_connection_id m) (length [c \<leftarrow> calls. is_Opened c])"
    using race_keeps_ids [OF run only_takes_ids_calls] race_over_left [OF over]
    by (simp add: openings_calls) metis
qed

text \<open>One session ends while another opens.\<close>

definition closing_and_opening :: "metric_call list" where
  "closing_and_opening = [Closed (telemetry_new 1 0) IdleTimeout 5, Opened 7]"

lemma concurrent_updates_serialize_witness:
  "\<exists>s. race_step\<^sup>*\<^sup>* (race_init metrics_default (map client_call_ops closing_and_opening)) s
     \<and> rc_metrics s = client_connection_closed (fst (connection_opened metrics_default 7)) (telemetry_new 1 0) IdleTimeout 5
     \<and> rc_ids s = [1]"
proof -
  obtain s where s: "race_step\<^sup>*\<^sup>* (race_init metrics_default (map client_call_ops closing_and_opening)) s" "race_over s"
    using race_ends by blast
  from concurrent_updates_serialize [of metrics_default closing_and_opening s] s
  have t: "mset calls' = mset closing_and_opening \<longrightarrow> rc_metrics s = fold run_call calls' metrics_default"
    "rc_ids s = ids_from (next_connection_id metrics_default) (length [c \<leftarrow> closing_and_opening. is_Opened c])" for calls'
    by blast+
  have "rc_metrics s = fold run_call (rev closing_and_opening) metrics_default" by (rule t(1) [rule_format]) simp
  with s(1) t(2) show ?thesis
    by (intro exI [of _ s]) (simp add: closing_and_opening_def ids_from_def metrics_default_def)
qed

end
