(* ===== verification/Doctor.thy ===== *)
theory Doctor
  imports Session_Safety Serve_Loop
begin

text \<open>
  \<open>doctor\<close> of both binaries: the check of an installation before the service is started.

  The client's version is a session computation, because it ends with a real handshake
  (\<open>verify_remote_noise\<close>); the server's only looks at files, keys, its port and its destination.
  The lines they print are left out.  The TOML parser, the texts of configuration errors, the TLS
  constructors and the outcome of binding are arguments, the same ones as of the startup in
  \<open>Serve_Loop\<close>.
\<close>

section \<open>The commands\<close>

definition client_doctor ::
    "('p, 'b, 'h, 't, 'e) noise_lib \<Rightarrow> ('t, 'e) client_env \<Rightarrow> (utext \<Rightarrow> 'e + raw_client_config)
       \<Rightarrow> ('e client_config_error \<Rightarrow> anyhow) \<Rightarrow> (client_outer_tls \<Rightarrow> anyhow + unit) \<Rightarrow> (socket_addr \<Rightarrow> anyhow + unit)
       \<Rightarrow> string \<Rightarrow> (anyhow, unit) run" where
  "client_doctor api env parse config_text tls_connector bind path =
     run_bind (run_lift (map_err (tx_key (ce_texts env))
         (client_enforce_config_permissions (ce_fs env) (path_components path)))) (\<lambda>_.
     run_bind (run_lift (map_err config_text
         (client_load parse (\<lambda>p. read_to_string (ce_fs env) (path_components p)) path))) (\<lambda>config.
     run_bind (run_lift (map_err (tx_key (ce_texts env))
         (client_read_private_key (ce_decode env) (ce_fs env) (path_components (cc_private_key_file config)))))
       (\<lambda>private_key.
     run_bind (run_lift (map_err (tx_key (ce_texts env))
         (client_decode_public_key (ce_decode env) (cc_server_public_key config)))) (\<lambda>server.
     run_bind (run_lift (bind (cc_listen_address config))) (\<lambda>_.
       verify_remote_noise api env (tls_connector (cc_outer_tls config)) config private_key server)))))"

datatype 'e doctor_error =
    DoctorKey "'e key_error"
  | DoctorConfig "'e server_config_error"
  | DoctorTls anyhow
  | InvalidClientKey utext "'e key_error"
  | DoctorBind anyhow
  | DestinationUnavailable anyhow

fun doctor_clients :: "(utext \<Rightarrow> bytes option) \<Rightarrow> authorised_client list \<Rightarrow> 'e doctor_error + unit" where
  "doctor_clients decode [] = Inr ()"
| "doctor_clients decode (c # cs) =
     rbind (map_err (InvalidClientKey (ac_name c)) (server_decode_public_key decode (ac_public_key c))) (\<lambda>_.
       doctor_clients decode cs)"

definition server_doctor ::
    "fs \<Rightarrow> (utext \<Rightarrow> bytes option) \<Rightarrow> (utext \<Rightarrow> 'e + raw_server_config) \<Rightarrow> (server_outer_tls \<Rightarrow> anyhow + unit)
       \<Rightarrow> (socket_addr \<Rightarrow> anyhow + unit) \<Rightarrow> (socket_addr \<Rightarrow> anyhow + unit) \<Rightarrow> string \<Rightarrow> 'e doctor_error + unit" where
  "server_doctor fs decode parse tls_acceptor bind connect path =
     rbind (map_err DoctorKey (server_enforce_config_permissions fs (path_components path))) (\<lambda>_.
     rbind (map_err DoctorConfig (server_load parse (\<lambda>p. read_to_string fs (path_components p)) path)) (\<lambda>config.
     rbind (map_err DoctorKey (server_read_private_keys decode fs
         (path_components (id_private_key_file (sc_identity config)))
         (map path_components (id_additional_files (sc_identity config))))) (\<lambda>_.
     rbind (if sot_enabled (sc_outer_tls config) then map_err DoctorTls (tls_acceptor (sc_outer_tls config))
            else Inr ()) (\<lambda>_.
     rbind (doctor_clients decode (sc_authorized_clients config)) (\<lambda>_.
     rbind (map_err DoctorBind (bind (sc_listen_address config))) (\<lambda>_.
       map_err DestinationUnavailable (connect (sc_destination_address config))))))))"

section \<open>Lemmas\<close>

lemma snd_run_bind_Inr:
  "snd (run_bind m k) = Inr y \<longleftrightarrow> (\<exists>x. snd m = Inr x \<and> snd (k x) = Inr y)"
  by (cases m) (auto simp: run_bind_def split: sum.splits prod.splits)

lemma run_eq: "(m = (tr, r)) \<longleftrightarrow> fst m = tr \<and> snd m = r"
  by (cases m) auto

text \<open>A passing check of the remote side is a session up to its relay.\<close>

lemma verify_then_session:
  assumes "snd (verify_remote_noise api env connector config private_key server) = Inr ()"
    and "\<not> ce_shutdown env" "ce_local_nodelay env = Inr ()" "ce_local_keepalive env = Inr ()"
    and "client_read_private_key (ce_decode env) (ce_fs env) (path_components (cc_private_key_file config))
           = (Inr private_key :: 'e key_error + bytes)"
    and "client_decode_public_key (ce_decode env) (cc_server_public_key config) = (Inr server :: 'e key_error + bytes)"
  shows "\<exists>session remote.
      handle_local (api :: ('p, 'b, 'h, 't, 'e) noise_lib) env config (cot_enabled (cc_outer_tls config)) =
        (fst (verify_remote_noise api env connector config private_key server) @ [MarkedHandshake, StartedRelay],
         ce_relay env session remote)
    \<and> (cot_enabled (cc_outer_tls config) \<longrightarrow> connector = Inr ())"
proof -
  have no_shutdown: "no_shutdown r = OpFirst \<longleftrightarrow> r = OpFirst" for r by (cases r) (simp_all add: no_shutdown_def)
  have nd: "no_shutdown OpFirst = OpFirst" by (simp add: no_shutdown_def)
  let ?h = "complete_noise_handshake api env private_key server"
  from assms(1) have conn: "ce_connect_race env = OpFirst" "ce_connect env = Ready (Inr ())"
    "ce_remote_nodelay env = Inr ()" "ce_remote_keepalive env = Inr ()"
    by (auto simp: verify_remote_noise_def snd_run_bind_Inr result_iff no_shutdown enable_tcp_keepalive_def
        simp del: snd_run_bind_lift snd_run_bind_do)
  from assms(1) obtain session remote where h: "snd ?h = Inr (session, remote)"
    by (auto simp: verify_remote_noise_def snd_run_bind_Inr
        simp del: snd_run_bind_lift snd_run_bind_do split: if_splits)
  have tls: "connector = Inr () \<and> (\<exists>name. tls_server_name (ce_valid_server_name env) (cc_outer_tls config) = Inr name)
      \<and> ce_tls_race env = OpFirst \<and> ce_tls env = Ready (Inr ())" if "cot_enabled (cc_outer_tls config)"
    using assms(1) that by (auto simp: verify_remote_noise_def snd_run_bind_Inr result_iff no_shutdown
        simp del: snd_run_bind_lift snd_run_bind_do)
  have noise: "client_run_noise api env config = (fst ?h @ [MarkedHandshake, StartedRelay], ce_relay env session remote)"
    using assms(5,6) h
    by (simp add: client_run_noise_def run_eq fst_run_bind snd_run_bind run_do_def)
  show ?thesis
  proof (cases "cot_enabled (cc_outer_tls config)")
    case True
    with tls obtain name where t: "connector = Inr ()"
      "tls_server_name (ce_valid_server_name env) (cc_outer_tls config) = Inr name"
      "ce_tls_race env = OpFirst" "ce_tls env = Ready (Inr ())" by blast
    show ?thesis
      using True t conn assms(2-4) noise h
      by (auto simp: handle_local_def verify_remote_noise_def enable_tcp_keepalive_def nd run_eq
          fst_run_bind snd_run_bind run_do_def)
  next
    case False
    show ?thesis
      using False conn assms(2-4) noise h
      by (auto simp: handle_local_def verify_remote_noise_def enable_tcp_keepalive_def nd run_eq
          fst_run_bind snd_run_bind run_do_def)
  qed
qed

lemma decode_clients_checked:
  "doctor_clients decode cs = (Inr () :: 'e doctor_error + unit) \<Longrightarrow>
     \<exists>ks. decode_clients decode cs = (Inr ks :: 'e key_error + bytes list)"
  by (induction cs) (auto simp: result_iff)

lemma collected_keys_are_private:
  "server_collect_keys decode fs (map path_components ps) = (Inr ks :: 'e key_error + bytes list) \<Longrightarrow>
     server_enforce_each fs ps = (Inr () :: 'e key_error + unit) \<and> length ks = length ps"
  by (induction ps arbitrary: ks) (auto simp: result_iff server_read_private_key_def)

section \<open>Properties\<close>

text \<open>C36: A passing \<open>doctor\<close> of the client predicts the service: with the same files, port and remote
  side, the startup checks succeed with the same configuration, and a session that meets the same
  answers goes through exactly the steps the check has taken and then marks its handshake and starts
  its relay.\<close>

theorem client_doctor_predicts_sessions:
  assumes "client_doctor api env parse config_text tls_connector bind path = (tr, Inr ())"
    and "\<not> ce_shutdown env" and "ce_local_nodelay env = Inr ()" and "ce_local_keepalive env = Inr ()"
  shows "\<exists>config session remote.
      client_start (ce_fs env) parse tls_connector bind path = Inr config
    \<and> handle_local api env config (cot_enabled (cc_outer_tls config)) =
        (tr @ [MarkedHandshake, StartedRelay], ce_relay env session remote)"
proof -
  let ?read = "\<lambda>p. read_to_string (ce_fs env) (path_components p)"
  let ?verify = "\<lambda>config. verify_remote_noise api env (tls_connector (cc_outer_tls config)) config"
  from assms(1) obtain config private_key server where
    perm: "client_enforce_config_permissions (ce_fs env) (path_components path) = (Inr () :: 'e key_error + unit)" and
    load: "client_load parse ?read path = Inr config" and
    key: "client_read_private_key (ce_decode env) (ce_fs env) (path_components (cc_private_key_file config))
            = (Inr private_key :: 'e key_error + bytes)" and
    pub: "client_decode_public_key (ce_decode env) (cc_server_public_key config) = (Inr server :: 'e key_error + bytes)" and
    bind: "bind (cc_listen_address config) = Inr ()" and
    verify: "snd (?verify config private_key server) = Inr ()" and
    tr: "tr = fst (?verify config private_key server)"
    by (auto simp: client_doctor_def run_eq map_err_Inr_iff split: sum.splits)
  from verify_then_session [OF verify assms(2-4) key pub] obtain session remote where
    run: "handle_local api env config (cot_enabled (cc_outer_tls config)) =
        (tr @ [MarkedHandshake, StartedRelay], ce_relay env session remote)" and
    tls: "cot_enabled (cc_outer_tls config) \<longrightarrow> tls_connector (cc_outer_tls config) = Inr ()"
    unfolding tr by blast
  from key have "client_enforce_private_permissions (ce_fs env) (path_components (cc_private_key_file config))
      = (Inr () :: 'e key_error + unit)"
    by (auto simp: client_read_private_key_def rbind_Inr_iff)
  with perm load bind tls have "client_start (ce_fs env) parse tls_connector bind path = Inr config"
    by (simp add: client_start_def)
  with run show ?thesis by blast
qed

definition doctor_fs :: fs where
  "doctor_fs = sample_key_fs([Normal ''c.toml''] \<mapsto> FileNode 0x180 [], [Normal ''s.toml''] \<mapsto> FileNode 0x180 [])"

definition doctor_client_raw :: raw_client_config where
  "doctor_client_raw =
     \<lparr>rc_listen_address = SocketAddr (V4 127 0 0 1) 1080, rc_remote_address = [65], rc_private_key_file = ''c.key'',
      rc_server_public_key = plain_encode (replicate 32 3), rc_outer_tls = Some (Some True, Some [97], None),
      rc_timeouts = None, rc_limits = None\<rparr>"

lemma doctor_paths: "path_components ''c.toml'' = [Normal ''c.toml'']" "path_components ''s.toml'' = [Normal ''s.toml'']"
  by (simp_all add: path_components_def to_component_def)

lemma doctor_files:
  "client_enforce_sensitive_permissions doctor_fs [Normal ''c.toml''] kind = (Inr () :: 'e key_error + unit)"
  "client_enforce_sensitive_permissions doctor_fs [Normal ''s.toml''] kind = (Inr () :: 'e key_error + unit)"
  "read_to_string doctor_fs [Normal ''c.toml''] = Some []" "read_to_string doctor_fs [Normal ''s.toml''] = Some []"
  "client_read_private_key plain_decode doctor_fs [Normal ''c.key''] = (Inr (replicate 32 3) :: 'e key_error + bytes)"
  "client_read_private_key plain_decode doctor_fs [Normal ''s.key''] = (Inr (replicate 32 2) :: 'e key_error + bytes)"
proof -
  show "client_enforce_sensitive_permissions doctor_fs [Normal ''c.toml''] kind = (Inr () :: 'e key_error + unit)"
    "client_enforce_sensitive_permissions doctor_fs [Normal ''s.toml''] kind = (Inr () :: 'e key_error + unit)"
    unfolding enforce_sensitive_iff by (simp_all add: doctor_fs_def place_def private_mode_def)
  show "read_to_string doctor_fs [Normal ''c.toml''] = Some []" "read_to_string doctor_fs [Normal ''s.toml''] = Some []"
    by (rule read_file [where m = "0x180"]; simp add: doctor_fs_def place_def)+
  show "client_read_private_key plain_decode doctor_fs [Normal ''c.key''] = (Inr (replicate 32 3) :: 'e key_error + bytes)"
    "client_read_private_key plain_decode doctor_fs [Normal ''s.key''] = (Inr (replicate 32 2) :: 'e key_error + bytes)"
    unfolding read_private_key_iff
    by (simp_all add: doctor_fs_def sample_key_fs_def place_def private_mode_def)
qed

lemma plain_encode_replicate: "plain_encode (replicate n b) = replicate n (256 + unat b)"
  by (simp add: plain_encode_def)

lemma doctor_client_loads:
  "client_load (\<lambda>_. Inr doctor_client_raw :: plain_error + _) (\<lambda>p. read_to_string doctor_fs (path_components p)) ''c.toml''
     = Inr sample_client_config"
proof -
  have "resolve_client_config doctor_client_raw = sample_client_config"
    by (simp add: resolve_client_config_def doctor_client_raw_def sample_client_config_def plain_public_sample
        unwrap_or_def resolve_client_timeouts_def client_limits_default_def default_max_connections_def)
  moreover have "client_validate sample_client_config = (Inr () :: plain_error client_config_error + unit)"
    by (simp add: client_validate_iff sample_client_config_def blank_iff white_space_def plain_public_sample
        plain_encode_replicate client_timeouts_default_def default_connect_seconds_def
        default_handshake_seconds_def default_idle_seconds_def tunnel_limits)
  ultimately show ?thesis
    by (simp add: client_load_def doctor_paths doctor_files client_from_toml_def Let_def)
qed

lemma client_doctor_predicts_sessions_witness:
  "\<exists>config. client_start doctor_fs (\<lambda>_. Inr doctor_client_raw :: plain_error + _) (\<lambda>_. Inr ()) (\<lambda>_. Inr ()) ''c.toml''
     = Inr config"
proof -
  let ?env = "(sample_client_env [sample_reply])\<lparr>ce_fs := doctor_fs\<rparr>"
  have w: "client_willing ?env sample_client_config"
    using sample_willing(1) by (simp add: client_willing_def)
  have inc: "net_content (ce_incoming ?env) = framed handshake_header (replicate 32 3 @ replicate 32 4) @ []"
    by (simp add: sample_client_env_def net_content_def sample_reply_def)
  from complete_noise_handshake_runs [OF w sample_steps(1,2,3) _ this] obtain remote where
    hs: "complete_noise_handshake plain_noise ?env (replicate 32 3) (replicate 32 3) =
      ([Sent (preface_encode V1), Sent sample_first, Flushed], Inr (transport_session_new (0, 0), remote))"
    by (auto simp: tunnel_limits)
  have "\<exists>tr. verify_remote_noise plain_noise ?env (Inr ()) sample_client_config (replicate 32 3) (replicate 32 3) = (tr, Inr ())"
    using hs by (simp add: verify_remote_noise_def sample_client_env_def sample_client_config_def no_shutdown_def
        tls_server_name_def run_lift_def)
  then obtain tr where "verify_remote_noise plain_noise ?env (Inr ()) sample_client_config (replicate 32 3) (replicate 32 3) = (tr, Inr ())"
    by blast
  moreover have env: "ce_fs ?env = doctor_fs" "ce_decode ?env = plain_decode" "\<not> ce_shutdown ?env"
    "ce_local_nodelay ?env = Inr ()" "ce_local_keepalive ?env = Inr ()"
    by (simp_all add: sample_client_env_def)
  moreover have "client_decode_public_key plain_decode (cc_server_public_key sample_client_config)
      = (Inr (replicate 32 3) :: plain_error key_error + bytes)"
    using sample_client_keys(2) by (simp add: sample_client_env_def)
  moreover have "path_components (cc_private_key_file sample_client_config) = [Normal ''c.key'']"
    by (simp add: sample_client_config_def sample_paths)
  ultimately have "client_doctor plain_noise ?env (\<lambda>_. Inr doctor_client_raw) (\<lambda>_. []) (\<lambda>_. Inr ()) (\<lambda>_. Inr ()) ''c.toml'' = (tr, Inr ())"
    by (simp add: client_doctor_def client_enforce_config_permissions_def doctor_files doctor_paths
        doctor_client_loads)
  from client_doctor_predicts_sessions [OF this env(3-5)] show ?thesis by (auto simp: env(1))
qed

text \<open>C37: A passing \<open>doctor\<close> of the server predicts the service: with the same files and port the startup
  checks succeed with the same configuration, and every session can read its keys, decode the
  list of clients and make a handshake object from them; the destination, which is on a loopback
  address, has answered.\<close>

theorem server_doctor_predicts_start:
  assumes "server_doctor fs decode parse tls_acceptor bind connect path = (Inr () :: 'e doctor_error + unit)"
  shows "\<exists>config keys clients sh.
      server_start fs parse tls_acceptor bind path = Inr config
    \<and> server_read_private_keys decode fs (path_components (id_private_key_file (sc_identity config)))
         (map path_components (id_additional_files (sc_identity config))) = (Inr keys :: 'e key_error + bytes list)
    \<and> decode_clients decode (sc_authorized_clients config) = (Inr clients :: 'e key_error + bytes list)
    \<and> new_with_static_identities keys clients = (Inr sh :: 'e tunnel_error + server_handshake)
    \<and> is_loopback (sa_ip (sc_destination_address config)) \<and> connect (sc_destination_address config) = Inr ()"
proof -
  from assms obtain config keys where
    perm: "server_enforce_config_permissions fs (path_components path) = (Inr () :: 'e key_error + unit)" and
    load: "server_load parse (\<lambda>p. read_to_string fs (path_components p)) path = Inr config" and
    keys: "server_read_private_keys decode fs (path_components (id_private_key_file (sc_identity config)))
         (map path_components (id_additional_files (sc_identity config))) = (Inr keys :: 'e key_error + bytes list)" and
    tls: "sot_enabled (sc_outer_tls config) \<longrightarrow> tls_acceptor (sc_outer_tls config) = Inr ()" and
    clients: "doctor_clients decode (sc_authorized_clients config) = (Inr () :: 'e doctor_error + unit)" and
    bind: "bind (sc_listen_address config) = Inr ()" and
    connect: "connect (sc_destination_address config) = Inr ()"
    by (auto simp: server_doctor_def rbind_Inr_iff map_err_Inr_iff split: if_splits)
  from keys have "server_collect_keys decode fs (map path_components (identity_files (sc_identity config)))
      = (Inr keys :: 'e key_error + bytes list)"
    by (simp add: server_read_private_keys_def identity_files_def)
  then have each: "server_enforce_each fs (identity_files (sc_identity config)) = (Inr () :: 'e key_error + unit)"
    and len: "length keys = length (identity_files (sc_identity config))"
    using collected_keys_are_private by blast+
  obtain ks where ks: "decode_clients decode (sc_authorized_clients config) = (Inr ks :: 'e key_error + bytes list)"
    using decode_clients_checked [OF clients] by blast
  obtain sh where "new_with_static_identities keys ks = (Inr sh :: 'e tunnel_error + server_handshake)"
    using server_load_admits_handshake [OF load len] by blast
  moreover have "server_start fs parse tls_acceptor bind path = Inr config"
    using perm load each tls bind by (simp add: server_start_def)
  moreover have "is_loopback (sa_ip (sc_destination_address config))"
    using load by (auto simp: server_load_def server_from_toml_def Let_def rbind_Inr_iff map_err_Inr_iff
        ok_or_Inr_iff server_validate_iff)
  ultimately show ?thesis using keys ks connect by blast
qed

definition doctor_server_raw :: raw_server_config where
  "doctor_server_raw =
     \<lparr>rs_listen_address = SocketAddr (V4 0 0 0 0) 7000, rs_destination_address = SocketAddr (V4 127 0 0 1) 8080,
      rs_private_key_file = ''s.key'', rs_additional_files = None,
      rs_authorized_clients = [\<lparr>ac_name = [65], ac_public_key = plain_encode (replicate 32 4)\<rparr>],
      rs_outer_tls = None, rs_limits = None, rs_timeouts = None\<rparr>"

lemma server_doctor_predicts_start_witness:
  "\<exists>config. server_start doctor_fs (\<lambda>_. Inr doctor_server_raw :: plain_error + _) (\<lambda>_. Inr ()) (\<lambda>_. Inr ()) ''s.toml''
     = Inr config"
proof -
  let ?c = "resolve_server_config doctor_server_raw"
  have "server_validate ?c = (Inr () :: plain_error server_config_error + unit)"
    by (simp add: server_validate_def resolve_server_config_def doctor_server_raw_def unwrap_or_def
        blank_iff white_space_def plain_encode_replicate server_limits_default_def server_timeouts_default_def
        server_default_connect_seconds_def server_default_handshake_seconds_def
        server_default_idle_seconds_def server_default_max_connections_def server_default_record_bytes_def
        server_outer_tls_default_def tunnel_limits)
  then have load: "server_load (\<lambda>_. Inr doctor_server_raw :: plain_error + _)
      (\<lambda>p. read_to_string doctor_fs (path_components p)) ''s.toml'' = Inr ?c"
    by (simp add: server_load_def doctor_paths doctor_files server_from_toml_def Let_def)
  have fields: "path_components (id_private_key_file (sc_identity ?c)) = [Normal ''s.key'']"
    "id_additional_files (sc_identity ?c) = []" "\<not> sot_enabled (sc_outer_tls ?c)"
    "sc_authorized_clients ?c = [\<lparr>ac_name = [65], ac_public_key = plain_encode (replicate 32 4)\<rparr>]"
    by (simp_all add: resolve_server_config_def doctor_server_raw_def unwrap_or_def server_outer_tls_default_def sample_paths)
  have "server_doctor doctor_fs plain_decode (\<lambda>_. Inr doctor_server_raw) (\<lambda>_. Inr ()) (\<lambda>_. Inr ()) (\<lambda>_. Inr ()) ''s.toml''
      = (Inr () :: plain_error doctor_error + unit)"
    by (simp add: server_doctor_def key_files_same client_enforce_config_permissions_def doctor_files doctor_paths
        load fields server_read_private_keys_def read_private_key_same decode_public_key_same
        client_decode_public_key_def try_into_32_def)
  from server_doctor_predicts_start [OF this] show ?thesis by blast
qed

end
