(* ===== verification/Command_Line.thy ===== *)
theory Command_Line
  imports Doctor
begin

text \<open>
  \<open>main\<close> of both binaries: the three commands, what each does to the files, and how the keys that two
  \<open>keygen\<close> commands make become a tunnel.

  \<open>clap\<close> splits the command line; the commands it knows, with the default of \<open>--config\<close>, are declared
  in the source (\<open>Cli\<close>, \<open>Command\<close>).  Setting up the logger has no result and is left out.  A
  registration of a signal handler, and which signal comes, are arguments of \<open>shutdown_signal\<close>.
\<close>

section \<open>Commands\<close>

datatype command = ServeCommand string | KeygenCommand string | DoctorCommand string

text \<open>What was written on the command line: \<open>--config\<close> may be absent.\<close>

datatype arguments = ServeArgs "string option" | KeygenArgs string | DoctorArgs "string option"

definition client_command :: "arguments \<Rightarrow> command" where
  "client_command args =
     (case args of
        ServeArgs config \<Rightarrow> ServeCommand (unwrap_or config ''client.toml'')
      | KeygenArgs path \<Rightarrow> KeygenCommand path
      | DoctorArgs config \<Rightarrow> DoctorCommand (unwrap_or config ''client.toml''))"

definition server_command :: "arguments \<Rightarrow> command" where
  "server_command args =
     (case args of
        ServeArgs config \<Rightarrow> ServeCommand (unwrap_or config ''server.toml'')
      | KeygenArgs path \<Rightarrow> KeygenCommand path
      | DoctorArgs config \<Rightarrow> DoctorCommand (unwrap_or config ''server.toml''))"

text \<open>What a command comes to: a service that has started with its configuration, the lines of \<open>keygen\<close>,
  or the verdict of \<open>doctor\<close> (the client's with what it has sent).\<close>

datatype ('c, 'e, 'd) came_to =
    Service "'e startup_error + 'c"
  | Keys "'e key_error + unit" "keygen_line list"
  | Verdict 'd

definition client_main ::
    "('p, 'b, 'h, 't, 'e) noise_lib \<Rightarrow> ('t, 'e) client_env \<Rightarrow> (utext \<Rightarrow> 'e + raw_client_config)
       \<Rightarrow> ('e client_config_error \<Rightarrow> anyhow) \<Rightarrow> (client_outer_tls \<Rightarrow> anyhow + unit) \<Rightarrow> (socket_addr \<Rightarrow> anyhow + unit)
       \<Rightarrow> (bytes \<Rightarrow> utext) \<Rightarrow> (bytes \<Rightarrow> utext) \<Rightarrow> os \<Rightarrow> arguments
       \<Rightarrow> fs \<times> (client_config, 'e, (anyhow, unit) run) came_to" where
  "client_main api env parse config_text tls_connector bind encode fingerprint os args =
     (case client_command args of
        ServeCommand config \<Rightarrow> (ce_fs env, Service (client_start (ce_fs env) parse tls_connector bind config))
      | KeygenCommand private_key_file \<Rightarrow>
          (case client_keygen api encode fingerprint os (ce_fs env) (path_components private_key_file) of
             (fs', r, lines) \<Rightarrow> (fs', Keys r lines))
      | DoctorCommand config \<Rightarrow>
          (ce_fs env, Verdict (client_doctor api env parse config_text tls_connector bind config)))"

definition server_main ::
    "('p, 'b, 'h, 't, 'e) noise_lib \<Rightarrow> fs \<Rightarrow> (utext \<Rightarrow> bytes option) \<Rightarrow> (utext \<Rightarrow> 'e + raw_server_config)
       \<Rightarrow> (server_outer_tls \<Rightarrow> anyhow + unit) \<Rightarrow> (socket_addr \<Rightarrow> anyhow + unit) \<Rightarrow> (socket_addr \<Rightarrow> anyhow + unit)
       \<Rightarrow> (bytes \<Rightarrow> utext) \<Rightarrow> (bytes \<Rightarrow> utext) \<Rightarrow> os \<Rightarrow> arguments
       \<Rightarrow> fs \<times> (server_config, 'e, 'e doctor_error + unit) came_to" where
  "server_main api fs decode parse tls_acceptor bind connect encode fingerprint os args =
     (case server_command args of
        ServeCommand config \<Rightarrow> (fs, Service (server_start fs parse tls_acceptor bind config))
      | KeygenCommand private_key_file \<Rightarrow>
          (case server_keygen api encode fingerprint os fs (path_components private_key_file) of
             (fs', r, lines) \<Rightarrow> (fs', Keys r lines))
      | DoctorCommand config \<Rightarrow> (fs, Verdict (server_doctor fs decode parse tls_acceptor bind connect config)))"

section \<open>Signals\<close>

datatype signal = Terminate | Interrupt

text \<open>Both handlers are registered before either is awaited.\<close>

definition client_shutdown_signal :: "(signal \<Rightarrow> anyhow + unit) \<Rightarrow> signal poll \<Rightarrow> (anyhow + unit) poll" where
  "client_shutdown_signal register arrives =
     (case context_msg ''could not register SIGTERM handler'' (register Terminate) of
        Inl e \<Rightarrow> Ready (Inl e)
      | Inr _ \<Rightarrow>
          (case context_msg ''could not register SIGINT handler'' (register Interrupt) of
             Inl e \<Rightarrow> Ready (Inl e)
           | Inr _ \<Rightarrow> (case arrives of Pending \<Rightarrow> Pending | Ready _ \<Rightarrow> Ready (Inr ()))))"

definition server_shutdown_signal :: "(signal \<Rightarrow> anyhow + unit) \<Rightarrow> signal poll \<Rightarrow> (anyhow + unit) poll" where
  "server_shutdown_signal register arrives =
     (case context_msg ''could not register SIGTERM handler'' (register Terminate) of
        Inl e \<Rightarrow> Ready (Inl e)
      | Inr _ \<Rightarrow>
          (case context_msg ''could not register SIGINT handler'' (register Interrupt) of
             Inl e \<Rightarrow> Ready (Inl e)
           | Inr _ \<Rightarrow> (case arrives of Pending \<Rightarrow> Pending | Ready _ \<Rightarrow> Ready (Inr ()))))"

section \<open>What a command does to the files\<close>

lemma keygen_Inr:
  fixes api :: "('p, 'b, 'h, 't, 'e) noise_lib"
  assumes "client_keygen api encode fingerprint os fs p = (fs', Inr u, ls)"
  obtains kp where "generate_keypair api = Inr kp" "ls = [PrivateKeyWritten p, PublicKey (encode (sk_public kp)),
      Fingerprint (fingerprint (sk_public kp))]"
    and "client_write_private_key encode os fs p (sk_private kp) = (fs', Inr u :: 'e key_error + unit)"
  using assms by (auto simp: client_keygen_def split: if_splits sum.splits prod.splits)

lemma prepare_parent_touches:
  "fst (client_prepare_private_key_parent os fs p :: fs \<times> ('e key_error + unit)) q = fs q
     \<or> q = place (case path_parent p of None \<Rightarrow> [CurDir] | Some d \<Rightarrow> if d = [] then [CurDir] else d) \<and> fs q = None"
  by (auto simp: client_prepare_private_key_parent_def Let_def create_dir_def set_permissions_def
      split: if_splits option.splits)

lemma write_private_key_touches:
  "fst (client_write_private_key encode os fs p k :: fs \<times> ('e key_error + unit)) q = fs q
     \<or> fs q = None \<and> (q = place p
          \<or> q = place (case path_parent p of None \<Rightarrow> [CurDir] | Some d \<Rightarrow> if d = [] then [CurDir] else d))"
proof -
  obtain fs1 and r :: "'e key_error + unit" where pp: "client_prepare_private_key_parent os fs p = (fs1, r)"
    by fastforce
  have "fst (client_write_private_key encode os fs p k :: fs \<times> ('e key_error + unit)) q = fs1 q
      \<or> fs1 q = None \<and> q = place p"
    by (auto simp: client_write_private_key_def pp open_create_new_def write_file_def
        split: sum.splits option.splits if_splits)
  with prepare_parent_touches [of os fs p q, where 'e = 'e] pp show ?thesis by auto
qed

definition key_place :: "path \<Rightarrow> path \<Rightarrow> bool" where
  "key_place p q \<longleftrightarrow> q = place p
     \<or> q = place (case path_parent p of None \<Rightarrow> [CurDir] | Some d \<Rightarrow> if d = [] then [CurDir] else d)"

lemma keygen_touches:
  fixes api :: "('p, 'b, 'h, 't, 'e) noise_lib"
  shows "fst (client_keygen api encode fingerprint os fs p) q = fs q \<or> fs q = None \<and> key_place p q"
proof (cases "generate_keypair api")
  case (Inr kp)
  from write_private_key_touches [of encode os fs p "sk_private kp" q, where 'e = 'e] Inr show ?thesis
    by (auto simp: client_keygen_def key_place_def split: prod.splits sum.splits)
qed (simp add: client_keygen_def)

section \<open>Properties\<close>

text \<open>C17: No command of either program changes a file that exists.  A path at which something is has the
  same node afterwards; a path at which something has appeared is the key file of a \<open>keygen\<close> command,
  or the directory made for it.\<close>

theorem commands_only_add_keys:
  "(let fs' = fst (client_main api env parse config_text tls_connector bind encode fingerprint os args) in
      fs' q = ce_fs env q
      \<or> ce_fs env q = None \<and> (\<exists>p. args = KeygenArgs p \<and> key_place (path_components p) q))
   \<and> (let fs' = fst (server_main api' fs decode parse' tls_acceptor bind' connect encode fingerprint os args) in
      fs' q = fs q
      \<or> fs q = None \<and> (\<exists>p. args = KeygenArgs p \<and> key_place (path_components p) q))"
proof (cases args)
  case (KeygenArgs p)
  then show ?thesis
    using keygen_touches [of api encode fingerprint os "ce_fs env" "path_components p" q]
      keygen_touches [of api' encode fingerprint os fs "path_components p" q]
    by (simp add: client_main_def server_main_def client_command_def server_command_def keygen_same
        case_prod_unfold Let_def)
qed (simp_all add: client_main_def server_main_def client_command_def server_command_def Let_def)

text \<open>C13: Keys made by \<open>keygen\<close> make a tunnel.  Each side has run \<open>keygen\<close> and put the public key that the
  other one printed into its configuration.  Then the client reads its private key and pins the
  server's, the server reads its own and authorises the client's, and, when the Noise library agrees
  on these keys, the handshake between the two gives both ends of one session.  (Base64 is assumed to
  decode what it encodes and to print no white space; the umask to leave the owner its read bit.)\<close>

theorem provisioned_keys_connect:
  fixes api :: "('p, 'b, 'h, 't, 'e) noise_lib" and api_c api_s :: "('p, 'b, 'h, 't, 'f) noise_lib"
  assumes client: "client_keygen api_c encode fingerprint os_c fs_c p_c
        = (fs_c', Inr (), [l1, PublicKey client_text, l2])"
    and server: "server_keygen api_s encode fingerprint os_s fs_s p_s
        = (fs_s', Inr (), [l3, PublicKey server_text, l4])"
    and base64: "\<forall>k. decode (encode k) = Some k \<and> (\<forall>c \<in> set (encode k). \<not> white_space c)"
    and umask: "\<not> bit (os_umask os_c) 8" "\<not> bit (os_umask os_s) 8"
    and agree: "\<forall>kc ks. generate_keypair api_c = Inr kc \<and> generate_keypair api_s = Inr ks \<longrightarrow>
        ik_agreement api (sk_private kc) (sk_public kc) [sk_private ks] (sk_private ks) (sk_public ks) ta tb"
  shows "\<exists>client_private client_public server_private server_public.
      client_read_private_key decode fs_c' p_c = (Inr client_private :: 'e key_error + bytes)
    \<and> client_decode_public_key decode server_text = (Inr server_public :: 'e key_error + bytes)
    \<and> server_read_private_keys decode fs_s' p_s [] = (Inr [server_private] :: 'e key_error + bytes list)
    \<and> server_decode_public_key decode client_text = (Inr client_public :: 'e key_error + bytes)
    \<and> handshake_exchange api client_private server_public [server_private] [client_public]
        = Inr (transport_session_new ta, transport_session_new tb)"
proof -
  from keygen_Inr [OF client] obtain kc where kc: "generate_keypair api_c = Inr kc"
      "client_text = encode (sk_public kc)"
    and wc: "client_write_private_key encode os_c fs_c p_c (sk_private kc) = (fs_c', Inr () :: 'f key_error + unit)"
    by auto
  from keygen_Inr [OF server [unfolded keygen_same]] obtain ks where ks: "generate_keypair api_s = Inr ks"
      "server_text = encode (sk_public ks)"
    and ws: "client_write_private_key encode os_s fs_s p_s (sk_private ks) = (fs_s', Inr () :: 'f key_error + unit)"
    by auto
  note len = generate_keypair_lengths [OF kc(1)] generate_keypair_lengths [OF ks(1)]
  have rc: "client_read_private_key decode fs_c' p_c = (Inr (sk_private kc) :: 'e key_error + bytes)"
    using written_key_reads_back [OF wc, where decode = decode] base64 len umask by blast
  have rs: "client_read_private_key decode fs_s' p_s = (Inr (sk_private ks) :: 'e key_error + bytes)"
    using written_key_reads_back [OF ws, where decode = decode] base64 len umask by blast
  have public: "client_decode_public_key decode (encode k) = (Inr k :: 'e key_error + bytes)" if "length k = 32" for k
    using base64 that by (simp add: client_decode_public_key_def trim_no_white try_into_32_def)
  have "handshake_exchange api (sk_private kc) (sk_public ks) [sk_private ks] [sk_public kc]
      = Inr (transport_session_new ta, transport_session_new tb)"
    using agree kc(1) ks(1) len
    by (intro handshake_exchange_agrees [where spriv = "sk_private ks"]) (auto simp: tunnel_limits)
  with rc rs public len kc(2) ks(2) show ?thesis
    by (intro exI [of _ "sk_private kc"] exI [of _ "sk_public kc"] exI [of _ "sk_private ks"] exI [of _ "sk_public ks"])
       (simp add: server_read_private_keys_def read_private_key_same decode_public_key_same)
qed

text \<open>Two key files made with the same sample file system, for different keys.\<close>

definition other_noise :: "(unit, bytes option \<times> bytes option, plain_hs, nat \<times> nat, plain_error) noise_lib" where
  "other_noise = plain_noise\<lparr>n_generate_keypair := \<lambda>_. Inr (replicate 32 2, plain_public (replicate 32 2))\<rparr>"

lemma sample_keypairs:
  "generate_keypair plain_noise = Inr \<lparr>sk_private = replicate 32 7, sk_public = plain_public (replicate 32 7)\<rparr>"
  "generate_keypair other_noise = Inr \<lparr>sk_private = replicate 32 2, sk_public = plain_public (replicate 32 2)\<rparr>"
  by (simp_all add: generate_keypair_def other_noise_def plain_noise_def noise_builder_def try_into_32_def plain_public_def)

lemma sample_keygen:
  fixes api :: "('p, 'b, 'h, 't, 'e) noise_lib"
  assumes "generate_keypair api = Inr kp"
  obtains fs' where "client_keygen api plain_encode (\<lambda>_. []) sample_os sample_fs [Normal ''keys'', Normal ''new''] =
    (fs', Inr (), [PrivateKeyWritten [Normal ''keys'', Normal ''new''], PublicKey (plain_encode (sk_public kp)), Fingerprint []])"
proof -
  let ?p = "[Normal ''keys'', Normal ''new'']"
  let ?w = "client_write_private_key plain_encode sample_os sample_fs ?p (sk_private kp) :: fs \<times> ('e key_error + unit)"
  have "snd ?w = Inr ()"
    by (simp add: client_write_private_key_def client_prepare_private_key_parent_def path_parent_def
        path_exists_def numeral_eq_Suc place_def sample_fs_def sample_os_def
        client_enforce_private_parent_permissions_def symlink_metadata_def open_create_new_def write_file_def)
  then obtain fs' where "?w = (fs', Inr ())" by (metis prod.collapse)
  moreover have "\<not> path_exists sample_fs ?p"
    by (simp add: path_exists_def numeral_eq_Suc place_def sample_fs_def)
  ultimately show ?thesis
    using that [of fs'] assms by (simp add: client_keygen_def)
qed

lemma provisioned_keys_connect_witness:
  "\<exists>fs_c fs_s. fst (client_keygen plain_noise plain_encode (\<lambda>_. []) sample_os sample_fs [Normal ''keys'', Normal ''new'']) = fs_c
     \<and> fst (server_keygen other_noise plain_encode (\<lambda>_. []) sample_os sample_fs [Normal ''keys'', Normal ''new'']) = fs_s
     \<and> (\<exists>k1 k2 p1 p2. client_read_private_key plain_decode fs_c [Normal ''keys'', Normal ''new''] = (Inr k1 :: plain_error key_error + bytes)
          \<and> server_read_private_keys plain_decode fs_s [Normal ''keys'', Normal ''new''] [] = (Inr [k2] :: plain_error key_error + bytes list)
          \<and> handshake_exchange plain_noise k1 p2 [k2] [p1]
              = Inr (transport_session_new (0, 0), transport_session_new (0, 0)))"
proof -
  obtain fs_c where c: "client_keygen plain_noise plain_encode (\<lambda>_. []) sample_os sample_fs [Normal ''keys'', Normal ''new''] =
     (fs_c, Inr (), [PrivateKeyWritten [Normal ''keys'', Normal ''new''], PublicKey (plain_encode (plain_public (replicate 32 7))), Fingerprint []])"
    using sample_keygen [OF sample_keypairs(1)] by auto
  obtain fs_s where s: "server_keygen other_noise plain_encode (\<lambda>_. []) sample_os sample_fs [Normal ''keys'', Normal ''new''] =
     (fs_s, Inr (), [PrivateKeyWritten [Normal ''keys'', Normal ''new''], PublicKey (plain_encode (plain_public (replicate 32 2))), Fingerprint []])"
    using sample_keygen [OF sample_keypairs(2)] unfolding keygen_same by auto
  have b: "\<forall>k. plain_decode (plain_encode k) = Some k \<and> (\<forall>c \<in> set (plain_encode k). \<not> white_space c)"
  proof (intro allI conjI ballI)
    show "plain_decode (plain_encode k) = Some k" for k
      by (simp add: plain_decode_def plain_encode_def comp_def)
    fix k c
    assume "c \<in> set (plain_encode k)"
    then obtain w :: byte where "c = 256 + unat w" by (auto simp: plain_encode_def)
    moreover have "unat w < 256" using unsigned_less [of w] by simp
    ultimately show "\<not> white_space c" by (simp add: white_space_def)
  qed
  have u: "\<not> bit (os_umask sample_os) 8" by (simp add: sample_os_def bit_simps)
  have "ik_agreement plain_noise (replicate 32 7) (plain_public (replicate 32 7)) [replicate 32 2] (replicate 32 2)
      (plain_public (replicate 32 2)) (0, 0) (0, 0)"
    by (rule plain_ik_agreement) simp_all
  then have "\<forall>kc ks. generate_keypair plain_noise = Inr kc \<and> generate_keypair other_noise = Inr ks \<longrightarrow>
      ik_agreement plain_noise (sk_private kc) (sk_public kc) [sk_private ks] (sk_private ks) (sk_public ks) (0, 0) (0, 0)"
    unfolding sample_keypairs by auto
  from provisioned_keys_connect [OF c s b u u this] c s show ?thesis by fastforce
qed

end
