(* ===== verification/Outer_Tls.thy ===== *)
theory Outer_Tls
  imports Client_Config Server_Config Key_Files
begin

text \<open>
  The optional outer TLS layer: \<open>tls_connector\<close> of the client (which roots it trusts) and
  \<open>tls_acceptor\<close> of the server (which key it uses).

  The libraries (\<open>rustls\<close>, \<open>rustls_pemfile\<close>, \<open>rustls_native_certs\<close>) are the record \<open>tls_lib\<close>: what the
  platform's store holds, what a PEM text contains, which certificates can be trust anchors, and
  what building a configuration answers.  What the code makes of it is a record: the roots or the
  key, the protocol versions, and whether clients must present a certificate.
\<close>

datatype tls_version = TLS12 | TLS13

record ('cert, 'key, 'x) tls_lib =
  tl_native_errors :: "'x list"
  tl_native_certs :: "'cert list"
  tl_pem_certs :: "utext \<Rightarrow> ('x + 'cert) list"
  tl_pem_private_key :: "utext \<Rightarrow> 'x + 'key option"
  tl_parsable :: "'cert \<Rightarrow> bool"
  tl_with_versions :: "tls_version list \<Rightarrow> 'x + unit"
  tl_single_cert :: "'cert list \<Rightarrow> 'key \<Rightarrow> 'x + unit"

datatype ('e, 'x) tls_error =
    NativeRoots "'x list"
  | NativeStoreEmpty
  | CaNotOpened string
  | CaNotParsed string
  | CaEmpty string
  | CaUnusable string
  | VersionsRefused 'x
  | NoCertificateFile
  | NoPrivateKeyFile
  | TlsKeyFile "'e key_error"
  | CertificateNotOpened string
  | CertificateNotParsed string
  | CertificateEmpty string
  | KeyNotOpened string
  | KeyNotParsed string
  | KeyMissing string
  | KeyMismatch 'x

record 'cert client_tls =
  tc_roots :: "'cert list"
  tc_versions :: "tls_version list"

record ('cert, 'key) server_tls =
  ta_certificates :: "'cert list"
  ta_private_key :: 'key
  ta_versions :: "tls_version list"
  ta_client_certificates :: bool

text \<open>\<open>File::open\<close>: what is open may still not be readable as a file (a directory), then reading it
  reports an error.\<close>

definition open_file :: "fs \<Rightarrow> string \<Rightarrow> utext option option" where
  "open_file fs path =
     (case follow 40 fs (path_components path) of
        Some (FileNode m s) \<Rightarrow> if m AND 0x100 = 0 then None else Some (Some s)
      | Some (DirNode m) \<Rightarrow> if m AND 0x100 = 0 then None else Some None
      | Some (OtherNode m) \<Rightarrow> if m AND 0x100 = 0 then None else Some None
      | _ \<Rightarrow> None)"

text \<open>\<open>collect::<Result<Vec<_>, _>>\<close> stops at the first error.\<close>

fun collect_results :: "('x + 'a) list \<Rightarrow> 'a list option" where
  "collect_results [] = Some []"
| "collect_results (Inl x # rs) = None"
| "collect_results (Inr a # rs) = map_option ((#) a) (collect_results rs)"

definition read_certificates :: "('cert, 'key, 'x) tls_lib \<Rightarrow> utext option \<Rightarrow> 'cert list option" where
  "read_certificates L contents = Option.bind contents (\<lambda>s. collect_results (tl_pem_certs L s))"

section \<open>The client\<close>

text \<open>\<open>add_parsable_certificates\<close> adds the certificates that can be trust anchors and skips the others.\<close>

definition add_parsable_certificates :: "('cert, 'key, 'x) tls_lib \<Rightarrow> 'cert list \<Rightarrow> 'cert list \<Rightarrow> 'cert list \<times> nat" where
  "add_parsable_certificates L roots certs =
     (let added = List.filter (tl_parsable L) certs in (roots @ added, length added))"

definition tls_connector ::
    "('cert, 'key, 'x) tls_lib \<Rightarrow> fs \<Rightarrow> client_outer_tls \<Rightarrow> ('e, 'x) tls_error + 'cert client_tls" where
  "tls_connector L fs config =
     (if tl_native_errors L \<noteq> [] then Inl (NativeRoots (tl_native_errors L))
      else if tl_native_certs L = [] then Inl NativeStoreEmpty
      else case add_parsable_certificates L [] (tl_native_certs L) of (roots, _) \<Rightarrow>
        rbind
          (case cot_additional_ca_file config of
             None \<Rightarrow> Inr roots
           | Some path \<Rightarrow>
               rbind (ok_or (open_file fs path) (CaNotOpened path)) (\<lambda>file.
               rbind (ok_or (read_certificates L file) (CaNotParsed path)) (\<lambda>certificates.
                 if certificates = [] then Inl (CaEmpty path)
                 else case add_parsable_certificates L roots certificates of (roots, added) \<Rightarrow>
                   if added = 0 then Inl (CaUnusable path) else Inr roots)))
          (\<lambda>roots.
             rbind (map_err VersionsRefused (tl_with_versions L [TLS13])) (\<lambda>_.
               Inr \<lparr>tc_roots = roots, tc_versions = [TLS13]\<rparr>)))"

section \<open>The server\<close>

definition tls_acceptor ::
    "('cert, 'key, 'x) tls_lib \<Rightarrow> fs \<Rightarrow> server_outer_tls \<Rightarrow> ('e, 'x) tls_error + ('cert, 'key) server_tls" where
  "tls_acceptor L fs config =
     rbind (ok_or (sot_certificate_file config) NoCertificateFile) (\<lambda>certificate_path.
     rbind (ok_or (sot_private_key_file config) NoPrivateKeyFile) (\<lambda>private_key_path.
     rbind (map_err TlsKeyFile (server_enforce_private_permissions fs (path_components private_key_path))) (\<lambda>_.
     rbind (ok_or (open_file fs certificate_path) (CertificateNotOpened certificate_path)) (\<lambda>file.
     rbind (ok_or (read_certificates L file) (CertificateNotParsed certificate_path)) (\<lambda>certificates.
       if certificates = [] then Inl (CertificateEmpty certificate_path)
       else
     rbind (ok_or (open_file fs private_key_path) (KeyNotOpened private_key_path)) (\<lambda>file.
     rbind (ok_or file (KeyNotParsed private_key_path)) (\<lambda>pem.
     rbind (map_err (\<lambda>_. KeyNotParsed private_key_path) (tl_pem_private_key L pem)) (\<lambda>found.
     rbind (ok_or found (KeyMissing private_key_path)) (\<lambda>private_key.
     rbind (map_err VersionsRefused (tl_with_versions L [TLS13])) (\<lambda>_.
     rbind (map_err KeyMismatch (tl_single_cert L certificates private_key)) (\<lambda>_.
       Inr \<lparr>ta_certificates = certificates, ta_private_key = private_key, ta_versions = [TLS13],
            ta_client_certificates = False\<rparr>)))))))))))"

section \<open>Lemmas\<close>

lemma collect_results_Some [result_iff]: "collect_results rs = Some xs \<longleftrightarrow> rs = map Inr xs"
  by (induction rs arbitrary: xs rule: collect_results.induct) auto

lemma open_file_private:
  assumes "fs (place (path_components p)) = Some (FileNode m s)"
  shows "open_file fs p = Some contents \<longleftrightarrow> contents = Some s \<and> m AND 0x100 \<noteq> 0"
proof -
  have "follow (Suc 39) fs (path_components p) = Some (FileNode m s)" using assms by (rule follow_file)
  then show ?thesis by (auto simp: open_file_def)
qed

section \<open>Properties\<close>

text \<open>C35: Whom the outer layer trusts, and with which key it answers.  A client connector that was built
  speaks TLS 1.3 only and trusts exactly the usable certificates of the platform's store, which was
  loaded without any error and was not empty, followed by the usable ones of the configured file,
  of which there is at least one and none failed to parse.  A server acceptor speaks TLS 1.3 only
  and holds the key of a regular file that group and world cannot touch, with certificates that the
  library has matched with it.\<close>

theorem outer_tls_trust:
  assumes "tls_connector L fs client = (Inr c :: ('e, 'x) tls_error + 'cert client_tls)"
    and "tls_acceptor L fs server = (Inr a :: ('e, 'x) tls_error + ('cert, 'key) server_tls)"
  shows "tc_versions c = [TLS13] \<and> ta_versions a = [TLS13]
    \<and> tl_native_errors L = [] \<and> tl_native_certs L \<noteq> []
    \<and> (case cot_additional_ca_file client of
         None \<Rightarrow> tc_roots c = List.filter (tl_parsable L) (tl_native_certs L)
       | Some path \<Rightarrow> \<exists>s certs. open_file fs path = Some (Some s) \<and> tl_pem_certs L s = map Inr certs
           \<and> List.filter (tl_parsable L) certs \<noteq> []
           \<and> tc_roots c = List.filter (tl_parsable L) (tl_native_certs L @ certs))
    \<and> (\<exists>path m s. sot_private_key_file server = Some path
         \<and> fs (place (path_components path)) = Some (FileNode m s) \<and> m AND 0x3F = 0
         \<and> tl_pem_private_key L s = Inr (Some (ta_private_key a)))
    \<and> ta_certificates a \<noteq> [] \<and> tl_single_cert L (ta_certificates a) (ta_private_key a) = Inr ()"
proof -
  have "tc_versions c = [TLS13] \<and> tl_native_errors L = [] \<and> tl_native_certs L \<noteq> []
    \<and> (case cot_additional_ca_file client of
         None \<Rightarrow> tc_roots c = List.filter (tl_parsable L) (tl_native_certs L)
       | Some path \<Rightarrow> \<exists>s certs. open_file fs path = Some (Some s) \<and> tl_pem_certs L s = map Inr certs
           \<and> List.filter (tl_parsable L) certs \<noteq> []
           \<and> tc_roots c = List.filter (tl_parsable L) (tl_native_certs L @ certs))"
    using assms(1)
    by (auto simp: tls_connector_def add_parsable_certificates_def read_certificates_def result_iff Let_def
        bind_eq_Some_conv split: if_splits option.splits)
  moreover have "ta_versions a = [TLS13] \<and> ta_certificates a \<noteq> []
    \<and> tl_single_cert L (ta_certificates a) (ta_private_key a) = Inr ()
    \<and> (\<exists>path m s. sot_private_key_file server = Some path
         \<and> fs (place (path_components path)) = Some (FileNode m s) \<and> m AND 0x3F = 0
         \<and> tl_pem_private_key L s = Inr (Some (ta_private_key a)))"
    using assms(2)
    by (auto simp: tls_acceptor_def key_files_same client_enforce_private_permissions_def result_iff
        private_mode_def open_file_private split: if_splits)
  ultimately show ?thesis by blast
qed

definition toy_tls :: "(nat, nat, unit) tls_lib" where
  "toy_tls =
     \<lparr>tl_native_errors = [], tl_native_certs = [1, 2, 3], tl_pem_certs = map Inr,
      tl_pem_private_key = (\<lambda>s. Inr (case s of [] \<Rightarrow> None | k # _ \<Rightarrow> Some k)), tl_parsable = odd,
      tl_with_versions = (\<lambda>_. Inr ()), tl_single_cert = (\<lambda>certs k. if k \<in> set certs then Inr () else Inl ())\<rparr>"

definition tls_fs :: fs where
  "tls_fs = [[Normal ''ca.pem''] \<mapsto> FileNode 0x124 [4, 5], [Normal ''tls.key''] \<mapsto> FileNode 0x180 [7],
     [Normal ''tls.pem''] \<mapsto> FileNode 0x124 [7]]"

lemma outer_tls_trust_witness:
  "\<exists>c. tls_connector toy_tls tls_fs
       \<lparr>cot_enabled = True, cot_server_name = Some [65], cot_additional_ca_file = Some ''ca.pem''\<rparr>
       = (Inr c :: (unit, unit) tls_error + nat client_tls) \<and> tc_roots c = [1, 3, 5]"
proof -
  let ?client = "\<lparr>cot_enabled = True, cot_server_name = Some [65], cot_additional_ca_file = Some ''ca.pem''\<rparr>"
  let ?server = "\<lparr>sot_enabled = True, sot_certificate_file = Some ''tls.pem'', sot_private_key_file = Some ''tls.key''\<rparr>"
  have paths: "path_components ''ca.pem'' = [Normal ''ca.pem'']" "path_components ''tls.key'' = [Normal ''tls.key'']"
    "path_components ''tls.pem'' = [Normal ''tls.pem'']"
    by (simp_all add: path_components_def to_component_def)
  have ca: "open_file tls_fs ''ca.pem'' = Some (Some [4, 5])"
    using open_file_private [of tls_fs "''ca.pem''" "0x124" "[4, 5]"]
    by (simp add: tls_fs_def paths place_def)
  have key: "open_file tls_fs ''tls.key'' = Some (Some [7])"
    using open_file_private [of tls_fs "''tls.key''" "0x180" "[7]"]
    by (simp add: tls_fs_def paths place_def)
  have pem: "open_file tls_fs ''tls.pem'' = Some (Some [7])"
    using open_file_private [of tls_fs "''tls.pem''" "0x124" "[7]"]
    by (simp add: tls_fs_def paths place_def)
  have perm: "server_enforce_private_permissions tls_fs [Normal ''tls.key''] = (Inr () :: unit key_error + unit)"
    unfolding key_files_same client_enforce_private_permissions_def enforce_sensitive_iff
    by (simp add: tls_fs_def place_def private_mode_def)
  obtain c where c: "tls_connector toy_tls tls_fs ?client = (Inr c :: (unit, unit) tls_error + nat client_tls)"
    by (simp add: tls_connector_def add_parsable_certificates_def read_certificates_def ca toy_tls_def Let_def)
  obtain a where a: "tls_acceptor toy_tls tls_fs ?server = (Inr a :: (unit, unit) tls_error + (nat, nat) server_tls)"
    by (simp add: tls_acceptor_def read_certificates_def key pem perm paths toy_tls_def)
  from outer_tls_trust [OF c a] have "tc_roots c = [1, 3, 5]" by (auto simp: ca toy_tls_def)
  with c show ?thesis by blast
qed

end
