(* ===== verification/Benchmark.thy ===== *)
theory Benchmark
  imports Copy_Loops
begin

text \<open>
  The benchmark harness, \<open>bench/src/lib.rs\<close>: the arithmetic of its measurements, and the
  temporary protocol between its client and its responder.

  A \<open>Duration\<close> has the fields and the derived order of the standard library's.  Floating-point
  arithmetic is the record \<open>float_ops\<close>, an argument: only which numbers are divided and compared is
  modelled.  A connection is a pair of a reader and a writer; \<open>tokio::io::copy\<close> is an argument of the
  responder, with its documented behaviour in the locale \<open>echo_link\<close>.  Elapsed times are answers of
  the clock.  \<open>stream_sample\<close> runs its two loops in two tasks on separate halves of the connection,
  so they are modelled one by one; \<open>serve\<close>, which accepts and spawns, is in \<open>Benchmark_Main\<close>.
\<close>

section \<open>Durations\<close>

datatype duration = Duration (dur_secs: "64 word") (dur_nanos: "32 word")

instantiation duration :: linorder
begin

definition less_eq_duration :: "duration \<Rightarrow> duration \<Rightarrow> bool" where
  "less_eq_duration a b \<longleftrightarrow>
     dur_secs a < dur_secs b \<or> dur_secs a = dur_secs b \<and> dur_nanos a \<le> dur_nanos b"

definition less_duration :: "duration \<Rightarrow> duration \<Rightarrow> bool" where
  "less_duration a b \<longleftrightarrow>
     dur_secs a < dur_secs b \<or> dur_secs a = dur_secs b \<and> dur_nanos a < dur_nanos b"

instance
  by standard (auto simp: less_eq_duration_def less_duration_def intro: duration.expand)

end

definition is_zero :: "duration \<Rightarrow> bool" where
  "is_zero d \<longleftrightarrow> dur_secs d = 0 \<and> dur_nanos d = 0"

text \<open>The number of whole microseconds, a \<open>u128\<close>.\<close>

definition as_micros :: "duration \<Rightarrow> 128 word" where
  "as_micros d = ucast (dur_secs d) * 1000000 + ucast (dur_nanos d) div 1000"

section \<open>Errors and floating point\<close>

datatype bench_error =
    BenchIo io_error
  | ConnectFailed anyhow
  | InvalidMagic
  | UnknownOperation byte
  | InvalidReply
  | NoSamples
  | ZeroDuration
  | ZeroConnections
  | RssBelowBaseline
  | CounterOverflow
  | TimedOut string
  | ClockBeforeEpoch
  | HardwareNoteEmpty

record 'f float_ops =
  fl_of_u64 :: "64 word \<Rightarrow> 'f"
  fl_of_u32 :: "32 word \<Rightarrow> 'f"
  fl_secs :: "duration \<Rightarrow> 'f"
  fl_div :: "'f \<Rightarrow> 'f \<Rightarrow> 'f"
  fl_le :: "'f \<Rightarrow> 'f \<Rightarrow> bool"
  fl_0_90 :: 'f
  fl_1024 :: 'f

section \<open>Measurements\<close>

record endpoint_sample =
  es_connection_setup :: duration
  es_first_byte :: duration

record stream_sample =
  ss_sent_bytes :: "64 word"
  ss_received_bytes :: "64 word"
  ss_elapsed :: duration

definition div_ceil :: "nat \<Rightarrow> nat \<Rightarrow> nat" where
  "div_ceil a b = (if a mod b = 0 then a div b else a div b + 1)"

text \<open>\<open>percentile_95\<close>: \<open>None\<close> is a panic, of the assertion or of an index out of range.\<close>

definition percentile_95 :: "duration list \<Rightarrow> duration option" where
  "percentile_95 samples =
     (if samples = [] then None
      else let sorted_samples = sort samples;
               rank = div_ceil (95 * length sorted_samples) 100
           in if 1 \<le> rank \<and> rank - 1 < length sorted_samples
              then Some (sorted_samples ! (rank - 1)) else None)"

definition throughput_bytes_per_second :: "'f float_ops \<Rightarrow> 64 word \<Rightarrow> duration \<Rightarrow> bench_error + 'f" where
  "throughput_bytes_per_second F b elapsed =
     (if is_zero elapsed then Inl ZeroDuration
      else Inr (fl_div F (fl_of_u64 F b) (fl_secs F elapsed)))"

definition checked_add_u64 :: "64 word \<Rightarrow> 64 word \<Rightarrow> 64 word option" where
  "checked_add_u64 a b = (if unat a + unat b < 2 ^ 64 then Some (a + b) else None)"

definition checked_sub_u64 :: "64 word \<Rightarrow> 64 word \<Rightarrow> 64 word option" where
  "checked_sub_u64 a b = (if b \<le> a then Some (a - b) else None)"

definition bidirectional_throughput_bytes_per_second :: "'f float_ops \<Rightarrow> stream_sample \<Rightarrow> bench_error + 'f" where
  "bidirectional_throughput_bytes_per_second F s =
     rbind (ok_or (checked_add_u64 (ss_sent_bytes s) (ss_received_bytes s)) CounterOverflow) (\<lambda>total.
       throughput_bytes_per_second F total (ss_elapsed s))"

definition memory_per_active_connection_kib :: "'f float_ops \<Rightarrow> 64 word \<Rightarrow> 64 word \<Rightarrow> 32 word \<Rightarrow> bench_error + 'f" where
  "memory_per_active_connection_kib F baseline active connections =
     (if connections = 0 then Inl ZeroConnections
      else rbind (ok_or (checked_sub_u64 active baseline) RssBelowBaseline) (\<lambda>delta.
        Inr (fl_div F (fl_of_u64 F delta) (fl_of_u32 F connections))))"

text \<open>\<open>compare_p95_us\<close>: the result is an \<open>i128\<close>, so it is read with \<open>sint\<close>.\<close>

definition compare_p95_us :: "128 word \<Rightarrow> 128 word \<Rightarrow> 128 word" where
  "compare_p95_us direct tunnel =
     (if direct \<le> tunnel then tunnel - direct else - (direct - tunnel))"

record 'f endpoint_report_data =
  er_connection_setup_p95_us :: "128 word"
  er_first_byte_p95_us :: "128 word"
  er_first_byte_samples_us :: "128 word list"
  er_stream_sent_bytes :: "64 word"
  er_stream_received_bytes :: "64 word"
  er_stream_elapsed_us :: "128 word"
  er_throughput :: 'f

text \<open>\<open>None\<close> is a panic of \<open>percentile_95\<close>.\<close>

definition endpoint_report ::
    "'f float_ops \<Rightarrow> endpoint_sample list \<Rightarrow> stream_sample \<Rightarrow> (bench_error + 'f endpoint_report_data) option" where
  "endpoint_report F samples stream =
     (if samples = [] then Some (Inl NoSamples)
      else case percentile_95 (map es_connection_setup samples) of
        None \<Rightarrow> None
      | Some setup \<Rightarrow> (case percentile_95 (map es_first_byte samples) of
          None \<Rightarrow> None
        | Some first \<Rightarrow> Some (rbind (bidirectional_throughput_bytes_per_second F stream) (\<lambda>throughput.
            Inr \<lparr>er_connection_setup_p95_us = as_micros setup, er_first_byte_p95_us = as_micros first,
                 er_first_byte_samples_us = map (\<lambda>s. as_micros (es_first_byte s)) samples,
                 er_stream_sent_bytes = ss_sent_bytes stream,
                 er_stream_received_bytes = ss_received_bytes stream,
                 er_stream_elapsed_us = as_micros (ss_elapsed stream), er_throughput = throughput\<rparr>))))"

lemma div_ceil_bounds:
  assumes "0 < b"
  shows "a \<le> b * div_ceil a b" and "0 < a \<Longrightarrow> b * (div_ceil a b - 1) < a"
proof -
  have eq: "b * (a div b) + a mod b = a" by simp
  have lt: "a mod b < b" using assms by simp
  show "a \<le> b * div_ceil a b"
  proof (cases "a mod b = 0")
    case True
    with eq show ?thesis by (simp add: div_ceil_def)
  next
    case False
    then have "b * div_ceil a b = b * (a div b) + b" by (simp add: div_ceil_def)
    with eq lt show ?thesis by linarith
  qed
  show "b * (div_ceil a b - 1) < a" if "0 < a"
  proof (cases "a mod b = 0")
    case True
    with eq that have "0 < a div b" "b * (a div b) = a" by (metis add_0_right gr0I mult_0_right)+
    with True assms that show ?thesis by (simp add: div_ceil_def diff_mult_distrib2)
  next
    case False
    then have "b * (div_ceil a b - 1) + a mod b = a" by (simp add: div_ceil_def)
    with False show ?thesis by linarith
  qed
qed

text \<open>How many elements of a sorted list are below, or not above, the one at a position.\<close>

lemma sorted_count:
  fixes xs :: "'a :: linorder list"
  assumes "sorted xs" and "i < length xs"
  shows "length (filter (\<lambda>x. x < xs ! i) xs) \<le> i"
    and "Suc i \<le> length (filter (\<lambda>x. x \<le> xs ! i) xs)"
proof -
  have split: "filter P xs = filter P (take k xs) @ filter P (drop k xs)" for P k
    by (metis append_take_drop_id filter_append)
  have above: "xs ! i \<le> x" if "x \<in> set (drop i xs)" for x
    using that assms by (auto simp: in_set_conv_nth intro: sorted_nth_mono)
  then have "filter (\<lambda>x. x < xs ! i) (drop i xs) = []"
    by (auto simp: filter_empty_conv not_less)
  then have "filter (\<lambda>x. x < xs ! i) xs = filter (\<lambda>x. x < xs ! i) (take i xs)"
    using split [of "\<lambda>x. x < xs ! i" i] by simp
  then show "length (filter (\<lambda>x. x < xs ! i) xs) \<le> i"
    using length_filter_le [of "\<lambda>x. x < xs ! i" "take i xs"] by simp
  have below: "x \<le> xs ! i" if "x \<in> set (take (Suc i) xs)" for x
    using that assms by (auto simp: in_set_conv_nth less_Suc_eq_le intro: sorted_nth_mono)
  then have "filter (\<lambda>x. x \<le> xs ! i) (take (Suc i) xs) = take (Suc i) xs"
    by simp
  then show "Suc i \<le> length (filter (\<lambda>x. x \<le> xs ! i) xs)"
    using split [of "\<lambda>x. x \<le> xs ! i" "Suc i"] assms(2) by simp
qed

lemma length_filter_sort: "length (filter P (sort xs)) = length (filter P xs)"
  by (simp add: filter_sort)

text \<open>The index is in range whenever there is a sample, and the sample at it has the nearest rank.\<close>

lemma percentile_95_rank:
  assumes "samples \<noteq> []"
  shows "\<exists>v. percentile_95 samples = Some v \<and> v \<in> set samples
     \<and> 95 * length samples \<le> 100 * length (filter (\<lambda>x. x \<le> v) samples)
     \<and> 100 * length (filter (\<lambda>x. x < v) samples) < 95 * length samples"
proof -
  let ?n = "length samples" and ?xs = "sort samples"
  define rank where "rank = div_ceil (95 * ?n) 100"
  have n: "0 < ?n" using assms by simp
  from div_ceil_bounds [of 100 "95 * ?n"] n
  have ge: "95 * ?n \<le> 100 * rank" and lt: "100 * (rank - 1) < 95 * ?n"
    by (simp_all add: rank_def)
  from ge n have pos: "1 \<le> rank" by linarith
  from lt have i: "rank - 1 < ?n" by linarith
  define v where "v = ?xs ! (rank - 1)"
  from i pos assms have "percentile_95 samples = Some v"
    by (simp add: percentile_95_def rank_def [symmetric] v_def)
  moreover have "v \<in> set samples"
    using i nth_mem [of "rank - 1" ?xs] by (simp add: v_def)
  moreover have "Suc (rank - 1) \<le> length (filter (\<lambda>x. x \<le> v) samples)"
    "length (filter (\<lambda>x. x < v) samples) \<le> rank - 1"
    using sorted_count [of ?xs "rank - 1"] i by (simp_all add: length_filter_sort v_def)
  moreover have "Suc (rank - 1) = rank" using pos by simp
  ultimately show ?thesis using ge lt by (intro exI [of _ v]) linarith
qed

section \<open>Sizes of the numbers\<close>

text \<open>The invariant of \<open>Duration\<close>, and that the microseconds of one are far from the end of \<open>u128\<close>.\<close>

definition duration_ok :: "duration \<Rightarrow> bool" where
  "duration_ok d \<longleftrightarrow> unat (dur_nanos d) < 1000000000"

definition micros :: "duration \<Rightarrow> nat" where
  "micros d = unat (dur_secs d) * 1000000 + unat (dur_nanos d) div 1000"

lemma micros_bound: "micros d < 2 ^ 100"
proof -
  have "unat (dur_secs d) < 2 ^ 64" "unat (dur_nanos d) < 2 ^ 32"
    using unsigned_less [of "dur_secs d"] unsigned_less [of "dur_nanos d"] by simp_all
  then show ?thesis by (simp add: micros_def)
qed

lemma unat_as_micros [simp]: "unat (as_micros d) = micros d"
proof -
  have secs: "unat (ucast (dur_secs d) :: 128 word) = unat (dur_secs d)"
    and nanos: "unat (ucast (dur_nanos d) :: 128 word) = unat (dur_nanos d)"
    using order.strict_trans2 [OF unsigned_less [where 'a = nat, of "dur_secs d"], of "2 ^ 128"]
      order.strict_trans2 [OF unsigned_less [where 'a = nat, of "dur_nanos d"], of "2 ^ 128"]
    by (simp_all add: unsigned_ucast_eq take_bit_nat_eq_self)
  have "unat (ucast (dur_secs d) * 1000000 :: 128 word) = unat (dur_secs d) * 1000000"
    using micros_bound [of d] by (simp add: unat_word_ariths(2) secs micros_def)
  moreover have "unat (ucast (dur_nanos d) div 1000 :: 128 word) = unat (dur_nanos d) div 1000"
    by (simp add: unat_div nanos)
  ultimately show ?thesis
    using micros_bound [of d] by (simp add: as_micros_def unat_word_ariths(1) micros_def)
qed

lemma as_micros_mono:
  assumes "duration_ok a" and "a \<le> b"
  shows "micros a \<le> micros b"
proof (cases "dur_secs a < dur_secs b")
  case True
  then have "unat (dur_secs a) < unat (dur_secs b)" by (simp add: word_less_nat_alt)
  then have "(unat (dur_secs a) + 1) * 1000000 \<le> unat (dur_secs b) * 1000000" by simp
  moreover have "unat (dur_nanos a) div 1000 < 1000000" using assms(1) by (simp add: duration_ok_def)
  ultimately show ?thesis by (simp add: micros_def)
next
  case False
  with assms(2) show ?thesis
    by (simp add: less_eq_duration_def micros_def word_le_nat_alt div_le_mono)
qed

lemma sint_compare_p95_us:
  assumes "unat d < 2 ^ 127" and "unat t < 2 ^ 127"
  shows "sint (compare_p95_us d t) = int (unat t) - int (unat d)"
proof -
  have "compare_p95_us d t = t - d" by (simp add: compare_p95_us_def)
  also have "\<dots> = word_of_int (int (unat t) - int (unat d))" by simp
  finally have eq: "compare_p95_us d t = word_of_int (int (unat t) - int (unat d))" .
  have "int (unat d) < 2 ^ 127" "int (unat t) < 2 ^ 127"
    using of_nat_less_iff [where 'a = int, THEN iffD2, OF assms(1)]
      of_nat_less_iff [where 'a = int, THEN iffD2, OF assms(2)] by simp_all
  moreover have "0 \<le> int (unat d)" "0 \<le> int (unat t)" by simp_all
  ultimately have "- (2 ^ 127) \<le> int (unat t) - int (unat d)" "int (unat t) - int (unat d) < 2 ^ 127"
    by linarith+
  moreover have "sint (word_of_int k :: 128 word) = k" if "- (2 ^ 127) \<le> k" "k < 2 ^ 127" for k
    using that by (simp add: sint_sbintrunc' signed_take_bit_int_eq_self)
  ultimately show ?thesis unfolding eq by blast
qed

end
