(* ===== verification/Benchmark_Protocol.thy ===== *)
theory Benchmark_Protocol
  imports Benchmark
begin

text \<open>
  The temporary benchmark protocol of \<open>bench/src/lib.rs\<close>: the responder \<open>serve_connection\<close>, and the
  client's \<open>first_byte_sample\<close> and \<open>stream_sample\<close>.

  A connection is a pair of a reader and a writer, with the operations of \<open>Wire_IO\<close> and
  \<open>Copy_Loops\<close>.  The loops count \<open>remaining\<close> down to zero; the numbers are far below the limits of
  \<open>u64\<close>, so \<open>remaining\<close> is a natural number.
\<close>

section \<open>Constants\<close>

definition BENCHMARK_BYTES :: nat where "BENCHMARK_BYTES = 64 * 1024 * 1024"
definition SMALL_FLUSH_REQUEST_BYTES :: nat where "SMALL_FLUSH_REQUEST_BYTES = 9"
definition MAGIC :: bytes where "MAGIC = [0x43, 0x44, 0x58, 0x42, 0x43, 0x48, 0x30, 0x31]"
definition OP_FIRST_BYTE :: byte where "OP_FIRST_BYTE = 1"
definition OP_STREAM :: byte where "OP_STREAM = 2"
definition FIRST_BYTE_REPLY :: byte where "FIRST_BYTE_REPLY = 0xa5"
definition COPY_CHUNK_BYTES :: nat where "COPY_CHUNK_BYTES = 16 * 1024"

lemmas protocol_consts = SMALL_FLUSH_REQUEST_BYTES_def MAGIC_def OP_FIRST_BYTE_def OP_STREAM_def FIRST_BYTE_REPLY_def

section \<open>A connection\<close>

definition conn_read_exact ::
    "'r reader_ops \<Rightarrow> nat \<Rightarrow> 'r \<times> 'w \<Rightarrow> (bench_error + bytes) poll \<times> 'r \<times> 'w" where
  "conn_read_exact R n c = (case rd_read_exact R (fst c) n of (x, r) \<Rightarrow> await_err BenchIo (x, (r, snd c)))"

definition conn_write :: "'w writer_ops \<Rightarrow> bytes \<Rightarrow> 'r \<times> 'w \<Rightarrow> (bench_error + unit) poll \<times> 'r \<times> 'w" where
  "conn_write W b c = (case wr_write_all W (snd c) b of (x, w) \<Rightarrow> await_err BenchIo (x, (fst c, w)))"

definition conn_flush :: "'w writer_ops \<Rightarrow> 'r \<times> 'w \<Rightarrow> (bench_error + unit) poll \<times> 'r \<times> 'w" where
  "conn_flush W c = (case wr_flush W (snd c) of (x, w) \<Rightarrow> await_err BenchIo (x, (fst c, w)))"

section \<open>The responder\<close>

definition serve_connection ::
    "'r reader_ops \<Rightarrow> 'w writer_ops \<Rightarrow> ('r \<times> 'w \<Rightarrow> (io_error + nat) poll \<times> 'r \<times> 'w)
       \<Rightarrow> io_error + unit \<Rightarrow> 'r \<times> 'w \<Rightarrow> (bench_error + unit) poll \<times> 'r \<times> 'w" where
  "serve_connection R W copy set_nodelay c =
     await_bind (await_err BenchIo (Ready set_nodelay, c)) (\<lambda>_ c.
     await_bind (conn_read_exact R (length MAGIC) c) (\<lambda>magic c.
       if magic \<noteq> MAGIC then (Ready (Inl InvalidMagic), c)
       else await_bind (conn_read_exact R 1 c) (\<lambda>operation c.
         if operation ! 0 = OP_FIRST_BYTE then
           await_bind (conn_write W [FIRST_BYTE_REPLY] c) (\<lambda>_ c.
           await_bind (conn_flush W c) (\<lambda>_ c. (Ready (Inr ()), c)))
         else if operation ! 0 = OP_STREAM then
           await_bind (await_err BenchIo (copy c)) (\<lambda>_ c. (Ready (Inr ()), c))
         else (Ready (Inl (UnknownOperation (operation ! 0))), c))))"

section \<open>The client\<close>

text \<open>\<open>first_byte_sample\<close>: the connection's outcome and the two elapsed times are given.\<close>

definition first_byte_sample ::
    "'r reader_ops \<Rightarrow> 'w writer_ops \<Rightarrow> anyhow + 'r \<times> 'w \<Rightarrow> io_error + unit \<Rightarrow> duration \<Rightarrow> duration
       \<Rightarrow> (bench_error + endpoint_sample) poll \<times> ('r \<times> 'w) option" where
  "first_byte_sample R W connect set_nodelay setup elapsed =
     (case connect of
        Inl e \<Rightarrow> (Ready (Inl (ConnectFailed e)), None)
      | Inr c \<Rightarrow> apsnd Some
          (await_bind (await_err BenchIo (Ready set_nodelay, c)) (\<lambda>_ c.
           await_bind (conn_write W (MAGIC @ [OP_FIRST_BYTE]) c) (\<lambda>_ c.
           await_bind (conn_flush W c) (\<lambda>_ c.
           await_bind (conn_read_exact R 1 c) (\<lambda>reply c.
             if reply ! 0 \<noteq> FIRST_BYTE_REPLY then (Ready (Inl InvalidReply), c)
             else (Ready (Inr \<lparr>es_connection_setup = setup, es_first_byte = elapsed\<rparr>), c)))))))"

text \<open>\<open>stream_sample\<close>: the request, and the bodies of the two tasks.\<close>

definition stream_request :: "'w writer_ops \<Rightarrow> 'r \<times> 'w \<Rightarrow> (bench_error + unit) poll \<times> 'r \<times> 'w" where
  "stream_request W c =
     await_bind (conn_write W MAGIC c) (\<lambda>_ c.
     await_bind (conn_write W [OP_STREAM] c) (\<lambda>_ c. conn_flush W c))"

function stream_write_loop :: "'w writer_ops \<Rightarrow> 'w \<Rightarrow> nat \<Rightarrow> (io_error + unit) poll \<times> 'w" where
  "stream_write_loop W w remaining =
     (if 0 < remaining then
        let count = min remaining COPY_CHUNK_BYTES in
        case wr_write_all W w (replicate count 0x5a) of
          (Pending, w) \<Rightarrow> (Pending, w)
        | (Ready (Inl e), w) \<Rightarrow> (Ready (Inl e), w)
        | (Ready (Inr _), w) \<Rightarrow> stream_write_loop W w (remaining - count)
      else (Ready (Inr ()), w))"
  by pat_completeness auto
termination
  by (relation "measure (\<lambda>(W, w, remaining). remaining)") (auto simp: COPY_CHUNK_BYTES_def)

function stream_read_loop :: "'r reader_ops \<Rightarrow> 'r \<Rightarrow> nat \<Rightarrow> (io_error + unit) poll \<times> 'r" where
  "stream_read_loop R r remaining =
     (if 0 < remaining then
        let count = min remaining COPY_CHUNK_BYTES in
        case rd_read_exact R r count of
          (Pending, r) \<Rightarrow> (Pending, r)
        | (Ready (Inl e), r) \<Rightarrow> (Ready (Inl e), r)
        | (Ready (Inr _), r) \<Rightarrow> stream_read_loop R r (remaining - count)
      else (Ready (Inr ()), r))"
  by pat_completeness auto
termination
  by (relation "measure (\<lambda>(R, r, remaining). remaining)") (auto simp: COPY_CHUNK_BYTES_def)

declare stream_write_loop.simps [simp del] stream_read_loop.simps [simp del]

definition stream_writer :: "'w writer_ops \<Rightarrow> 'w \<Rightarrow> (io_error + nat) poll \<times> 'w" where
  "stream_writer W w =
     await_bind (stream_write_loop W w BENCHMARK_BYTES) (\<lambda>_ w.
     await_bind (wr_shutdown W w) (\<lambda>_ w. (Ready (Inr BENCHMARK_BYTES), w)))"

definition stream_reader :: "'r reader_ops \<Rightarrow> 'r \<Rightarrow> (io_error + nat) poll \<times> 'r" where
  "stream_reader R r =
     await_bind (stream_read_loop R r BENCHMARK_BYTES) (\<lambda>_ r. (Ready (Inr BENCHMARK_BYTES), r))"

text \<open>\<open>None\<close> when one of the two tasks has not ended: the sample waits for both.\<close>

definition stream_sample_of ::
    "(io_error + nat) poll \<Rightarrow> (io_error + nat) poll \<Rightarrow> duration \<Rightarrow> (bench_error + stream_sample) poll" where
  "stream_sample_of writer reader elapsed =
     (case writer of
        Pending \<Rightarrow> Pending
      | Ready (Inl e) \<Rightarrow> Ready (Inl (BenchIo e))
      | Ready (Inr sent) \<Rightarrow> (case reader of
          Pending \<Rightarrow> Pending
        | Ready (Inl e) \<Rightarrow> Ready (Inl (BenchIo e))
        | Ready (Inr received) \<Rightarrow>
            Ready (Inr \<lparr>ss_sent_bytes = of_nat sent, ss_received_bytes = of_nat received, ss_elapsed = elapsed\<rparr>)))"

section \<open>The loops over a working connection\<close>

lemma copy_chunk_pos: "0 < COPY_CHUNK_BYTES"
  by (simp add: COPY_CHUNK_BYTES_def)

context byte_sink
begin

lemma stream_write_loop_writes:
  "healthy w \<Longrightarrow> \<exists>w'. stream_write_loop W w n = (Ready (Inr ()), w') \<and> healthy w'
     \<and> written w' = written w @ replicate n 0x5a"
proof (induction n arbitrary: w rule: less_induct)
  case (less n)
  show ?case
  proof (cases "0 < n")
    case False
    with less.prems show ?thesis by (simp add: stream_write_loop.simps)
  next
    case True
    define count where "count = min n COPY_CHUNK_BYTES"
    obtain w1 where w1: "wr_write_all W w (replicate count 0x5a) = (Ready (Inr ()), w1)"
      "healthy w1" "written w1 = written w @ replicate count 0x5a"
      using write_ok less.prems by blast
    have "n - count < n" using True copy_chunk_pos by (simp add: count_def)
    with less.IH w1(2) obtain w2 where "stream_write_loop W w1 (n - count) = (Ready (Inr ()), w2)"
      "healthy w2" "written w2 = written w1 @ replicate (n - count) 0x5a"
      by blast
    moreover have "replicate count (0x5a :: byte) @ replicate (n - count) 0x5a = replicate n 0x5a"
      by (simp add: count_def flip: replicate_add)
    ultimately show ?thesis
      using True w1 by (simp add: stream_write_loop.simps [of W w n] count_def [symmetric] Let_def)
  qed
qed

lemma stream_writer_writes:
  assumes "healthy w"
  shows "\<exists>w'. stream_writer W w = (Ready (Inr BENCHMARK_BYTES), w') \<and> shut w'
     \<and> written w' = written w @ replicate BENCHMARK_BYTES 0x5a"
proof -
  from stream_write_loop_writes [OF assms] obtain w1 where
    w1: "stream_write_loop W w BENCHMARK_BYTES = (Ready (Inr ()), w1)" "healthy w1"
      "written w1 = written w @ replicate BENCHMARK_BYTES 0x5a" by blast
  from shutdown_ok [OF w1(2)] w1 show ?thesis by (auto simp: stream_writer_def)
qed

lemma conn_write_ok:
  assumes "healthy w"
  shows "\<exists>w'. conn_write W b (r, w) = (Ready (Inr ()), (r, w')) \<and> healthy w' \<and> written w' = written w @ b"
  using write_ok [OF assms, of b] by (auto simp: conn_write_def)

lemma conn_flush_ok:
  assumes "healthy w"
  shows "\<exists>w'. conn_flush W (r, w) = (Ready (Inr ()), (r, w')) \<and> healthy w' \<and> written w' = written w \<and> flushed w'"
  using flush_ok [OF assms] by (auto simp: conn_flush_def)

lemma stream_request_ok:
  assumes "healthy w"
  shows "\<exists>w'. stream_request W (r, w) = (Ready (Inr ()), (r, w')) \<and> healthy w' \<and> flushed w'
     \<and> written w' = written w @ MAGIC @ [OP_STREAM]"
proof -
  from conn_write_ok [OF assms, of MAGIC r] obtain w1 where w1: "conn_write W MAGIC (r, w) = (Ready (Inr ()), (r, w1))"
    "healthy w1" "written w1 = written w @ MAGIC" by blast
  from conn_write_ok [OF w1(2), of "[OP_STREAM]" r] obtain w2 where w2: "conn_write W [OP_STREAM] (r, w1) = (Ready (Inr ()), (r, w2))"
    "healthy w2" "written w2 = written w1 @ [OP_STREAM]" by blast
  from conn_flush_ok [OF w2(2), of r] w1 w2 show ?thesis by (auto simp: stream_request_def)
qed

end

context byte_stream
begin

lemma stream_read_loop_reads:
  "n \<le> length (content r) \<Longrightarrow> \<exists>r'. stream_read_loop R r n = (Ready (Inr ()), r')
     \<and> content r' = drop n (content r) \<and> at_end r' = at_end r"
proof (induction n arbitrary: r rule: less_induct)
  case (less n)
  show ?case
  proof (cases "0 < n")
    case False
    with less.prems show ?thesis by (simp add: stream_read_loop.simps)
  next
    case True
    define count where "count = min n COPY_CHUNK_BYTES"
    have "count \<le> length (content r)" using less.prems by (simp add: count_def)
    from exact_data [OF this] obtain r1 where r1: "rd_read_exact R r count = (Ready (Inr (take count (content r))), r1)"
      "content r1 = drop count (content r)" "at_end r1 = at_end r" by blast
    have "n - count < n" "n - count \<le> length (content r1)"
      using True less.prems copy_chunk_pos r1 by (auto simp: count_def)
    from less.IH [OF this] obtain r2 where "stream_read_loop R r1 (n - count) = (Ready (Inr ()), r2)"
      "content r2 = drop (n - count) (content r1)" "at_end r2 = at_end r1" by blast
    moreover have "n - count + count = n" by (simp add: count_def)
    ultimately show ?thesis
      using True r1 by (simp add: stream_read_loop.simps [of R r n] count_def [symmetric] Let_def)
  qed
qed

lemma stream_read_loop_short:
  "length (content r) < n \<Longrightarrow> \<exists>r'. stream_read_loop R r n = (short_read (at_end r), r')"
proof (induction n arbitrary: r rule: less_induct)
  case (less n)
  define count where "count = min n COPY_CHUNK_BYTES"
  have pos: "0 < n" using less.prems by simp
  show ?case
  proof (cases "length (content r) < count")
    case True
    from exact_short [OF this] obtain r1 where "rd_read_exact R r count = (short_read (at_end r), r1)" by blast
    with pos show ?thesis
      by (cases "at_end r") (simp_all add: stream_read_loop.simps [of R r n] count_def [symmetric] Let_def)
  next
    case False
    then have "count \<le> length (content r)" by simp
    from exact_data [OF this] obtain r1 where r1: "rd_read_exact R r count = (Ready (Inr (take count (content r))), r1)"
      "content r1 = drop count (content r)" "at_end r1 = at_end r" by blast
    have "n - count < n" "length (content r1) < n - count"
      using pos less.prems copy_chunk_pos r1 False by (auto simp: count_def)
    from less.IH [OF this] r1 pos show ?thesis
      by (simp add: stream_read_loop.simps [of R r n] count_def [symmetric] Let_def)
  qed
qed

text \<open>The client reports a complete transfer exactly when that many bytes arrive.\<close>

lemma stream_reader_reads:
  "fst (stream_reader R r) = Ready (Inr BENCHMARK_BYTES) \<longleftrightarrow> BENCHMARK_BYTES \<le> length (content r)"
proof (cases "BENCHMARK_BYTES \<le> length (content r)")
  case True
  from stream_read_loop_reads [OF this] True show ?thesis by (auto simp: stream_reader_def)
next
  case False
  then have "length (content r) < BENCHMARK_BYTES" by simp
  from stream_read_loop_short [OF this] False show ?thesis
    by (cases "at_end r") (auto simp: stream_reader_def)
qed

lemma conn_read_exact_ok:
  assumes "n \<le> length (content r)"
  shows "\<exists>r'. conn_read_exact R n (r, w) = (Ready (Inr (take n (content r))), (r', w))
    \<and> content r' = drop n (content r) \<and> at_end r' = at_end r"
  using exact_data [OF assms] by (auto simp: conn_read_exact_def)

lemma conn_read_exact_short:
  assumes "length (content r) < n"
  shows "\<exists>r'. conn_read_exact R n (r, w) = (fst (await_err BenchIo (short_read (at_end r), ())), (r', w))"
  using exact_short [OF assms] by (cases "at_end r") (auto simp: conn_read_exact_def)

end

section \<open>The responder on a connection\<close>

fun copy_result :: "stream_end \<Rightarrow> nat \<Rightarrow> (io_error + nat) poll" where
  "copy_result AtEof n = Ready (Inr n)"
| "copy_result (Broken e) n = Ready (Inl e)"
| "copy_result Stalled n = Pending"

text \<open>\<open>tokio::io::copy\<close> passes on everything that arrives, and flushes.\<close>

locale echo_link = byte_stream R content at_end + byte_sink W written flushed shut healthy
  for R :: "'r reader_ops" and content at_end and W :: "'w writer_ops" and written flushed shut healthy +
  fixes copy :: "'r \<times> 'w \<Rightarrow> (io_error + nat) poll \<times> 'r \<times> 'w"
  assumes copies: "healthy w \<Longrightarrow> \<exists>r' w'. copy (r, w) = (copy_result (at_end r) (length (content r)), (r', w'))
      \<and> written w' = written w @ content r \<and> healthy w' \<and> flushed w'"
begin

lemma serve_operation:
  assumes "healthy w" and "content r = MAGIC @ operation # rest"
  shows "\<exists>res r' w'. serve_connection R W copy (Inr ()) (r, w) = (res, (r', w')) \<and> healthy w'
    \<and> (operation = OP_FIRST_BYTE \<longrightarrow> res = Ready (Inr ()) \<and> flushed w'
         \<and> written w' = written w @ [FIRST_BYTE_REPLY])
    \<and> (operation = OP_STREAM \<longrightarrow> flushed w' \<and> written w' = written w @ rest
         \<and> (at_end r = AtEof \<longrightarrow> res = Ready (Inr ())))
    \<and> (operation \<noteq> OP_FIRST_BYTE \<and> operation \<noteq> OP_STREAM \<longrightarrow>
         res = Ready (Inl (UnknownOperation operation)) \<and> w' = w)"
proof -
  have len: "length MAGIC \<le> length (content r)" using assms(2) by simp
  from conn_read_exact_ok [OF len, of w] assms(2) obtain r1 where
    r1: "conn_read_exact R (length MAGIC) (r, w) = (Ready (Inr MAGIC), (r1, w))"
      "content r1 = operation # rest" "at_end r1 = at_end r" by auto
  then have "1 \<le> length (content r1)" by simp
  from conn_read_exact_ok [OF this, of w] r1 obtain r2 where
    r2: "conn_read_exact R 1 (r1, w) = (Ready (Inr [operation]), (r2, w))" "content r2 = rest"
      "at_end r2 = at_end r" by auto
  have distinct: "OP_FIRST_BYTE \<noteq> OP_STREAM" by (simp add: protocol_consts)
  consider "operation = OP_FIRST_BYTE" | "operation = OP_STREAM"
    | "operation \<noteq> OP_FIRST_BYTE" "operation \<noteq> OP_STREAM" by blast
  then show ?thesis
  proof cases
    case 1
    from conn_write_ok [OF assms(1), of "[FIRST_BYTE_REPLY]" r2] obtain w1 where
      w1: "conn_write W [FIRST_BYTE_REPLY] (r2, w) = (Ready (Inr ()), (r2, w1))" "healthy w1"
        "written w1 = written w @ [FIRST_BYTE_REPLY]" by blast
    from conn_flush_ok [OF w1(2), of r2] w1 r1 r2 1 distinct show ?thesis
      by (auto simp: serve_connection_def)
  next
    case 2
    from copies [OF assms(1), of r2] obtain r3 w1 where
      c: "copy (r2, w) = (copy_result (at_end r) (length rest), (r3, w1))" "written w1 = written w @ rest"
        "healthy w1" "flushed w1" using r2 by auto
    from c r1 r2 2 distinct show ?thesis
      by (cases "at_end r") (auto simp: serve_connection_def)
  next
    case 3
    with r1 r2 assms(1) show ?thesis by (auto simp: serve_connection_def)
  qed
qed

text \<open>Anything else is refused without an answer.\<close>

lemma serve_refuses:
  assumes "\<forall>operation rest. content r \<noteq> MAGIC @ operation # rest"
  shows "\<exists>res r'. serve_connection R W copy (Inr ()) (r, w) = (res, (r', w)) \<and> res \<noteq> Ready (Inr ())"
proof (cases "length (content r) < length MAGIC")
  case True
  from conn_read_exact_short [OF this, of w] show ?thesis
    by (cases "at_end r") (auto simp: serve_connection_def)
next
  case False
  then have len: "length MAGIC \<le> length (content r)" by simp
  from conn_read_exact_ok [OF len, of w] obtain r1 where
    r1: "conn_read_exact R (length MAGIC) (r, w) = (Ready (Inr (take (length MAGIC) (content r))), (r1, w))"
      "content r1 = drop (length MAGIC) (content r)" "at_end r1 = at_end r" by blast
  show ?thesis
  proof (cases "take (length MAGIC) (content r) = MAGIC")
    case False
    with r1 show ?thesis by (auto simp: serve_connection_def)
  next
    case True
    have "content r1 = []"
    proof (rule ccontr)
      assume "content r1 \<noteq> []"
      then obtain operation rest where "content r1 = operation # rest" by (cases "content r1") auto
      with True r1 have "content r = MAGIC @ operation # rest" by (metis append_take_drop_id)
      with assms show False by blast
    qed
    then have "length (content r1) < 1" by simp
    from conn_read_exact_short [OF this, of w] True r1 show ?thesis
      by (cases "at_end r") (auto simp: serve_connection_def)
  qed
qed

end

lemma prefix_complete_iff: "prefix xs ys \<Longrightarrow> length ys \<le> length xs \<longleftrightarrow> xs = ys"
  by (auto simp: prefix_def)

section \<open>A responder on a network\<close>

text \<open>A copy between the streams and sinks of the other components.\<close>

definition net_copy :: "net_stream \<times> net_sink \<Rightarrow> (io_error + nat) poll \<times> net_stream \<times> net_sink" where
  "net_copy c =
     (case sink_fault (snd c) of
        Some e \<Rightarrow> (Ready (Inl e), c)
      | None \<Rightarrow> (copy_result (net_end (fst c)) (length (net_content (fst c))),
          ((fst c)\<lparr>chunks := []\<rparr>,
           (snd c)\<lparr>sink_out := sink_out (snd c) @ net_content (fst c), sink_flushed := True\<rparr>)))"

interpretation echo: echo_link net_ops net_content net_end sink_ops sink_out sink_flushed sink_shut sink_healthy net_copy
  by unfold_locales (simp add: net_copy_def sink_healthy_def)

section \<open>Properties\<close>

text \<open>C39: The stream benchmark moves exactly the required amount each way.  The client's request and
  writer put the nine bytes of the request and 64 MiB on the connection and shut it down; a responder
  that receives them, in any chunks, echoes the 64 MiB and ends without an error; and the client's
  reader reports a complete transfer exactly when all of the echo arrives, not when it is cut short.\<close>

theorem benchmark_stream_is_complete:
  assumes "sink_healthy w" and "sink_out w = []"
    and "stream_request sink_ops (c, w) = (res0, (c', w1))"
    and "stream_writer sink_ops w1 = (res1, w2)"
    and "net_content r = sink_out w2" and "net_end r = AtEof"
    and "sink_healthy v" and "sink_out v = []"
    and "serve_connection net_ops sink_ops net_copy (Inr ()) (r, v) = (res2, (r', v'))"
    and "prefix (net_content q) (sink_out v')"
  shows "res0 = Ready (Inr ()) \<and> res1 = Ready (Inr BENCHMARK_BYTES) \<and> sink_shut w2
    \<and> length (sink_out w2) = SMALL_FLUSH_REQUEST_BYTES + BENCHMARK_BYTES
    \<and> res2 = Ready (Inr ()) \<and> sink_out v' = replicate BENCHMARK_BYTES 0x5a
    \<and> (fst (stream_reader net_ops q) = Ready (Inr BENCHMARK_BYTES) \<longleftrightarrow> net_content q = sink_out v')"
proof -
  from sink.stream_request_ok [OF assms(1), of c] assms(2,3)
  have w1: "res0 = Ready (Inr ())" "sink_healthy w1" "sink_out w1 = MAGIC @ [OP_STREAM]" by auto
  from sink.stream_writer_writes [OF w1(2)] assms(4) w1(3)
  have w2: "res1 = Ready (Inr BENCHMARK_BYTES)" "sink_shut w2"
    "sink_out w2 = MAGIC @ OP_STREAM # replicate BENCHMARK_BYTES 0x5a" by auto
  from w2(3) assms(5) have "net_content r = MAGIC @ OP_STREAM # replicate BENCHMARK_BYTES 0x5a" by simp
  from echo.serve_operation [OF assms(7) this] assms(6,8,9)
  have v': "res2 = Ready (Inr ())" "sink_out v' = replicate BENCHMARK_BYTES 0x5a" by auto
  have "BENCHMARK_BYTES \<le> length (net_content q) \<longleftrightarrow> net_content q = sink_out v'"
    using prefix_complete_iff [OF assms(10)] by (simp add: v'(2))
  then have "fst (stream_reader net_ops q) = Ready (Inr BENCHMARK_BYTES) \<longleftrightarrow> net_content q = sink_out v'"
    by (simp add: net.stream_reader_reads)
  moreover have "length (sink_out w2) = SMALL_FLUSH_REQUEST_BYTES + BENCHMARK_BYTES"
    unfolding w2(3) by (simp add: MAGIC_def SMALL_FLUSH_REQUEST_BYTES_def)
  ultimately show ?thesis using w1 w2 v' by blast
qed

lemma benchmark_stream_is_complete_witness:
  "\<exists>r' v'. serve_connection net_ops sink_ops net_copy (Inr ())
       (\<lparr>chunks = [MAGIC, [OP_STREAM], replicate BENCHMARK_BYTES 0x5a], net_end = AtEof\<rparr>,
        \<lparr>sink_out = [], sink_flushed = False, sink_shut = False, sink_fault = None\<rparr>) = (Ready (Inr ()), (r', v'))
     \<and> sink_out v' = replicate BENCHMARK_BYTES 0x5a
     \<and> fst (stream_reader net_ops \<lparr>chunks = [], net_end = AtEof\<rparr>) \<noteq> Ready (Inr BENCHMARK_BYTES)"
proof -
  let ?w = "\<lparr>sink_out = [], sink_flushed = False, sink_shut = False, sink_fault = None\<rparr>"
  let ?r = "\<lparr>chunks = [MAGIC, [OP_STREAM], replicate BENCHMARK_BYTES 0x5a], net_end = AtEof\<rparr>"
  let ?q = "\<lparr>chunks = [], net_end = AtEof\<rparr>"
  have w: "sink_healthy ?w" "sink_out ?w = []" by (simp_all add: sink_healthy_def)
  from sink.stream_request_ok [OF w(1), of ?r] obtain w1 where
    w1: "stream_request sink_ops (?r, ?w) = (Ready (Inr ()), (?r, w1))" "sink_healthy w1"
      "sink_out w1 = MAGIC @ [OP_STREAM]" by auto
  from sink.stream_writer_writes [OF w1(2)] obtain w2 where
    w2: "stream_writer sink_ops w1 = (Ready (Inr BENCHMARK_BYTES), w2)"
      "sink_out w2 = sink_out w1 @ replicate BENCHMARK_BYTES 0x5a" by blast
  obtain res r' v' where s: "serve_connection net_ops sink_ops net_copy (Inr ()) (?r, ?w) = (res, (r', v'))"
    by (metis prod.collapse)
  have r: "net_content ?r = sink_out w2" by (simp add: net_content_def w1 w2)
  from benchmark_stream_is_complete [OF w w1(1) w2(1) r _ w s, of ?q]
  have "res = Ready (Inr ())" "sink_out v' = replicate BENCHMARK_BYTES 0x5a"
    "fst (stream_reader net_ops ?q) = Ready (Inr BENCHMARK_BYTES) \<longleftrightarrow> net_content ?q = sink_out v'"
    by (simp_all add: net_content_new)
  moreover have "0 < BENCHMARK_BYTES" by (simp add: BENCHMARK_BYTES_def)
  ultimately show ?thesis using s by (auto simp: net_content_def)
qed

end
