(* ===== verification/Benchmark_Report.thy ===== *)
theory Benchmark_Report
  imports Complex_Main Benchmark_Protocol Key_Files
begin

text \<open>
  The benchmark command, \<open>bench/src/main.rs\<close>: how a run collects its samples, compares the two paths,
  judges the release gates (\<open>run\<close>, \<open>collect_samples\<close>, \<open>memory_report\<close>) and writes its evidence
  (\<open>write_new_json\<close>).

  What the measurements answered is an argument: for each path the outcome of each small request and
  of the stream.  The JSON encoder is an argument.  The report's constant
  texts are left out.
\<close>

section \<open>Collecting\<close>

definition timed :: "string \<Rightarrow> (bench_error + 'a) poll \<Rightarrow> bench_error + 'a" where
  "timed msg p = (case p of Pending \<Rightarrow> Inl (TimedOut msg) | Ready r \<Rightarrow> r)"

text \<open>\<open>outcome k\<close> is what the request number \<open>k\<close> (from 0) returns; \<open>Pending\<close> is one the timeout ends.\<close>

primrec collect_samples :: "(nat \<Rightarrow> (bench_error + endpoint_sample) poll) \<Rightarrow> nat \<Rightarrow> bench_error + endpoint_sample list" where
  "collect_samples outcome 0 = Inr []"
| "collect_samples outcome (Suc k) =
     rbind (collect_samples outcome k) (\<lambda>result.
     rbind (timed ''first-byte benchmark timed out'' (outcome k)) (\<lambda>s. Inr (result @ [s])))"

record measured_path =
  mp_outcome :: "nat \<Rightarrow> (bench_error + endpoint_sample) poll"
  mp_stream :: "(bench_error + stream_sample) poll"

section \<open>The report\<close>

record 'f memory_report_data =
  mr_status :: string
  mr_baseline_rss_kib :: "64 word option"
  mr_active_rss_kib :: "64 word option"
  mr_active_connections :: "32 word option"
  mr_per_active_connection_kib :: "'f option"

definition memory_report ::
    "'f float_ops \<Rightarrow> ((64 word \<times> 64 word) \<times> 32 word) option \<Rightarrow> bench_error + 'f memory_report_data" where
  "memory_report F memory =
     (case memory of
        None \<Rightarrow> Inr \<lparr>mr_status = ''not_measured'', mr_baseline_rss_kib = None, mr_active_rss_kib = None,
                 mr_active_connections = None, mr_per_active_connection_kib = None\<rparr>
      | Some ((baseline, active), connections) \<Rightarrow>
          rbind (memory_per_active_connection_kib F baseline active connections) (\<lambda>per_connection.
            Inr \<lparr>mr_status = ''measured_from_operator_rss_samples'', mr_baseline_rss_kib = Some baseline,
                 mr_active_rss_kib = Some active, mr_active_connections = Some connections,
                 mr_per_active_connection_kib = Some per_connection\<rparr>))"

record 'f bench_report =
  rp_schema_version :: "8 word"
  rp_measured_at_unix_seconds :: "64 word"
  rp_hardware_note :: utext
  rp_stream_bytes_each_direction :: "64 word"
  rp_small_flushed_write_bytes :: nat
  rp_samples_per_path :: "16 word"
  rp_direct :: "'f endpoint_report_data"
  rp_tunnel :: "'f endpoint_report_data"
  rp_additional_first_byte_p95_us :: "128 word"
  rp_throughput_fraction :: 'f
  rp_gate_first_byte :: bool
  rp_gate_throughput :: bool
  rp_gate_memory :: "bool option"
  rp_memory :: "'f memory_report_data"

text \<open>\<open>clock\<close> is the time since the epoch, \<open>None\<close> when the system clock is before it.  A panic inside \<open>endpoint_report\<close> ends the run.\<close>

definition or_panic :: "(bench_error + 'a) option \<Rightarrow> bench_error option + 'a" where
  "or_panic r = (case r of None \<Rightarrow> Inl None | Some x \<Rightarrow> map_err Some x)"

definition bench_run ::
    "'f float_ops \<Rightarrow> 64 word option \<Rightarrow> utext \<Rightarrow> measured_path \<Rightarrow> measured_path \<Rightarrow> 16 word \<Rightarrow> ((64 word \<times> 64 word) \<times> 32 word) option
       \<Rightarrow> bench_error option + 'f bench_report" where
  "bench_run F clock note direct tunnel samples memory =
     rbind (map_err Some (collect_samples (mp_outcome direct) (unat samples))) (\<lambda>direct_samples.
     rbind (map_err Some (timed ''direct stream benchmark timed out'' (mp_stream direct))) (\<lambda>direct_stream.
     rbind (map_err Some (collect_samples (mp_outcome tunnel) (unat samples))) (\<lambda>tunnel_samples.
     rbind (map_err Some (timed ''tunnel stream benchmark timed out'' (mp_stream tunnel))) (\<lambda>tunnel_stream.
     rbind (or_panic (endpoint_report F direct_samples direct_stream)) (\<lambda>d.
     rbind (or_panic (endpoint_report F tunnel_samples tunnel_stream)) (\<lambda>t.
     let additional = compare_p95_us (er_first_byte_p95_us d) (er_first_byte_p95_us t);
         fraction = fl_div F (er_throughput t) (er_throughput d) in
     rbind (map_err Some (memory_report F memory)) (\<lambda>m.
     rbind (ok_or clock (Some ClockBeforeEpoch)) (\<lambda>seconds.
       Inr \<lparr>rp_schema_version = 1, rp_measured_at_unix_seconds = seconds, rp_hardware_note = note,
            rp_stream_bytes_each_direction = of_nat BENCHMARK_BYTES, rp_small_flushed_write_bytes = 9,
            rp_samples_per_path = samples, rp_direct = d, rp_tunnel = t,
            rp_additional_first_byte_p95_us = additional, rp_throughput_fraction = fraction,
            rp_gate_first_byte = sint additional \<le> 10000,
            rp_gate_throughput = fl_le F (fl_0_90 F) fraction,
            rp_gate_memory = map_option (\<lambda>v. fl_le F v (fl_1024 F)) (mr_per_active_connection_kib m),
            rp_memory = m\<rparr>))))))))"

section \<open>The evidence file\<close>

text \<open>\<open>std::fs::create_dir_all\<close>: the missing directories on the way, from the top.\<close>

fun create_dirs :: "os \<Rightarrow> fs \<Rightarrow> path list \<Rightarrow> fs \<times> bool" where
  "create_dirs os fs [] = (fs, True)"
| "create_dirs os fs (d # ds) =
     (case follow 40 fs d of
        Some (DirNode m) \<Rightarrow> create_dirs os fs ds
      | _ \<Rightarrow> (case create_dir os fs d of None \<Rightarrow> (fs, False) | Some fs' \<Rightarrow> create_dirs os fs' ds))"

definition create_dir_all :: "os \<Rightarrow> fs \<Rightarrow> path \<Rightarrow> fs \<times> bool" where
  "create_dir_all os fs p = create_dirs os fs (tl (prefixes p))"

definition output_directory :: "os \<Rightarrow> fs \<Rightarrow> path \<Rightarrow> fs \<times> bool" where
  "output_directory os fs path =
     (case path_parent path of None \<Rightarrow> (fs, True) | Some parent \<Rightarrow> create_dir_all os fs parent)"

datatype evidence_error =
    EvidenceExists path
  | OutputDirectory path
  | EncodeFailed
  | EvidenceNotCreated path
  | EvidenceIo path

definition write_new_json ::
    "('a \<Rightarrow> utext option) \<Rightarrow> os \<Rightarrow> fs \<Rightarrow> path \<Rightarrow> 'a \<Rightarrow> fs \<times> (evidence_error + unit)" where
  "write_new_json encode os fs path report =
     (if path_exists fs path then (fs, Inl (EvidenceExists path))
      else case output_directory os fs path of
        (fs1, False) \<Rightarrow> (fs1, Inl (OutputDirectory path))
      | (fs1, True) \<Rightarrow>
          (case encode report of
             None \<Rightarrow> (fs1, Inl EncodeFailed)
           | Some encoded \<Rightarrow>
               (case open_create_new os fs1 path 0x1B6 of
                  None \<Rightarrow> (fs1, Inl (EvidenceNotCreated path))
                | Some fs2 \<Rightarrow>
                    (case write_file os fs2 path encoded of
                       None \<Rightarrow> (fs2, Inl (EvidenceIo path))
                     | Some fs3 \<Rightarrow>
                         (case write_file os fs3 path [10] of
                            None \<Rightarrow> (fs3, Inl (EvidenceIo path))
                          | Some fs4 \<Rightarrow> (fs4, if os_sync_ok os path then Inr () else Inl (EvidenceIo path)))))))"

text \<open>The \<open>run\<close> command: the memory figures count only when all three are given, and nothing is written
  without a report.  \<open>None\<close> in the error is a panic.\<close>

datatype command_error = RunFailed "bench_error option" | EvidenceFailed evidence_error

definition zip_option :: "'a option \<Rightarrow> 'b option \<Rightarrow> ('a \<times> 'b) option" where
  "zip_option a b = Option.bind a (\<lambda>x. map_option (\<lambda>y. (x, y)) b)"

definition run_command ::
    "'f float_ops \<Rightarrow> ('f bench_report \<Rightarrow> utext option) \<Rightarrow> os \<Rightarrow> fs \<Rightarrow> 64 word option \<Rightarrow> utext \<Rightarrow> measured_path
       \<Rightarrow> measured_path \<Rightarrow> 16 word \<Rightarrow> 64 word option \<Rightarrow> 64 word option \<Rightarrow> 32 word option \<Rightarrow> path
       \<Rightarrow> fs \<times> (command_error + unit)" where
  "run_command F encode os fs clock note direct tunnel samples baseline active connections out_path =
     (if blank note then (fs, Inl (RunFailed (Some HardwareNoteEmpty)))
      else case bench_run F clock note direct tunnel samples
          (zip_option (zip_option baseline active) connections) of
        Inl e \<Rightarrow> (fs, Inl (RunFailed e))
      | Inr report \<Rightarrow> apsnd (map_err EvidenceFailed) (write_new_json encode os fs out_path report))"

lemma create_dir_keeps: "create_dir os fs p = Some fs' \<Longrightarrow> fs q = Some n \<Longrightarrow> fs' q = Some n"
  by (auto simp: create_dir_def split: if_splits)

lemma create_dirs_keeps: "fs q = Some n \<Longrightarrow> fst (create_dirs os fs ds) q = Some n"
  by (induction ds arbitrary: fs) (auto split: option.split node.split intro: create_dir_keeps)

lemma output_directory_keeps:
  assumes "fs q = Some n"
  shows "fst (output_directory os fs p) q = Some n"
  using create_dirs_keeps [where fs = fs and q = q] assms
  by (simp add: output_directory_def create_dir_all_def split: option.split)

text \<open>Evidence is never overwritten, whatever is already in the file system.\<close>

lemma write_new_json_keeps:
  assumes "fs q = Some n"
  shows "fst (write_new_json encode os fs p report) q = Some n"
  using output_directory_keeps [where fs = fs and q = q and os = os and p = p] assms
  by (auto simp: write_new_json_def open_create_new_def write_file_def
      split: prod.split option.split bool.split)

lemma write_new_json_Inr:
  assumes "write_new_json encode os fs p report = (fs', Inr ())"
  shows "\<exists>encoded. encode report = Some encoded \<and> fs (place p) = None
    \<and> fs' (place p) = Some (FileNode (0x1B6 AND NOT (os_umask os)) (encoded @ [10]))"
proof -
  obtain fs1 ok where d: "output_directory os fs p = (fs1, ok)" by fastforce
  have "fs (place p) = None" if "fs1 (place p) = None"
    using output_directory_keeps [where fs = fs and q = "place p" and os = os and p = p] d that
    by (cases "fs (place p)") auto
  with assms d show ?thesis
    by (auto simp: write_new_json_def open_create_new_def write_file_def
        split: option.splits bool.splits if_splits)
qed

text \<open>A command that succeeds has written its report, and only that, to a file that was not there.\<close>

lemma run_command_evidence:
  assumes "run_command F encode os fs clock note direct tunnel samples baseline active connections out_path = (fs', Inr ())"
  shows "\<exists>report encoded. \<not> blank note
    \<and> bench_run F clock note direct tunnel samples (zip_option (zip_option baseline active) connections) = Inr report
    \<and> encode report = Some encoded \<and> fs (place out_path) = None
    \<and> fs' (place out_path) = Some (FileNode (0x1B6 AND NOT (os_umask os)) (encoded @ [10]))
    \<and> (\<forall>q n. fs q = Some n \<longrightarrow> fs' q = Some n)"
proof -
  from assms obtain report where r: "\<not> blank note"
    "bench_run F clock note direct tunnel samples (zip_option (zip_option baseline active) connections) = Inr report"
    "apsnd (map_err EvidenceFailed) (write_new_json encode os fs out_path report) = (fs', Inr ())"
    by (auto simp: run_command_def split: if_splits sum.splits)
  then have w: "write_new_json encode os fs out_path report = (fs', Inr ())"
    by (cases "write_new_json encode os fs out_path report") (simp add: result_iff)
  moreover have "\<forall>q n. fs q = Some n \<longrightarrow> fs' q = Some n"
    using write_new_json_keeps [where encode = encode and os = os and fs = fs and p = out_path and report = report] w
    by auto
  ultimately show ?thesis using write_new_json_Inr [OF w] r by blast
qed

section \<open>A run\<close>

lemma collect_samples_Inr:
  "collect_samples outcome n = Inr xs \<longleftrightarrow> length xs = n \<and> (\<forall>k < n. outcome k = Ready (Inr (xs ! k)))"
proof (induction n arbitrary: xs)
  case 0
  then show ?case by auto
next
  case (Suc n)
  have timed: "timed m p = Inr x \<longleftrightarrow> p = Ready (Inr x)" for m p and x :: endpoint_sample
    by (cases p) (simp_all add: timed_def)
  show ?case
  proof (cases xs rule: rev_cases)
    case Nil
    then show ?thesis by (auto simp: result_iff)
  next
    case (snoc ys y)
    then show ?thesis
      using Suc.IH [of ys] by (auto simp: result_iff timed nth_append less_Suc_eq)
  qed
qed

lemma or_panic_Inr [result_iff]: "or_panic r = Inr x \<longleftrightarrow> r = Some (Inr x)"
  by (auto simp: or_panic_def map_err_Inr_iff split: option.splits)

text \<open>The percentiles of a report are those of observed samples.\<close>

lemma endpoint_report_Inr:
  assumes "endpoint_report F samples stream = Some (Inr r)"
  shows "samples \<noteq> []"
    and "\<exists>v \<in> set samples. er_first_byte_p95_us r = as_micros (es_first_byte v)
      \<and> percentile_95 (map es_first_byte samples) = Some (es_first_byte v)"
proof -
  show ne: "samples \<noteq> []" using assms by (auto simp: endpoint_report_def)
  then have "map es_first_byte samples \<noteq> []" by simp
  from percentile_95_rank [OF this] obtain v where
    v: "percentile_95 (map es_first_byte samples) = Some v" "v \<in> es_first_byte ` set samples" by auto
  then show "\<exists>v \<in> set samples. er_first_byte_p95_us r = as_micros (es_first_byte v)
      \<and> percentile_95 (map es_first_byte samples) = Some (es_first_byte v)"
    using assms by (auto simp: endpoint_report_def result_iff split: if_splits option.splits)
qed

lemma endpoint_report_no_panic: "endpoint_report F samples stream \<noteq> None"
proof (cases "samples = []")
  case False
  then have "map es_connection_setup samples \<noteq> []" "map es_first_byte samples \<noteq> []" by simp_all
  then obtain a b where "percentile_95 (map es_connection_setup samples) = Some a"
    "percentile_95 (map es_first_byte samples) = Some b"
    using percentile_95_rank by blast
  then show ?thesis by (simp add: endpoint_report_def)
qed (simp add: endpoint_report_def)

lemma rbind_None_cases:
  "rbind m k = Inl None \<Longrightarrow> m = Inl None \<or> (\<exists>x. m = Inr x \<and> k x = Inl None)"
  by (cases m) simp_all

lemma map_err_Some_not_None [simp]: "map_err Some r \<noteq> Inl None"
  by (cases r) simp_all

lemma or_panic_report [simp]: "or_panic (endpoint_report F samples stream) \<noteq> Inl None"
  using endpoint_report_no_panic [of F samples stream] by (auto simp: or_panic_def)

lemma bench_run_no_panic: "bench_run F clock note direct tunnel n memory \<noteq> Inl None"
  unfolding bench_run_def Let_def
  by (auto dest!: rbind_None_cases simp: ok_or_def split: option.splits)

lemma bench_run_Inr:
  assumes "bench_run F clock note direct tunnel n memory = Inr rp"
  shows "\<exists>ds ts dstream tstream.
      collect_samples (mp_outcome direct) (unat n) = Inr ds \<and> collect_samples (mp_outcome tunnel) (unat n) = Inr ts
    \<and> mp_stream direct = Ready (Inr dstream) \<and> mp_stream tunnel = Ready (Inr tstream)
    \<and> endpoint_report F ds dstream = Some (Inr (rp_direct rp))
    \<and> endpoint_report F ts tstream = Some (Inr (rp_tunnel rp))
    \<and> memory_report F memory = Inr (rp_memory rp)
    \<and> rp_additional_first_byte_p95_us rp
        = compare_p95_us (er_first_byte_p95_us (rp_direct rp)) (er_first_byte_p95_us (rp_tunnel rp))
    \<and> rp_throughput_fraction rp = fl_div F (er_throughput (rp_tunnel rp)) (er_throughput (rp_direct rp))
    \<and> (rp_gate_first_byte rp \<longleftrightarrow> sint (rp_additional_first_byte_p95_us rp) \<le> 10000)
    \<and> (rp_gate_throughput rp \<longleftrightarrow> fl_le F (fl_0_90 F) (rp_throughput_fraction rp))
    \<and> rp_gate_memory rp = map_option (\<lambda>v. fl_le F v (fl_1024 F)) (mr_per_active_connection_kib (rp_memory rp))"
proof -
  have timed: "timed m p = Inr x \<longleftrightarrow> p = Ready (Inr x)" for m p and x :: stream_sample
    by (cases p) (simp_all add: timed_def)
  show ?thesis using assms by (auto simp: bench_run_def Let_def result_iff timed)
qed

lemma memory_report_Inr:
  assumes "memory_report F memory = Inr m"
  shows "case memory of
      None \<Rightarrow> mr_per_active_connection_kib m = None
    | Some ((baseline, active), c) \<Rightarrow> 0 < c \<and> baseline \<le> active
        \<and> mr_per_active_connection_kib m = Some (fl_div F (fl_of_u64 F (active - baseline)) (fl_of_u32 F c))"
  using assms
  by (auto simp: memory_report_def memory_per_active_connection_kib_def checked_sub_u64_def
      result_iff word_greater_zero_iff split: option.splits if_splits)

section \<open>Properties\<close>

text \<open>\<open>percentile_95\<close> is the nearest-rank percentile.  On every non-empty list it returns one of the
  samples; at least 95 of 100 are no longer than it and fewer than 95 of 100 are shorter, so the order
  of the samples does not matter and no index is out of range.\<close>

theorem percentile_95_is_nearest_rank:
  assumes "samples \<noteq> []"
  shows "\<exists>v. percentile_95 samples = Some v \<and> v \<in> set samples
     \<and> 95 * length samples \<le> 100 * length (filter (\<lambda>x. x \<le> v) samples)
     \<and> 100 * length (filter (\<lambda>x. x < v) samples) < 95 * length samples"
  using assms by (rule percentile_95_rank)

lemma percentile_95_is_nearest_rank_witness:
  "\<exists>v. percentile_95 [Duration 2 0, Duration 0 5, Duration 1 7] = Some v \<and> v = Duration 2 0"
proof -
  from percentile_95_is_nearest_rank [of "[Duration 2 0, Duration 0 5, Duration 1 7]"] obtain v where
    "percentile_95 [Duration 2 0, Duration 0 5, Duration 1 7] = Some v"
    "v \<in> set [Duration 2 0, Duration 0 5, Duration 1 7]"
    "95 * length [Duration 2 0, Duration 0 5, Duration 1 7]
       \<le> 100 * length (filter (\<lambda>x. x \<le> v) [Duration 2 0, Duration 0 5, Duration 1 7])" by auto
  then show ?thesis by (auto simp: less_eq_duration_def split: if_splits)
qed

text \<open>C38: The release gates say what they claim.  A run never panics; when it gives a report, each path
  had as many samples as asked for and at least one, the latency gate holds exactly when the tunnel's
  percentile exceeds the direct one, both being observed samples, by at most 10000 whole microseconds
  (as integers, without overflow), and the memory gate is open exactly when no memory was given;
  otherwise it is the quotient of a difference that is not negative and a positive count.\<close>

theorem release_gates_are_exact:
  "bench_run F clock note direct tunnel n memory \<noteq> Inl None
   \<and> (\<forall>rp. bench_run F clock note direct tunnel n memory = Inr rp \<longrightarrow>
        0 < n
      \<and> (\<exists>d t. (\<exists>k < unat n. mp_outcome direct k = Ready (Inr d)) \<and> (\<exists>k < unat n. mp_outcome tunnel k = Ready (Inr t))
          \<and> er_first_byte_p95_us (rp_direct rp) = as_micros (es_first_byte d)
          \<and> er_first_byte_p95_us (rp_tunnel rp) = as_micros (es_first_byte t)
          \<and> (rp_gate_first_byte rp \<longleftrightarrow> micros (es_first_byte t) \<le> micros (es_first_byte d) + 10000))
      \<and> (rp_gate_memory rp = None \<longleftrightarrow> memory = None)
      \<and> (\<forall>baseline active c. memory = Some ((baseline, active), c) \<longrightarrow>
           0 < c \<and> baseline \<le> active
         \<and> rp_gate_memory rp = Some (fl_le F (fl_div F (fl_of_u64 F (active - baseline)) (fl_of_u32 F c)) (fl_1024 F))))"
proof (intro conjI allI impI)
  show "bench_run F clock note direct tunnel n memory \<noteq> Inl None" by (rule bench_run_no_panic)
next
  fix rp
  assume "bench_run F clock note direct tunnel n memory = Inr rp"
  from bench_run_Inr [OF this] obtain ds ts dstream tstream where
    ds: "collect_samples (mp_outcome direct) (unat n) = Inr ds" and
    ts: "collect_samples (mp_outcome tunnel) (unat n) = Inr ts" and
    dr: "endpoint_report F ds dstream = Some (Inr (rp_direct rp))" and
    tr: "endpoint_report F ts tstream = Some (Inr (rp_tunnel rp))" and
    mem: "memory_report F memory = Inr (rp_memory rp)" and
    add: "rp_additional_first_byte_p95_us rp
        = compare_p95_us (er_first_byte_p95_us (rp_direct rp)) (er_first_byte_p95_us (rp_tunnel rp))" and
    gate: "rp_gate_first_byte rp \<longleftrightarrow> sint (rp_additional_first_byte_p95_us rp) \<le> 10000" and
    mgate: "rp_gate_memory rp = map_option (\<lambda>v. fl_le F v (fl_1024 F)) (mr_per_active_connection_kib (rp_memory rp))"
    by blast
  from endpoint_report_Inr [OF dr] ds obtain d where d: "d \<in> set ds" "length ds = unat n" "ds \<noteq> []"
    "er_first_byte_p95_us (rp_direct rp) = as_micros (es_first_byte d)" by (auto simp: collect_samples_Inr)
  from endpoint_report_Inr [OF tr] ts obtain t where t: "t \<in> set ts" "length ts = unat n"
    "er_first_byte_p95_us (rp_tunnel rp) = as_micros (es_first_byte t)" by (auto simp: collect_samples_Inr)
  from d(2,3) show "0 < n" by (auto simp: word_greater_zero_iff)
  have "micros (es_first_byte x) < 2 ^ 127" for x
    using micros_bound [of "es_first_byte x"] by (rule order.strict_trans) simp
  then have "sint (rp_additional_first_byte_p95_us rp) = int (micros (es_first_byte t)) - int (micros (es_first_byte d))"
    unfolding add d t by (subst sint_compare_p95_us) simp_all
  then have "rp_gate_first_byte rp \<longleftrightarrow> micros (es_first_byte t) \<le> micros (es_first_byte d) + 10000"
    unfolding gate by linarith
  moreover have "\<exists>k < unat n. mp_outcome direct k = Ready (Inr d)"
    using ds d(1) by (auto simp: collect_samples_Inr in_set_conv_nth)
  moreover have "\<exists>k < unat n. mp_outcome tunnel k = Ready (Inr t)"
    using ts t(1) by (auto simp: collect_samples_Inr in_set_conv_nth)
  ultimately show "\<exists>d t. (\<exists>k < unat n. mp_outcome direct k = Ready (Inr d)) \<and> (\<exists>k < unat n. mp_outcome tunnel k = Ready (Inr t))
          \<and> er_first_byte_p95_us (rp_direct rp) = as_micros (es_first_byte d)
          \<and> er_first_byte_p95_us (rp_tunnel rp) = as_micros (es_first_byte t)
          \<and> (rp_gate_first_byte rp \<longleftrightarrow> micros (es_first_byte t) \<le> micros (es_first_byte d) + 10000)"
    using d(4) t(3) by blast
  show "rp_gate_memory rp = None \<longleftrightarrow> memory = None"
    using memory_report_Inr [OF mem] by (auto simp: mgate split: option.splits)
  fix baseline active c
  assume "memory = Some ((baseline, active), c)"
  then show "0 < c" and "baseline \<le> active"
    and "rp_gate_memory rp = Some (fl_le F (fl_div F (fl_of_u64 F (active - baseline)) (fl_of_u32 F c)) (fl_1024 F))"
    using memory_report_Inr [OF mem] by (auto simp: mgate)
qed

definition rat_ops :: "rat float_ops" where
  "rat_ops =
     \<lparr>fl_of_u64 = (\<lambda>w. of_nat (unat w)), fl_of_u32 = (\<lambda>w. of_nat (unat w)),
      fl_secs = (\<lambda>d. of_nat (unat (dur_secs d)) + of_nat (unat (dur_nanos d)) / 1000000000),
      fl_div = (/), fl_le = (\<le>), fl_0_90 = 9 / 10, fl_1024 = 1024\<rparr>"

definition sample_path :: "64 word \<Rightarrow> 32 word \<Rightarrow> measured_path" where
  "sample_path secs nanos =
     \<lparr>mp_outcome = (\<lambda>k. Ready (Inr \<lparr>es_connection_setup = Duration 0 0, es_first_byte = Duration 0 nanos\<rparr>)),
      mp_stream = Ready (Inr \<lparr>ss_sent_bytes = 67108864, ss_received_bytes = 67108864, ss_elapsed = Duration secs 0\<rparr>)\<rparr>"

text \<open>One sample of 4 ms on the direct path and one of 15 ms through the tunnel: the gate is closed.\<close>

lemma release_gates_are_exact_witness:
  "\<exists>rp. bench_run rat_ops (Some 1) [65] (sample_path 1 4000000) (sample_path 1 15000000) 1 (Some ((2048, 4096), 4)) = Inr rp
     \<and> \<not> rp_gate_first_byte rp \<and> rp_gate_memory rp = Some True"
proof -
  let ?run = "bench_run rat_ops (Some 1) [65] (sample_path 1 4000000) (sample_path 1 15000000) 1 (Some ((2048, 4096), 4))"
  have "\<exists>rp. ?run = Inr rp"
    by (simp add: bench_run_def sample_path_def timed_def endpoint_report_def percentile_95_def div_ceil_def
        bidirectional_throughput_bytes_per_second_def checked_add_u64_def throughput_bytes_per_second_def
        is_zero_def or_panic_def memory_report_def memory_per_active_connection_kib_def checked_sub_u64_def Let_def)
  then obtain rp where rp: "?run = Inr rp" by blast
  from release_gates_are_exact [THEN conjunct2, rule_format, OF rp] obtain d t where
    "mp_outcome (sample_path 1 4000000) 0 = Ready (Inr d)" "mp_outcome (sample_path 1 15000000) 0 = Ready (Inr t)"
    "rp_gate_first_byte rp \<longleftrightarrow> micros (es_first_byte t) \<le> micros (es_first_byte d) + 10000"
    "rp_gate_memory rp = Some (fl_le rat_ops (fl_div rat_ops (fl_of_u64 rat_ops (4096 - 2048)) (fl_of_u32 rat_ops 4)) (fl_1024 rat_ops))"
    by auto
  then show ?thesis using rp by (auto simp: sample_path_def micros_def rat_ops_def)
qed

end
