(* ===== verification/Memory_Sample.thy ===== *)
theory Memory_Sample
  imports Key_Files
begin

text \<open>
  \<open>rss_kib\<close> of the benchmark command (\<open>bench/src/main.rs\<close>): the resident memory of a process, read
  from \<open>/proc/<pid>/status\<close> on Linux and from \<open>ps\<close> on macOS, and the string functions of the
  standard library it is made of (\<open>lines\<close>, \<open>split_whitespace\<close>, \<open>starts_with\<close>, \<open>u64::from_str\<close>).
  The output of \<open>ps\<close> is an argument.
\<close>

section \<open>Strings\<close>

definition utext_of :: "string \<Rightarrow> utext" where
  "utext_of s = map of_char s"

text \<open>A line ends with a line feed, and with the carriage return before it; what follows the last line
  feed is a line unless it is empty.\<close>

definition strip_cr :: "utext \<Rightarrow> utext" where
  "strip_cr l = (if l \<noteq> [] \<and> last l = 13 then butlast l else l)"

function str_lines :: "utext \<Rightarrow> utext list" where
  "str_lines s =
     (if s = [] then []
      else case dropWhile (\<lambda>c. c \<noteq> 10) s of
        [] \<Rightarrow> [s]
      | _ # rest \<Rightarrow> strip_cr (takeWhile (\<lambda>c. c \<noteq> 10) s) # str_lines rest)"
  by pat_completeness auto
termination
proof (relation "measure length")
  fix s rest :: utext and c
  assume "dropWhile (\<lambda>c. c \<noteq> 10) s = c # rest"
  then have "length (c # rest) \<le> length s" by (metis length_dropWhile_le)
  then show "(rest, s) \<in> measure length" by simp
qed simp

declare str_lines.simps [simp del]

function split_whitespace :: "utext \<Rightarrow> utext list" where
  "split_whitespace s =
     (let t = trim_start s in
      if t = [] then []
      else takeWhile (\<lambda>c. \<not> white_space c) t # split_whitespace (dropWhile (\<lambda>c. \<not> white_space c) t))"
  by pat_completeness auto
termination
proof (relation "measure length")
  fix s t :: utext
  assume t: "t = trim_start s" and "t \<noteq> []"
  then have "\<not> white_space (hd t)" unfolding trim_start_def by (metis hd_dropWhile)
  with \<open>t \<noteq> []\<close> have "length (dropWhile (\<lambda>c. \<not> white_space c) t) < length t"
    by (cases t) (simp_all add: length_dropWhile_le less_Suc_eq_le)
  moreover have "length t \<le> length s" unfolding t trim_start_def by (rule length_dropWhile_le)
  ultimately show "(dropWhile (\<lambda>c. \<not> white_space c) t, s) \<in> measure length" by simp
qed simp

declare split_whitespace.simps [simp del]

definition starts_with :: "utext \<Rightarrow> utext \<Rightarrow> bool" where
  "starts_with s pat \<longleftrightarrow> prefix pat s"

text \<open>\<open>u64::from_str\<close>: an optional plus sign and decimal digits; a digit is checked before the
  multiplication that may overflow.\<close>

datatype int_error = IntEmpty | InvalidDigit | PosOverflow

definition to_digit :: "nat \<Rightarrow> nat option" where
  "to_digit c = (if 48 \<le> c \<and> c \<le> 57 then Some (c - 48) else None)"

fun parse_digits :: "nat \<Rightarrow> utext \<Rightarrow> int_error + 64 word" where
  "parse_digits acc [] = Inr (of_nat acc)"
| "parse_digits acc (c # cs) =
     (case to_digit c of
        None \<Rightarrow> Inl InvalidDigit
      | Some d \<Rightarrow> if 2 ^ 64 \<le> acc * 10 \<or> 2 ^ 64 \<le> acc * 10 + d then Inl PosOverflow
                 else parse_digits (acc * 10 + d) cs)"

definition parse_u64 :: "utext \<Rightarrow> int_error + 64 word" where
  "parse_u64 s =
     (case s of
        [] \<Rightarrow> Inl IntEmpty
      | [c] \<Rightarrow> parse_digits 0 [c]
      | c # cs \<Rightarrow> parse_digits 0 (if c = 43 then cs else s))"

section \<open>The resident memory of a process\<close>

datatype rss_error =
    RssRead path
  | RssUnavailable
  | RssMalformed
  | RssInvalid int_error
  | PsNotRun
  | PsFailed "32 word"
  | PsNotUtf8

definition status_path :: "32 word \<Rightarrow> path" where
  "status_path pid = path_components (''/proc/'' @ show_nat (unat pid) @ ''/status'')"

definition nth_word :: "nat \<Rightarrow> utext \<Rightarrow> utext option" where
  "nth_word n line = (let ws = split_whitespace line in if n < length ws then Some (ws ! n) else None)"

definition rss_kib :: "fs \<Rightarrow> 32 word \<Rightarrow> rss_error + 64 word" where
  "rss_kib fs pid =
     rbind (ok_or (read_to_string fs (status_path pid)) (RssRead (status_path pid))) (\<lambda>status.
     rbind (ok_or (List.find (\<lambda>line. starts_with line (utext_of ''VmRSS:'')) (str_lines status)) RssUnavailable)
       (\<lambda>line.
     rbind (ok_or (nth_word 1 line) RssMalformed) (\<lambda>word.
       map_err RssInvalid (parse_u64 word))))"

text \<open>The answer of \<open>ps -o rss= -p <pid>\<close>: its exit status and its output (\<open>None\<close> when that is not UTF-8).\<close>

definition rss_kib_macos :: "(32 word \<Rightarrow> (bool \<times> utext option) option) \<Rightarrow> 32 word \<Rightarrow> rss_error + 64 word" where
  "rss_kib_macos ps pid =
     rbind (ok_or (ps pid) PsNotRun) (\<lambda>(success, stdout).
       if \<not> success then Inl (PsFailed pid)
       else rbind (ok_or stdout PsNotUtf8) (\<lambda>text.
         map_err RssInvalid (parse_u64 (trim text))))"

section \<open>Decimal numbers\<close>

definition decimal :: "nat \<Rightarrow> utext" where
  "decimal n = utext_of (show_nat n)"

lemma decimal_unfold:
  "decimal n = (if n < 10 then [48 + n] else decimal (n div 10) @ [48 + n mod 10])"
proof -
  have "list_all (\<lambda>k. utext_of [''0123456789'' ! k] = [48 + k]) [0..<10]"
    by (simp add: upt_rec utext_of_def)
  then have d: "utext_of [''0123456789'' ! k] = [48 + k]" if "k < 10" for k
    using that by (simp add: list_all_iff)
  show ?thesis
  proof (cases "n < 10")
    case True
    then show ?thesis by (simp add: decimal_def show_nat.simps [of n] d)
  next
    case False
    have "n mod 10 < 10" by simp
    from d [OF this] False show ?thesis
      by (simp add: decimal_def show_nat.simps [of n] utext_of_def)
  qed
qed

lemma decimal_digits: "c \<in> set (decimal n) \<Longrightarrow> 48 \<le> c \<and> c \<le> 57"
proof (induction n rule: less_induct)
  case (less n)
  then show ?case
    by (cases "n < 10") (auto simp: decimal_unfold [of n] less.IH [of "n div 10"])
qed

lemma decimal_nonempty [simp]: "decimal n \<noteq> []"
  by (simp add: decimal_unfold [of n])

lemma parse_digits_append:
  "parse_digits acc (s @ t) =
     (case parse_digits acc s of Inl e \<Rightarrow> Inl e | Inr v \<Rightarrow> parse_digits (unat v) t)"
  if "acc < 2 ^ 64"
  using that
proof (induction acc s rule: parse_digits.induct)
  case (1 acc)
  then show ?case by (simp add: unat_of_nat)
next
  case (2 acc c cs)
  then show ?case by (simp split: option.splits)
qed

lemma parse_digits_decimal:
  "parse_digits 0 (decimal n) = (if n < 2 ^ 64 then Inr (of_nat n) else Inl PosOverflow)"
proof (induction n rule: less_induct)
  case (less n)
  show ?case
  proof (cases "n < 10")
    case True
    then show ?thesis by (simp add: decimal_unfold [of n] to_digit_def)
  next
    case False
    then have IH: "parse_digits 0 (decimal (n div 10))
        = (if n div 10 < 2 ^ 64 then Inr (of_nat (n div 10)) else Inl PosOverflow)"
      by (intro less.IH) simp
    have digit: "to_digit (48 + n mod 10) = Some (n mod 10)"
      using mod_less_divisor [of 10 n] by (simp add: to_digit_def)
    have n: "n div 10 * 10 + n mod 10 = n" by simp
    show ?thesis
    proof (cases "n div 10 < 2 ^ 64")
      case True
      then have "parse_digits 0 (decimal n) = parse_digits (n div 10) [48 + n mod 10]"
        using False IH by (simp add: decimal_unfold [of n] parse_digits_append unat_of_nat)
      also have "\<dots> = (if 2 ^ 64 \<le> n div 10 * 10 \<or> 2 ^ 64 \<le> n div 10 * 10 + n mod 10 then Inl PosOverflow
          else Inr (of_nat (n div 10 * 10 + n mod 10)))"
        by (simp only: parse_digits.simps digit option.case)
      finally show ?thesis unfolding n using n by auto
    next
      case high: False
      then have "\<not> n < 2 ^ 64" by (meson div_le_dividend leD le_less_trans not_less)
      then show ?thesis using False IH high by (simp add: decimal_unfold [of n] parse_digits_append)
    qed
  qed
qed

lemma parse_u64_decimal:
  "parse_u64 (decimal n) = (if n < 2 ^ 64 then Inr (of_nat n) else Inl PosOverflow)"
proof -
  obtain c cs where d: "decimal n = c # cs" by (metis decimal_nonempty list.exhaust)
  then have "c \<noteq> 43" using decimal_digits [of c n] by auto
  with d have "parse_u64 (decimal n) = parse_digits 0 (decimal n)"
    by (cases cs) (simp_all add: parse_u64_def)
  then show ?thesis by (simp add: parse_digits_decimal)
qed

section \<open>Lines and words\<close>

lemma str_lines_line: "10 \<notin> set l \<Longrightarrow> str_lines (l @ 10 # rest) = strip_cr l # str_lines rest"
proof -
  assume "10 \<notin> set l"
  then have "dropWhile (\<lambda>c. c \<noteq> 10) (l @ 10 # rest) = 10 # rest" "takeWhile (\<lambda>c. c \<noteq> 10) (l @ 10 # rest) = l"
    by (induction l) auto
  then show ?thesis by (subst str_lines.simps) simp
qed

lemma str_lines_lines:
  "list_all (\<lambda>l. 10 \<notin> set l) ls \<Longrightarrow>
     str_lines (concat (map (\<lambda>l. l @ [10]) ls) @ rest) = map strip_cr ls @ str_lines rest"
  by (induction ls) (simp_all add: str_lines_line)

lemma starts_with_strip_cr: "starts_with (strip_cr l) pat \<Longrightarrow> starts_with l pat"
  using prefix_order.trans [OF _ prefixeq_butlast] by (auto simp: starts_with_def strip_cr_def split: if_splits)

lemma split_whitespace_word:
  assumes "list_all white_space pre" and "w \<noteq> []" and "list_all (\<lambda>c. \<not> white_space c) w"
    and "rest = [] \<or> white_space (hd rest)"
  shows "split_whitespace (pre @ w @ rest) = w # split_whitespace rest"
proof -
  have "trim_start (pre @ w @ rest) = w @ rest"
    using assms(1-3) by (cases w) (simp_all add: trim_start_def list_all_iff)
  moreover have "takeWhile (\<lambda>c. \<not> white_space c) (w @ rest) = w"
    and "dropWhile (\<lambda>c. \<not> white_space c) (w @ rest) = rest"
    using assms(3,4) by (auto simp: list_all_iff takeWhile_append2 dropWhile_append2 hd_conv_nth
        takeWhile_eq_Nil_iff dropWhile_eq_self_iff)
  ultimately show ?thesis using assms(2) by (subst split_whitespace.simps) (simp add: Let_def)
qed

lemma find_append:
  "list_all (\<lambda>x. \<not> P x) xs \<Longrightarrow> List.find P (xs @ ys) = List.find P ys"
  by (induction xs) auto

section \<open>Properties\<close>

text \<open>\<open>rss_kib\<close> reads back what the kernel prints.  In a status file whose line \<open>VmRSS:\<close> gives the
  number \<open>n\<close> after blanks and before the unit, wherever that line stands, the result is \<open>n\<close>, and
  an overflow error (not a wrapped value) when \<open>n\<close> does not fit in 64 bits.\<close>

theorem rss_kib_reads_status:
  assumes "read_to_string fs (status_path pid) = Some (concat (map (\<lambda>l. l @ [10]) before)
       @ (utext_of ''VmRSS:'' @ blanks @ decimal n @ utext_of '' kB'') @ 10 # after)"
    and "list_all (\<lambda>l. 10 \<notin> set l \<and> \<not> starts_with l (utext_of ''VmRSS:'')) before"
    and "blanks \<noteq> []" and "list_all (\<lambda>c. c = 32 \<or> c = 9) blanks"
  shows "rss_kib fs pid = (if n < 2 ^ 64 then Inr (of_nat n) else Inl (RssInvalid PosOverflow))"
proof -
  let ?line = "utext_of ''VmRSS:'' @ blanks @ decimal n @ utext_of '' kB''"
  let ?is = "\<lambda>line. starts_with line (utext_of ''VmRSS:'')"
  have "10 \<notin> set ?line"
    using assms(4) decimal_digits [of 10 n] by (auto simp: utext_of_def list_all_iff)
  moreover have "strip_cr ?line = ?line" by (simp add: strip_cr_def utext_of_def)
  moreover have "list_all (\<lambda>l. 10 \<notin> set l) before" using assms(2) by (simp add: list_all_iff)
  ultimately have "str_lines (concat (map (\<lambda>l. l @ [10]) before) @ ?line @ 10 # after)
      = map strip_cr before @ ?line # str_lines after"
    by (simp add: str_lines_lines str_lines_line del: append_assoc)
  moreover have "list_all (\<lambda>l. \<not> ?is l) (map strip_cr before)"
    using assms(2) starts_with_strip_cr by (auto simp: list_all_iff)
  ultimately have found: "List.find ?is (str_lines (concat (map (\<lambda>l. l @ [10]) before) @ ?line @ 10 # after)) = Some ?line"
    by (simp add: find_append) (simp add: starts_with_def)
  have blank: "list_all white_space blanks" using assms(4) by (auto simp: list_all_iff white_space_def)
  have unit: "white_space (hd (utext_of '' kB''))" by (simp add: utext_of_def white_space_def)
  have digits: "list_all (\<lambda>c. \<not> white_space c) (decimal n)"
    using decimal_digits [of _ n] by (fastforce simp: list_all_iff white_space_def)
  have "white_space (hd (blanks @ decimal n @ utext_of '' kB''))"
    using assms(3,4) by (cases blanks) (auto simp: white_space_def)
  moreover have "list_all (\<lambda>c. \<not> white_space c) (utext_of ''VmRSS:'')"
    by (simp add: utext_of_def white_space_def)
  ultimately have w1: "split_whitespace ?line = utext_of ''VmRSS:'' # split_whitespace (blanks @ decimal n @ utext_of '' kB'')"
    using split_whitespace_word [of "[]" "utext_of ''VmRSS:''"] by (simp add: utext_of_def)
  have "split_whitespace (blanks @ decimal n @ utext_of '' kB'') = decimal n # split_whitespace (utext_of '' kB'')"
    by (rule split_whitespace_word [OF blank _ digits]) (simp_all add: unit)
  with w1 have "nth_word 1 ?line = Some (decimal n)" by (simp add: nth_word_def)
  then show ?thesis
    unfolding rss_kib_def assms(1) ok_or_simps rbind_simps found by (simp add: parse_u64_decimal)
qed

lemma rss_kib_reads_status_witness:
  "rss_kib [status_path 7 \<mapsto> FileNode 0x124
     (utext_of ''Name: a'' @ [10] @ utext_of ''VmRSS:'' @ [9, 32] @ utext_of ''1234 kB'' @ [10])] 7 = Inr 1234"
proof -
  have place: "place (status_path 7) = status_path 7"
    by (simp add: place_def status_path_def path_components_def to_component_def show_nat.simps)
  have dec: "decimal 1234 = utext_of ''1234''"
    by (simp add: decimal_unfold utext_of_def)
  let ?fs = "[status_path 7 \<mapsto> FileNode 0x124
     (utext_of ''Name: a'' @ [10] @ utext_of ''VmRSS:'' @ [9, 32] @ utext_of ''1234 kB'' @ [10])]"
  have "read_to_string ?fs (status_path 7) = Some (concat (map (\<lambda>l. l @ [10]) [utext_of ''Name: a''])
       @ (utext_of ''VmRSS:'' @ [9, 32] @ decimal 1234 @ utext_of '' kB'') @ 10 # [])"
    by (subst read_file [where m = "0x124"]) (simp_all add: place dec utext_of_def)
  from rss_kib_reads_status [OF this] show ?thesis
    by (simp add: utext_of_def starts_with_def)
qed

end
