(* ===== verification/Benchmark_Main.thy ===== *)
theory Benchmark_Main
  imports Benchmark_Report Memory_Sample
begin

text \<open>
  The benchmark program around its parts: the responder's accept loop (\<open>serve\<close> of
  \<open>bench/src/lib.rs\<close>) and the three commands of \<open>bench/src/main.rs\<close>.

  The listener's answers are a list: an accepted connection or the error \<open>accept\<close> returns; the loop
  waits when the list is empty.  The parser of the command line is generated by \<open>clap\<close> from the
  attributes in the source; \<open>run_arguments_ok\<close> is what those attributes let through.
\<close>

section \<open>The accept loop\<close>

text \<open>Every accepted connection is served by a task of its own, so the loop never sees how it ends.\<close>

fun bench_serve :: "('c \<Rightarrow> 'r) \<Rightarrow> (io_error + 'p \<times> 'c) list \<Rightarrow> ('p \<times> 'r) list \<times> (bench_error + unit) poll" where
  "bench_serve task [] = ([], Pending)"
| "bench_serve task (Inl e # incoming) = ([], Ready (Inl (BenchIo e)))"
| "bench_serve task (Inr (peer, stream) # incoming) =
     apfst (\<lambda>served. (peer, task stream) # served) (bench_serve task incoming)"

text \<open>The lines on standard error: one for every connection whose task has ended with an error.\<close>

definition failed_peers :: "('p \<times> (bench_error + unit) poll \<times> 'c) list \<Rightarrow> ('p \<times> bench_error) list" where
  "failed_peers served = List.map_filter (\<lambda>(peer, result, _). case result of Ready (Inl e) \<Rightarrow> Some (peer, e) | _ \<Rightarrow> None) served"

lemma bench_serve_served:
  "fst (bench_serve task incoming) = map (map_prod id task) (map projr (takeWhile (\<lambda>x. \<not> isl x) incoming))"
  by (induction task incoming rule: bench_serve.induct) (auto simp: fst_apfst)

lemma bench_serve_result:
  "snd (bench_serve task incoming)
     = (case dropWhile (\<lambda>x. \<not> isl x) incoming of Inl e # _ \<Rightarrow> Ready (Inl (BenchIo e)) | _ \<Rightarrow> Pending)"
  by (induction task incoming rule: bench_serve.induct) (auto simp: snd_apfst)

text \<open>Adding a connection to a responder changes nothing for the connections before and after it.\<close>

lemma bench_serve_isolates:
  assumes "\<forall>x \<in> set before. \<not> isl x"
  shows "fst (bench_serve task (before @ Inr (peer, stream) # after))
      = fst (bench_serve task before) @ (peer, task stream) # fst (bench_serve task after)"
    and "snd (bench_serve task (before @ Inr (peer, stream) # after)) = snd (bench_serve task (before @ after))"
proof -
  have t: "takeWhile (\<lambda>x. \<not> isl x) before = before" using assms by (simp add: takeWhile_eq_all_conv)
  show "fst (bench_serve task (before @ Inr (peer, stream) # after))
      = fst (bench_serve task before) @ (peer, task stream) # fst (bench_serve task after)"
    using assms by (simp add: bench_serve_served t)
  show "snd (bench_serve task (before @ Inr (peer, stream) # after)) = snd (bench_serve task (before @ after))"
    using assms by (simp add: bench_serve_result)
qed

section \<open>The commands\<close>

record run_arguments =
  ra_direct :: socket_addr
  ra_tunnel :: socket_addr
  ra_samples :: "16 word"
  ra_timeout_seconds :: "64 word"
  ra_output :: path
  ra_hardware_note :: utext
  ra_memory_baseline_rss_kib :: "64 word option"
  ra_memory_active_rss_kib :: "64 word option"
  ra_memory_active_connections :: "32 word option"

datatype bench_command = BenchServe socket_addr | BenchRun run_arguments | BenchRss "32 word"

text \<open>\<open>value_parser\<close> and \<open>requires_all\<close>: at least one sample, at least one connection, and the three
  memory figures together or not at all.\<close>

definition run_arguments_ok :: "run_arguments \<Rightarrow> bool" where
  "run_arguments_ok a \<longleftrightarrow>
     1 \<le> ra_samples a
   \<and> (case ra_memory_active_connections a of None \<Rightarrow> True | Some n \<Rightarrow> 1 \<le> n)
   \<and> (ra_memory_baseline_rss_kib a \<noteq> None \<longleftrightarrow> ra_memory_active_connections a \<noteq> None)
   \<and> (ra_memory_active_rss_kib a \<noteq> None \<longleftrightarrow> ra_memory_active_connections a \<noteq> None)"

datatype 'p bench_line =
    ListeningOn socket_addr
  | PeerFailed 'p bench_error
  | EvidenceWritten path
  | ResidentKib "64 word"

datatype bench_main_error =
    BindFailed io_error
  | ServeFailed bench_error
  | CommandFailed command_error
  | RssFailed rss_error

text \<open>\<open>bind\<close> is the listener's socket and address, or the error; \<open>measured endpoint
  timeout\<close> is what the measurements of a path answer.\<close>

definition bench_main ::
    "'f float_ops \<Rightarrow> ('f bench_report \<Rightarrow> utext option) \<Rightarrow> os \<Rightarrow> fs \<Rightarrow> 64 word option
       \<Rightarrow> (socket_addr \<Rightarrow> io_error + (io_error + socket_addr) \<times> (io_error + 'p \<times> 'c) list) \<Rightarrow> ('c \<Rightarrow> (bench_error + unit) poll \<times> 'd)
       \<Rightarrow> (socket_addr \<Rightarrow> 64 word \<Rightarrow> measured_path) \<Rightarrow> bench_command
       \<Rightarrow> fs \<times> (bench_main_error + unit) poll \<times> 'p bench_line list" where
  "bench_main F encode os fs clock bind task measured command =
     (case command of
        BenchServe listen \<Rightarrow>
          (case bind listen of
             Inl e \<Rightarrow> (fs, Ready (Inl (BindFailed e)), [])
           | Inr (Inl e, _) \<Rightarrow> (fs, Ready (Inl (BindFailed e)), [])
           | Inr (Inr local_addr, incoming) \<Rightarrow>
               (case bench_serve task incoming of
                  (served, result) \<Rightarrow> (fs, map_poll (map_err ServeFailed) result,
                     ListeningOn local_addr # map (case_prod PeerFailed) (failed_peers served))))
      | BenchRun a \<Rightarrow>
          (case run_command F encode os fs clock (ra_hardware_note a)
              (measured (ra_direct a) (ra_timeout_seconds a)) (measured (ra_tunnel a) (ra_timeout_seconds a))
              (ra_samples a) (ra_memory_baseline_rss_kib a) (ra_memory_active_rss_kib a)
              (ra_memory_active_connections a) (ra_output a) of
             (fs', Inl e) \<Rightarrow> (fs', Ready (Inl (CommandFailed e)), [])
           | (fs', Inr _) \<Rightarrow> (fs', Ready (Inr ()), [EvidenceWritten (ra_output a)]))
      | BenchRss pid \<Rightarrow>
          (case rss_kib fs pid of
             Inl e \<Rightarrow> (fs, Ready (Inl (RssFailed e)), [])
           | Inr kib \<Rightarrow> (fs, Ready (Inr ()), [ResidentKib kib])))"

text \<open>No command of the benchmark program changes a file that exists, and the program says that evidence was
  written exactly when the file holds the encoded report.\<close>

lemma run_command_keeps:
  assumes "fs q = Some n"
  shows "fst (run_command F encode os fs clock note direct tunnel samples b a k out_path) q = Some n"
  using assms by (simp add: run_command_def write_new_json_keeps split: sum.split)

lemma bench_main_keeps:
  assumes "fs q = Some n"
  shows "fst (bench_main F encode os fs clock bind task measured command) q = Some n"
proof (cases command)
  case (BenchRun a)
  let ?r = "run_command F encode os fs clock (ra_hardware_note a)
      (measured (ra_direct a) (ra_timeout_seconds a)) (measured (ra_tunnel a) (ra_timeout_seconds a))
      (ra_samples a) (ra_memory_baseline_rss_kib a) (ra_memory_active_rss_kib a)
      (ra_memory_active_connections a) (ra_output a)"
  have "fst ?r q = Some n" by (rule run_command_keeps [where fs = fs and q = q, OF assms])
  moreover have "fst (bench_main F encode os fs clock bind task measured command) = fst ?r"
    using BenchRun by (simp add: bench_main_def split: prod.split sum.split)
  ultimately show ?thesis by simp
qed (auto simp: bench_main_def assms split: sum.split prod.split)

text \<open>Arguments that \<open>clap\<close> lets through never meet the two errors about missing counts.\<close>

lemma memory_arguments_ok:
  assumes "run_arguments_ok a"
  shows "memory_report F (zip_option (zip_option (ra_memory_baseline_rss_kib a) (ra_memory_active_rss_kib a))
      (ra_memory_active_connections a)) \<noteq> Inl ZeroConnections"
  using assms
  by (auto simp: memory_report_def run_arguments_ok_def zip_option_def memory_per_active_connection_kib_def
      ok_or_def split: option.splits)

end
