(* ===== verification/Library_Tests.thy ===== *)
theory Library_Tests
  imports Session_Traces "HOL-Library.Monad_Syntax"
begin

text \<open>
  The unit tests of \<open>secure-tunnel/src/lib.rs\<close> (\<open>mod tests\<close>), written over the model: a test is an
  optional value, \<open>None\<close> when an \<open>expect\<close> or an assertion panics.  The pairs that the tests draw
  with \<open>static_keypair\<close> are arguments, so that a theorem is about every run of a test and not
  about one choice of keys.

  The theorems say that the tests pass with every Noise library that keeps its promise; they tie the
  model to what the authors expect of the code.
\<close>

section \<open>Assertions\<close>

definition expect :: "'e + 'a \<Rightarrow> 'a option" where
  "expect r = (case r of Inl e \<Rightarrow> None | Inr x \<Rightarrow> Some x)"

definition assert :: "bool \<Rightarrow> unit option" where
  "assert b = (if b then Some () else None)"

definition is_noise_error :: "'e tunnel_error + 'a \<Rightarrow> bool" where
  "is_noise_error r = (case r of Inl (Noise e) \<Rightarrow> True | _ \<Rightarrow> False)"

lemma expect_simps [simp]: "expect (Inl e) = None" "expect (Inr x) = Some x"
  by (simp_all add: expect_def)

lemma assert_simps [simp]: "assert True = Some ()" "assert False = None"
  by (simp_all add: assert_def)

lemma assert_Some [simp]: "assert b = Some () \<longleftrightarrow> b"
  by (simp add: assert_def)

lemma is_noise_error_simps [simp]:
  "is_noise_error (Inl (Noise e))" "\<not> is_noise_error (Inr x)"
  by (simp_all add: is_noise_error_def)

section \<open>Codecs\<close>

definition preface_round_trips_and_rejects_incompatible_versions :: "unit option" where
  "preface_round_trips_and_rejects_incompatible_versions = do {
     assert (preface_encode V1 = [0x43, 0x44, 0x58, 0x54, 1, 0]);
     p \<leftarrow> expect (preface_parse [0x43, 0x44, 0x58, 0x54, 1, 0] :: unit tunnel_error + preface);
     assert (p = V1);
     assert (preface_parse [0x43, 0x44, 0x58, 0x54, 2, 0]
       = (Inl (UnsupportedVersion 2 0) :: unit tunnel_error + preface));
     assert (preface_parse [0x6e, 0x6f, 0x70, 0x65] = (Inl InvalidPreface :: unit tunnel_error + preface))
   }"

definition handshake_frame_rejects_declared_oversize_before_allocation :: "unit option" where
  "handshake_frame_rejects_declared_oversize_before_allocation = do {
     assert (decode_handshake_frame [0x10, 0x01]
       = (Inl (HandshakeMessageTooLarge 4097) :: unit tunnel_error + bytes));
     assert (encode_handshake_frame (replicate (MAX_HANDSHAKE_MESSAGE + 1) 0)
       = (Inl (HandshakeMessageTooLarge 4097) :: unit tunnel_error + bytes))
   }"

definition record_parser_rejects_truncation_and_trailing_bytes :: "unit option" where
  "record_parser_rejects_truncation_and_trailing_bytes = do {
     assert (decode_record_frame [0, 0, 0, 16] = (Inl (TruncatedFrame 20 4) :: unit tunnel_error + bytes));
     assert (decode_record_frame [0, 0, 0, 1, 7, 8] = (Inl TrailingFrameBytes :: unit tunnel_error + bytes))
   }"

definition server_static_key_overlap_is_non_empty_and_bounded :: "bytes \<Rightarrow> unit option" where
  "server_static_key_overlap_is_non_empty_and_bounded client_public = do {
     assert (new_with_static_identities [] [client_public]
       = (Inl MissingServerStaticIdentity :: unit tunnel_error + server_handshake));
     assert (new_with_static_identities (replicate (MAX_SERVER_STATIC_IDENTITIES + 1) (replicate 32 7)) [client_public]
       = (Inl (TooManyServerStaticIdentities (MAX_SERVER_STATIC_IDENTITIES + 1)) :: unit tunnel_error + server_handshake))
   }"

section \<open>Handshakes\<close>

text \<open>The common part of the handshake tests: both sides up to the server's verdict on the first message.\<close>

definition server_hears ::
    "('p, 'b, 'h, 't, 'e) noise_lib \<Rightarrow> bytes \<Rightarrow> bytes \<Rightarrow> bytes list \<Rightarrow> bytes list
       \<Rightarrow> ('h client_handshake \<times> bytes \<times> server_handshake \<times> ('e tunnel_error + 'h server_reply)) option" where
  "server_hears api client_private pinned_server server_privates clients = do {
     client \<leftarrow> expect (client_handshake_new api client_private pinned_server);
     server \<leftarrow> expect (new_with_static_identities server_privates clients :: 'e tunnel_error + server_handshake);
     let (server, accepted) = accept_preface server (preface_encode V1);
     expect (accepted :: 'e tunnel_error + unit);
     let (client, first) = first_message api client;
     first \<leftarrow> expect first;
     let (server, verdict) = receive_client api server first;
     verdict \<leftarrow> verdict;
     Some (client, first, server, verdict)
   }"

definition complete_handshake ::
    "('p, 'b, 'h, 't, 'e) noise_lib \<Rightarrow> bytes \<Rightarrow> bytes \<Rightarrow> bytes \<Rightarrow> bytes \<Rightarrow> ('t cipher_cell \<times> 't cipher_cell) option" where
  "complete_handshake api client_private client_public server_private server_public = do {
     (client, first, server, verdict) \<leftarrow> server_hears api client_private server_public [server_private] [client_public];
     reply \<leftarrow> expect verdict;
     let (reply, second) = reply_message api reply;
     second \<leftarrow> expect second;
     let (client, client_transport) = client_finish api client second;
     client_transport \<leftarrow> expect client_transport;
     server_transport \<leftarrow> expect (into_session api reply);
     Some (client_transport, server_transport)
   }"

definition ik_handshake_pins_server_and_authorises_client ::
    "('p, 'b, 'h, 't, 'e) noise_lib \<Rightarrow> bytes \<times> bytes \<Rightarrow> bytes \<times> bytes \<Rightarrow> bytes \<Rightarrow> unit option" where
  "ik_handshake_pins_server_and_authorises_client api client server opaque = do {
     (client_transport, server_transport) \<leftarrow> complete_handshake api (fst client) (snd client) (fst server) (snd server);
     let (client_transport, sealed) = seal_record api client_transport opaque;
     sealed \<leftarrow> expect sealed;
     opened \<leftarrow> expect (snd (open_record api server_transport sealed));
     assert (opened = opaque)
   }"

definition wrong_server_key_and_unknown_client_fail_closed ::
    "('p, 'b, 'h, 't, 'e) noise_lib \<Rightarrow> bytes \<times> bytes \<Rightarrow> bytes \<times> bytes \<Rightarrow> bytes \<times> bytes \<Rightarrow> bytes \<times> bytes \<Rightarrow> unit option" where
  "wrong_server_key_and_unknown_client_fail_closed api client server wrong other = do {
     (_, first, s, verdict) \<leftarrow> server_hears api (fst client) (snd wrong) [fst server] [snd client];
     assert (is_noise_error verdict);
     again \<leftarrow> snd (receive_client api s first);
     assert (case again of Inl ClosedSession \<Rightarrow> True | _ \<Rightarrow> False);
     (_, _, _, verdict) \<leftarrow> server_hears api (fst client) (snd server) [fst server] [snd other];
     assert (case verdict of Inl UnauthorisedClient \<Rightarrow> True | _ \<Rightarrow> False)
   }"

text \<open>One turn of the loop over the two pinned keys, and the whole test.\<close>

definition overlap_accepts ::
    "('p, 'b, 'h, 't, 'e) noise_lib \<Rightarrow> bytes \<times> bytes \<Rightarrow> bytes list \<Rightarrow> bytes \<Rightarrow> unit option" where
  "overlap_accepts api client privates pinned_server = do {
     (c, _, _, verdict) \<leftarrow> server_hears api (fst client) pinned_server privates [snd client];
     reply \<leftarrow> expect verdict;
     let (reply, second) = reply_message api reply;
     second \<leftarrow> expect second;
     expect (snd (client_finish api c second));
     expect (into_session api reply);
     Some ()
   }"

definition server_static_key_overlap_accepts_current_and_rotated_keys_only ::
    "('p, 'b, 'h, 't, 'e) noise_lib \<Rightarrow> bytes \<times> bytes \<Rightarrow> bytes \<times> bytes \<Rightarrow> bytes \<times> bytes \<Rightarrow> bytes \<Rightarrow> unit option" where
  "server_static_key_overlap_accepts_current_and_rotated_keys_only api client current rotated unknown_public = do {
     overlap_accepts api client [fst current, fst rotated] (snd current);
     overlap_accepts api client [fst current, fst rotated] (snd rotated);
     (_, _, _, verdict) \<leftarrow> server_hears api (fst client) unknown_public [fst current, fst rotated] [snd client];
     assert (is_noise_error verdict)
   }"

section \<open>Records\<close>

definition tamper :: "bytes \<Rightarrow> bytes" where
  "tamper f = butlast f @ [last f XOR 1]"

definition records_enforce_wire_limits_and_reject_tampering ::
    "('p, 'b, 'h, 't, 'e) noise_lib \<Rightarrow> bytes \<times> bytes \<Rightarrow> bytes \<times> bytes \<Rightarrow> bytes \<Rightarrow> bytes \<Rightarrow> unit option" where
  "records_enforce_wire_limits_and_reject_tampering api client server text later_text = do {
     (client_transport, server_transport) \<leftarrow> complete_handshake api (fst client) (snd client) (fst server) (snd server);
     let (client_transport, r) = seal_record api client_transport (replicate (MAX_PLAINTEXT_RECORD + 1) 0);
     assert (case r of Inl (PlaintextTooLarge n) \<Rightarrow> n = 16385 | _ \<Rightarrow> False);
     let (server_transport, r) = open_record api server_transport [0, 0, 0x40, 0x11];
     assert (case r of Inl (CiphertextTooLarge n) \<Rightarrow> n = 16401 | _ \<Rightarrow> False);
     let (client_transport, frame) = seal_record api client_transport text;
     frame \<leftarrow> expect frame;
     let (server_transport, r) = open_record api server_transport (tamper frame);
     assert (is_noise_error r);
     let (client_transport, later) = seal_record api client_transport later_text;
     later \<leftarrow> expect later;
     let (server_transport, r) = open_record api server_transport later;
     assert (case r of Inl ClosedSession \<Rightarrow> True | _ \<Rightarrow> False)
   }"

definition split_transport_supports_independent_async_relay_directions ::
    "('p, 'b, 'h, 't, 'e) noise_lib \<Rightarrow> bytes \<times> bytes \<Rightarrow> bytes \<times> bytes \<Rightarrow> bytes \<Rightarrow> bytes \<Rightarrow> unit option" where
  "split_transport_supports_independent_async_relay_directions api client server text1 text2 = do {
     (c, s) \<leftarrow> complete_handshake api (fst client) (snd client) (fst server) (snd server);
     let (c, outbound) = seal_record api c text1;
     outbound \<leftarrow> expect outbound;
     let (s, opened) = open_record api s outbound;
     opened \<leftarrow> expect opened;
     assert (opened = text1);
     let (s, inbound) = seal_record api s text2;
     inbound \<leftarrow> expect inbound;
     let (c, opened) = open_record api c inbound;
     opened \<leftarrow> expect opened;
     assert (opened = text2)
   }"

section \<open>Identities\<close>

definition generated_identity_is_a_usable_32_byte_x25519_keypair :: "('p, 'b, 'h, 't, 'e) noise_lib \<Rightarrow> unit option" where
  "generated_identity_is_a_usable_32_byte_x25519_keypair api = do {
     k \<leftarrow> expect (generate_keypair api);
     assert (sk_private k \<noteq> sk_public k);
     assert (length (sk_private k) = 32);
     assert (length (sk_public k) = 32)
   }"

definition static_keypair_debug_never_exposes_private_key_material :: "('p, 'b, 'h, 't, 'e) noise_lib \<Rightarrow> unit option" where
  "static_keypair_debug_never_exposes_private_key_material api = do {
     k \<leftarrow> expect (generate_keypair api);
     assert (\<not> str_contains (static_keypair_debug k) (CHR ''['' # debug_list (sk_private k) @ '']''));
     assert (str_contains (static_keypair_debug k) (''private: '' @ [CHR 0x22] @ ''[REDACTED]'' @ [CHR 0x22]))
   }"

section \<open>The debug text\<close>

text \<open>A separator that does not occur before it splits a text in one way.\<close>

lemma split_at_separator:
  assumes "x @ c # u = y @ c # v" and "c \<notin> set x" and "c \<notin> set y"
  shows "x = y \<and> u = v"
proof -
  have "takeWhile (\<lambda>d. d \<noteq> c) (x @ c # u) = x" "takeWhile (\<lambda>d. d \<noteq> c) (y @ c # v) = y"
    using assms(2,3) by (auto intro!: takeWhile_tail simp: takeWhile_append)
  with assms(1) show ?thesis by simp
qed

lemma separator_later:
  assumes "u @ c # w = a @ c # r" and "c \<notin> set a"
  shows "u = a \<and> w = r \<or> (\<exists>u'. u = a @ c # u' \<and> u' @ c # w = r)"
proof -
  have "a \<noteq> u @ c # t" for t using assms(2) by auto
  with assms(1) show ?thesis by (auto simp: append_eq_append_conv2 Cons_eq_append_conv append_eq_Cons_conv)
qed

fun digits_value :: "nat \<Rightarrow> string \<Rightarrow> nat" where
  "digits_value acc [] = acc"
| "digits_value acc (c # cs) = digits_value (10 * acc + (of_char c - 48)) cs"

lemma digits_value_append: "digits_value acc (s @ t) = digits_value (digits_value acc s) t"
  by (induction acc s rule: digits_value.induct) simp_all

definition punctuation :: "char set" where
  "punctuation = {CHR ''['', CHR '']'', CHR ''R''}"

lemma digit_chars:
  "k < 10 \<Longrightarrow> of_char (''0123456789'' ! k) = 48 + k \<and> ''0123456789'' ! k \<notin> insert (CHR '','') punctuation"
  unfolding punctuation_def by (simp add: less_Suc_eq numeral_eq_Suc) (elim disjE; simp)

lemma show_nat_digits:
  "set (show_nat n) \<inter> insert (CHR '','') punctuation = {} \<and> show_nat n \<noteq> [] \<and> digits_value 0 (show_nat n) = n"
proof (induction n rule: show_nat.induct)
  case (1 n)
  have d: "n mod 10 < 10" by simp
  show ?case
  proof (cases "n < 10")
    case True
    with digit_chars [OF True] show ?thesis by (subst (1 2 3) show_nat.simps) simp
  next
    case False
    with 1 digit_chars [OF d] show ?thesis
      by (subst (1 2 3) show_nat.simps) (simp add: digits_value_append)
  qed
qed

lemma show_nat_inj: "show_nat a = show_nat b \<Longrightarrow> a = b"
  using show_nat_digits by metis

lemma debug_list_chars: "set (debug_list bs) \<inter> punctuation = {}"
proof (induction bs rule: debug_list.induct)
  case (2 b)
  then show ?case using show_nat_digits [of "unat b"] by simp
next
  case (3 b c bs)
  moreover have "CHR '','' \<notin> punctuation" "CHR '' '' \<notin> punctuation" by (simp_all add: punctuation_def)
  ultimately show ?case using show_nat_digits [of "unat b"] by (simp add: Int_Un_distrib2)
qed simp

lemma debug_list_inj: "debug_list xs = debug_list ys \<Longrightarrow> length xs = length ys \<Longrightarrow> xs = ys"
proof (induction xs arbitrary: ys rule: debug_list.induct)
  case (2 b)
  then obtain c where ys: "ys = [c]" by (cases ys) auto
  with 2 show_nat_inj [of "unat b" "unat c"] show ?case by (simp add: word_unat_eq_iff)
next
  case (3 b b' bs)
  then obtain c c' cs where ys: "ys = c # c' # cs" by (cases ys; cases "tl ys") auto
  have sep: "CHR '','' \<notin> set (show_nat n)" for n using show_nat_digits [of n] by auto
  from 3(2) have "show_nat (unat b) @ CHR '','' # '' '' @ debug_list (b' # bs)
      = show_nat (unat c) @ CHR '','' # '' '' @ debug_list (c' # cs)"
    by (simp add: ys)
  from split_at_separator [OF this sep sep] have "unat b = unat c" "debug_list (b' # bs) = debug_list (c' # cs)"
    using show_nat_inj by simp_all
  with 3 ys show ?case by (simp add: word_unat_eq_iff)
qed simp

lemma debug_list_start: "bs \<noteq> [] \<Longrightarrow> \<exists>c cs. debug_list bs = c # cs \<and> c \<notin> punctuation"
proof -
  assume "bs \<noteq> []"
  then have "debug_list bs \<noteq> []" using show_nat_digits by (cases bs rule: debug_list.cases) auto
  with debug_list_chars [of bs] show ?thesis by (cases "debug_list bs") auto
qed

text \<open>The text never contains the private key as \<open>Debug\<close> would print it, unless that is the public key.\<close>

lemma debug_hides_private_key:
  assumes "length priv = length (sk_public k)" and "priv \<noteq> sk_public k" and "priv \<noteq> []"
  shows "\<not> str_contains (static_keypair_debug k) (CHR ''['' # debug_list priv @ '']'')"
proof
  let ?A = "''StaticKeypair { private: '' @ [CHR 0x22]"
  let ?B = "''REDACTED]'' @ [CHR 0x22] @ '', public: ''"
  let ?D = "debug_list (sk_public k) @ ''] }''"
  assume "str_contains (static_keypair_debug k) (CHR ''['' # debug_list priv @ '']'')"
  then obtain u v where "static_keypair_debug k = u @ CHR ''['' # debug_list priv @ '']'' @ v"
    by (auto simp: str_contains_def sublist_def)
  then have eq: "u @ CHR ''['' # debug_list priv @ '']'' @ v = ?A @ CHR ''['' # ?B @ CHR ''['' # ?D"
    by (simp add: static_keypair_debug_def)
  have chars: "CHR ''['' \<notin> set (debug_list bs)" "CHR '']'' \<notin> set (debug_list bs)" for bs
    using debug_list_chars [of bs] by (auto simp: punctuation_def)
  obtain d ds where d: "debug_list priv = d # ds" "d \<notin> punctuation" using debug_list_start [OF assms(3)] by blast
  have "d \<noteq> CHR ''R''" using d(2) by (auto simp: punctuation_def)
  then have "debug_list priv @ '']'' @ v \<noteq> ?B @ CHR ''['' # ?D" using d(1) by simp
  moreover have "CHR ''['' \<notin> set ?A" by simp
  ultimately obtain u' where u': "u' @ CHR ''['' # debug_list priv @ '']'' @ v = ?B @ CHR ''['' # ?D"
    using separator_later [OF eq] by blast
  have "CHR ''['' \<notin> set ?B" by simp
  with separator_later [OF u'] obtain rest where "debug_list priv @ '']'' @ v = ?D \<or> rest @ CHR ''['' # debug_list priv @ '']'' @ v = ?D"
    by blast
  moreover have "CHR ''['' \<notin> set ?D" using chars(1) by simp
  moreover have "CHR ''['' \<in> set (rest @ CHR ''['' # debug_list priv @ '']'' @ v)" by simp
  ultimately have "debug_list priv @ '']'' @ v = ?D" by metis
  then have "debug_list priv @ CHR '']'' # v = debug_list (sk_public k) @ CHR '']'' # '' }''" by simp
  from split_at_separator [OF this chars(2) chars(2)] have "debug_list priv = debug_list (sk_public k)" by simp
  with debug_list_inj assms(1,2) show False by blast
qed

section \<open>The server's verdict\<close>

text \<open>What the two parties have exchanged when the server has looked at the first message.\<close>

lemma ik_first_message:
  assumes ik: "ik_agreement api cpriv cpub sprivs spriv spub ta tb"
  obtains ch0 ch1 m where
    "client_handshake_new api cpriv spub = Inr ch0"
    "first_message api ch0 = (ch1, Inr (framed handshake_header m))" "length m \<le> MAX_HANDSHAKE_MESSAGE"
    "\<And>clients. length cpub = 32 \<Longrightarrow> cpub \<notin> clients \<Longrightarrow> try_identities api clients m [spriv] False None = Some (Inl UnauthorisedClient)"
    "\<And>k. k \<in> set sprivs \<Longrightarrow> k \<noteq> spriv \<Longrightarrow>
       \<exists>st e. build_responder_for api k = Inr st \<and> n_hs_read api st m MAX_HANDSHAKE_MESSAGE = Inl e"
proof -
  from ik obtain b b1 b2 i0 m1 i1 r0 pl1 r1 where
    c: "noise_builder api = Inr b" "n_local_private_key api b cpriv = Inr b1"
      "n_remote_public_key api b1 spub = Inr b2" "n_build_initiator api b2 = Inr i0"
    and m1: "n_hs_write api i0 [] MAX_HANDSHAKE_MESSAGE = Inr (m1, i1)" "length m1 \<le> MAX_HANDSHAKE_MESSAGE"
    and r: "build_responder_for api spriv = Inr r0"
      "n_hs_read api r0 m1 MAX_HANDSHAKE_MESSAGE = Inr (pl1, r1)" "n_remote_static api r1 = Some cpub"
    and others: "\<forall>k \<in> set sprivs. k \<noteq> spriv \<longrightarrow>
        (\<exists>st e. build_responder_for api k = Inr st \<and> n_hs_read api st m1 MAX_HANDSHAKE_MESSAGE = Inl e)"
    unfolding ik_agreement_def by blast
  show ?thesis
  proof (rule that)
    show "client_handshake_new api cpriv spub = Inr \<lparr>ch_state = Some i0, sent_first = False\<rparr>"
      using c by (simp add: client_handshake_new_def)
    show "first_message api \<lparr>ch_state = Some i0, sent_first = False\<rparr>
        = (\<lparr>ch_state = Some i1, sent_first = True\<rparr>, Inr (framed handshake_header m1))"
      using m1 by (simp add: first_message_def encode_handshake_frame_eq)
    show "try_identities api clients m1 [spriv] False None = Some (Inl UnauthorisedClient)"
      if "length cpub = 32" "cpub \<notin> clients" for clients
      using r that by (simp add: try_into_32_def)
  qed (use m1 others in auto)
qed

lemma try_identities_all_fail:
  assumes "\<forall>k \<in> set ks. \<exists>st e. build_responder_for api k = Inr st \<and> n_hs_read api st m MAX_HANDSHAKE_MESSAGE = Inl e"
    and "ks \<noteq> [] \<or> le \<noteq> None"
  shows "\<exists>e. try_identities api allow m ks False le = Some (Inl (Noise e))"
  using assms
proof (induction ks arbitrary: le)
  case (Cons k ks)
  then obtain st e where "build_responder_for api k = Inr st" "n_hs_read api st m MAX_HANDSHAKE_MESSAGE = Inl e"
    by auto
  moreover have "\<exists>e'. try_identities api allow m ks False (Some e) = Some (Inl (Noise e'))"
    by (rule Cons.IH) (use Cons.prems in auto)
  ultimately show ?case by simp
qed auto

lemma server_hears_eq:
  assumes "client_handshake_new api cpriv pinned = Inr ch0"
    and "first_message api ch0 = (ch1, Inr (framed handshake_header m))" and "length m \<le> MAX_HANDSHAKE_MESSAGE"
    and "privs \<noteq> []" and "length privs \<le> MAX_SERVER_STATIC_IDENTITIES"
  shows "server_hears api cpriv pinned privs clients =
    map_option (\<lambda>v. (ch1, framed handshake_header m,
        \<lparr>static_identities = None, allow_list = set clients, preface_accepted = True\<rparr>, v))
      (try_identities api (set clients) m privs False None)"
  using assms
  by (cases "try_identities api (set clients) m privs False None")
     (simp_all add: server_hears_def new_with_static_identities_def accept_preface_def receive_client_def
       hs_frame.decode_framed)

text \<open>The three verdicts that the tests look at.\<close>

lemma server_hears_wrong_key:
  assumes ik: "ik_agreement api cpriv cpub (spriv # privs) spriv spub ta tb"
    and "spriv \<notin> set privs" and "privs \<noteq> []" and "length privs \<le> MAX_SERVER_STATIC_IDENTITIES"
  shows "\<exists>c first s e. server_hears api cpriv spub privs clients = Some (c, first, s, Inl (Noise e))
    \<and> receive_client api s first = (s, Some (Inl ClosedSession))"
proof -
  obtain ch0 ch1 m where m: "client_handshake_new api cpriv spub = Inr ch0"
      "first_message api ch0 = (ch1, Inr (framed handshake_header m))" "length m \<le> MAX_HANDSHAKE_MESSAGE"
    and others: "\<And>k. k \<in> set (spriv # privs) \<Longrightarrow> k \<noteq> spriv \<Longrightarrow>
       \<exists>st e. build_responder_for api k = Inr st \<and> n_hs_read api st m MAX_HANDSHAKE_MESSAGE = Inl e"
    by (rule ik_first_message [OF ik]) blast
  obtain e where "try_identities api (set clients) m privs False None = Some (Inl (Noise e))"
    using try_identities_all_fail [of privs api m None "set clients"] others assms(2,3) by (metis list.set_intros(2))
  with server_hears_eq [OF m assms(3,4), of clients] m(3) show ?thesis
    by (simp add: receive_client_def hs_frame.decode_framed)
qed

lemma server_hears_unknown_client:
  assumes ik: "ik_agreement api cpriv cpub sprivs spriv spub ta tb" and "length cpub = 32" and "cpub \<notin> set clients"
  shows "\<exists>c first s. server_hears api cpriv spub [spriv] clients = Some (c, first, s, Inl UnauthorisedClient)"
proof -
  obtain ch0 ch1 m where m: "client_handshake_new api cpriv spub = Inr ch0"
      "first_message api ch0 = (ch1, Inr (framed handshake_header m))" "length m \<le> MAX_HANDSHAKE_MESSAGE"
    and v: "\<And>clients. length cpub = 32 \<Longrightarrow> cpub \<notin> clients \<Longrightarrow>
      try_identities api clients m [spriv] False None = Some (Inl UnauthorisedClient)"
    by (rule ik_first_message [OF ik]) blast
  from server_hears_eq [OF m, of "[spriv]" clients] v [OF assms(2,3)] show ?thesis
    by (simp add: tunnel_limits del: try_identities.simps)
qed

lemma server_hears_agrees:
  assumes ik: "ik_agreement api cpriv cpub privs spriv spub ta tb" and "spriv \<in> set privs"
    and "length privs \<le> MAX_SERVER_STATIC_IDENTITIES" and "length cpub = 32"
  shows "\<exists>c first s reply reply2 second c2. server_hears api cpriv spub privs [cpub] = Some (c, first, s, Inr reply)
    \<and> reply_message api reply = (reply2, Inr second)
    \<and> client_finish api c second = (c2, Inr (transport_session_new ta))
    \<and> into_session api reply2 = Inr (transport_session_new tb)"
proof -
  have "cpub \<in> set [cpub]" by simp
  from ik_agreement_steps [OF ik assms(2) this assms(4)] obtain ch0 ch1 m1 reply reply2 m2 ch2 where
    m: "client_handshake_new api cpriv spub = Inr ch0"
      "first_message api ch0 = (ch1, Inr (framed handshake_header m1))" "length m1 \<le> MAX_HANDSHAKE_MESSAGE"
    and t: "try_identities api (set [cpub]) m1 privs False None = Some (Inr reply)"
    and rest: "reply_message api reply = (reply2, Inr (framed handshake_header m2))"
      "client_finish api ch1 (framed handshake_header m2) = (ch2, Inr (transport_session_new ta))"
      "into_session api reply2 = Inr (transport_session_new tb)"
    by metis
  have "privs \<noteq> []" using assms(2) by auto
  from server_hears_eq [OF m this assms(3), of "[cpub]"] t rest show ?thesis by simp
qed

lemma complete_handshake_agrees:
  assumes "ik_agreement api (fst client) (snd client) [fst server] (fst server) (snd server) ta tb"
    and "length (snd client) = 32"
  shows "complete_handshake api (fst client) (snd client) (fst server) (snd server)
      = Some (transport_session_new ta, transport_session_new tb)"
  using server_hears_agrees [OF assms(1)] assms(2) by (auto simp: complete_handshake_def tunnel_limits)

lemma overlap_accepts_agrees:
  assumes "ik_agreement api (fst client) (snd client) privs spriv spub ta tb" and "spriv \<in> set privs"
    and "length privs \<le> MAX_SERVER_STATIC_IDENTITIES" and "length (snd client) = 32"
  shows "overlap_accepts api client privs spub = Some ()"
  using server_hears_agrees [OF assms] by (auto simp: overlap_accepts_def)

section \<open>The tests pass\<close>

lemma codec_tests_pass:
  "preface_round_trips_and_rejects_incompatible_versions = Some ()"
  "handshake_frame_rejects_declared_oversize_before_allocation = Some ()"
  "record_parser_rejects_truncation_and_trailing_bytes = Some ()"
  "server_static_key_overlap_is_non_empty_and_bounded client_public = Some ()"
proof -
  show "preface_round_trips_and_rejects_incompatible_versions = Some ()"
    by (simp add: preface_round_trips_and_rejects_incompatible_versions_def preface_encode_def preface_parse_def PREFACE_def)
  have "u16_from_be_bytes 0x10 0x01 = 4097" "u32_from_be_bytes 0 0 0 16 = 16" "u32_from_be_bytes 0 0 0 1 = 1"
    by (simp_all add: u16_from_be_bytes_def u32_from_be_bytes_def)
  then show "handshake_frame_rejects_declared_oversize_before_allocation = Some ()"
    "record_parser_rejects_truncation_and_trailing_bytes = Some ()"
    by (simp_all add: handshake_frame_rejects_declared_oversize_before_allocation_def
        record_parser_rejects_truncation_and_trailing_bytes_def tunnel_limits
        encode_handshake_frame_def decode_handshake_frame_def decode_record_frame_def decode_frame_def Let_def)
  show "server_static_key_overlap_is_non_empty_and_bounded client_public = Some ()"
    by (simp add: server_static_key_overlap_is_non_empty_and_bounded_def new_with_static_identities_def tunnel_limits)
qed

lemma handshake_tests_pass:
  assumes keys: "\<forall>s \<in> {server, rotated, wrong}. \<forall>privs. set privs \<subseteq> fst ` {server, rotated, wrong} \<longrightarrow>
      (\<exists>ta tb. ik_agreement api (fst client) (snd client) privs (fst s) (snd s) ta tb)"
    and "distinct [fst server, fst rotated, fst wrong]" and "snd client \<noteq> snd other" and "length (snd client) = 32"
  shows "wrong_server_key_and_unknown_client_fail_closed api client server wrong other = Some ()"
    and "server_static_key_overlap_accepts_current_and_rotated_keys_only api client server rotated (snd wrong) = Some ()"
proof -
  have ik: "\<exists>ta tb. ik_agreement api (fst client) (snd client) privs (fst s) (snd s) ta tb"
    if "s \<in> {server, rotated, wrong}" "set privs \<subseteq> fst ` {server, rotated, wrong}" for s privs
    using keys that by blast
  have 1: "\<exists>c first s e. server_hears api (fst client) (snd wrong) [fst server] [snd client] = Some (c, first, s, Inl (Noise e))
      \<and> receive_client api s first = (s, Some (Inl ClosedSession))"
    using ik [of wrong "[fst wrong, fst server]"] server_hears_wrong_key [of api "fst client" "snd client" "fst wrong" "[fst server]"] assms(2)
    by (auto simp: tunnel_limits)
  have 2: "\<exists>c first s. server_hears api (fst client) (snd server) [fst server] [snd other] = Some (c, first, s, Inl UnauthorisedClient)"
    using ik [of server "[fst server]"] server_hears_unknown_client [of api "fst client" "snd client" "[fst server]" "fst server"] assms(3,4)
    by auto
  from 1 2 show "wrong_server_key_and_unknown_client_fail_closed api client server wrong other = Some ()"
    by (auto simp: wrong_server_key_and_unknown_client_fail_closed_def)
  have 3: "\<exists>c first s e. server_hears api (fst client) (snd wrong) [fst server, fst rotated] [snd client] = Some (c, first, s, Inl (Noise e))
      \<and> receive_client api s first = (s, Some (Inl ClosedSession))"
    using ik [of wrong "[fst wrong, fst server, fst rotated]"]
      server_hears_wrong_key [of api "fst client" "snd client" "fst wrong" "[fst server, fst rotated]"] assms(2)
    by (auto simp: tunnel_limits)
  have 4: "overlap_accepts api client [fst server, fst rotated] (snd s) = Some ()" if "s \<in> {server, rotated}" for s
    using ik [of s "[fst server, fst rotated]"] that overlap_accepts_agrees [of api client "[fst server, fst rotated]" "fst s" "snd s"] assms(4)
    by (auto simp: tunnel_limits)
  from 3 4 show "server_static_key_overlap_accepts_current_and_rotated_keys_only api client server rotated (snd wrong) = Some ()"
    by (auto simp: server_static_key_overlap_accepts_current_and_rotated_keys_only_def)
qed

text \<open>The cipher can seal what a test sends, and does not open the first record with its last bit flipped.\<close>

definition session_usable ::
    "('p, 'b, 'h, 't, 'e) noise_lib \<Rightarrow> 't \<Rightarrow> 't \<Rightarrow> bytes \<Rightarrow> bytes \<Rightarrow> bytes \<Rightarrow> bool" where
  "session_usable api ta tb text later_text answer \<longleftrightarrow>
     (\<exists>c a1. n_ts_write api ta text (length text + 16) = Inr (c, a1)
        \<and> (\<exists>r. n_ts_write api a1 later_text (length later_text + 16) = Inr r)
        \<and> (\<exists>e. n_ts_read api tb (tamper c) (length c - 16) = Inl e)
        \<and> (\<forall>b1. n_ts_read api tb c (length c - 16) = Inr (text, b1) \<longrightarrow>
             (\<exists>r. n_ts_write api b1 answer (length answer + 16) = Inr r)))"

lemma tamper_framed: "c \<noteq> [] \<Longrightarrow> tamper (framed record_header c) = framed record_header (tamper c)"
  by (simp add: tamper_def framed_def butlast_append record_header_def)

lemma tamper_length: "c \<noteq> [] \<Longrightarrow> length (tamper c) = length c"
  by (cases c rule: rev_cases) (simp_all add: tamper_def)

lemma seal_record_writes:
  assumes "n_ts_write api t p (length p + 16) = Inr (c, t')" and "length p \<le> MAX_PLAINTEXT_RECORD" and "length c = length p + 16"
  shows "seal_record api (transport_session_new t) p = (transport_session_new t', Inr (framed record_header c))"
  using assms by (simp add: seal_record_def transport_session_new_def Let_def u32_try_from_def tunnel_limits framed_def record_header_def)

lemma session_tests_pass:
  assumes ik: "ik_agreement api (fst client) (snd client) [fst server] (fst server) (snd server) ta tb"
    and "length (snd client) = 32" and usable: "session_usable api ta tb text later_text answer"
    and len: "length text \<le> MAX_PLAINTEXT_RECORD" "length later_text \<le> MAX_PLAINTEXT_RECORD" "length answer \<le> MAX_PLAINTEXT_RECORD"
  shows "ik_handshake_pins_server_and_authorises_client api client server text = Some ()"
    and "records_enforce_wire_limits_and_reject_tampering api client server text later_text = Some ()"
    and "split_transport_supports_independent_async_relay_directions api client server text answer = Some ()"
proof -
  let ?a = "transport_session_new ta" and ?b = "transport_session_new tb"
  note hs = complete_handshake_agrees [OF ik assms(2)]
  have pair: "noise_pair api ta tb [] []" using ik by (auto simp: ik_agreement_def)
  from usable obtain c a1 l a2 e where w: "n_ts_write api ta text (length text + 16) = Inr (c, a1)"
    "n_ts_write api a1 later_text (length later_text + 16) = Inr (l, a2)"
    and tampered: "n_ts_read api tb (tamper c) (length c - 16) = Inl e"
    and ans: "\<And>b1. n_ts_read api tb c (length c - 16) = Inr (text, b1) \<Longrightarrow>
        \<exists>r. n_ts_write api b1 answer (length answer + 16) = Inr r"
    by (auto simp: session_usable_def)
  from noise_pair_write [OF pair len(1) w(1)] have c: "length c = length text + 16"
    and pair1: "noise_pair api a1 tb [(c, text)] []" by simp_all
  from noise_pair_write [OF pair1 len(2) w(2)] have l: "length l = length later_text + 16" by simp
  from noise_pair_read [OF pair1] obtain b1 where r: "n_ts_read api tb c (length c - 16) = Inr (text, b1)"
    and pair2: "noise_pair api a1 b1 [] []" by blast
  from ans [OF r] obtain d b2 where d: "n_ts_write api b1 answer (length answer + 16) = Inr (d, b2)" by auto
  from noise_pair_write_back [OF pair2 len(3) d] have dl: "length d = length answer + 16"
    and pair3: "noise_pair api a1 b2 [] [(d, answer)]" by simp_all
  from noise_pair_read_back [OF pair3] obtain a3 where r3: "n_ts_read api a1 d (length d - 16) = Inr (answer, a3)" by blast
  note seal = seal_record_writes [OF w(1) len(1) c] seal_record_writes [OF w(2) len(2) l] seal_record_writes [OF d len(3) dl]
  have cap: "length c \<le> MAX_CIPHERTEXT_RECORD" "length d \<le> MAX_CIPHERTEXT_RECORD"  "length l \<le> MAX_CIPHERTEXT_RECORD"
    using c dl l len by (simp_all add: tunnel_limits)
  have nonempty: "c \<noteq> []" using c by auto
  have opens: "open_record api ?b (framed record_header c) = (transport_session_new b1, Inr text)"
    "open_record api (transport_session_new a1) (framed record_header d) = (transport_session_new a3, Inr answer)"
    using open_record_framed [of c ?b tb api "text" b1] open_record_framed [of d "transport_session_new a1" a1 api answer a3] r r3 cap len
    by (simp_all add: transport_session_new_def)
  show "ik_handshake_pins_server_and_authorises_client api client server text = Some ()"
    by (simp add: ik_handshake_pins_server_and_authorises_client_def hs seal opens)
  show "split_transport_supports_independent_async_relay_directions api client server text answer = Some ()"
    by (simp add: split_transport_supports_independent_async_relay_directions_def hs seal opens)
  have big: "seal_record api ?a (replicate (MAX_PLAINTEXT_RECORD + 1) 0) = (?a, Inl (PlaintextTooLarge 16385))"
    by (simp add: seal_record_def tunnel_limits)
  have "u32_from_be_bytes 0 0 0x40 0x11 = 16401" by (simp add: u32_from_be_bytes_def)
  then have over: "open_record api ?b [0, 0, 0x40, 0x11] = (?b, Inl (CiphertextTooLarge 16401))"
    by (simp add: open_record_def decode_record_frame_def decode_frame_def tunnel_limits Let_def)
  have bad: "open_record api ?b (tamper (framed record_header c)) = (?b\<lparr>transport := None\<rparr>, Inl (Noise e))"
    using tampered cap nonempty
    by (simp add: tamper_framed tamper_length open_record_def rec_frame.decode_framed transport_session_new_def)
  have closed: "open_record api (?b\<lparr>transport := None\<rparr>) (framed record_header l) = (?b\<lparr>transport := None\<rparr>, Inl ClosedSession)"
    using cap by (simp add: open_record_def rec_frame.decode_framed transport_session_new_def)
  show "records_enforce_wire_limits_and_reject_tampering api client server text later_text = Some ()"
    unfolding records_enforce_wire_limits_and_reject_tampering_def by (simp only: hs big bind.bind_lunit prod.case Let_def) (simp add: seal over bad closed)
qed

lemma identity_tests_pass:
  assumes "generate_keypair api = Inr k" and "sk_private k \<noteq> sk_public k"
  shows "generated_identity_is_a_usable_32_byte_x25519_keypair api = Some ()"
    and "static_keypair_debug_never_exposes_private_key_material api = Some ()"
proof -
  note len = generate_keypair_lengths [OF assms(1)]
  with assms show "generated_identity_is_a_usable_32_byte_x25519_keypair api = Some ()"
    by (simp add: generated_identity_is_a_usable_32_byte_x25519_keypair_def)
  have "\<not> str_contains (static_keypair_debug k) (CHR ''['' # debug_list (sk_private k) @ '']'')"
    by (rule debug_hides_private_key) (use len assms(2) in auto)
  moreover have "str_contains (static_keypair_debug k) (''private: '' @ [CHR 0x22] @ ''[REDACTED]'' @ [CHR 0x22])"
    unfolding str_contains_def sublist_def static_keypair_debug_def
    by (intro exI [of _ "''StaticKeypair { ''"] exI [of _ "'', public: ['' @ debug_list (sk_public k) @ ''] }''"]) simp
  ultimately show "static_keypair_debug_never_exposes_private_key_material api = Some ()"
    using assms(1) by (simp add: static_keypair_debug_never_exposes_private_key_material_def del: append_Cons)
qed

section \<open>Property\<close>


text \<open>The cipher of \<open>Noise_Instance\<close> with its tag behind the text.\<close>

fun tail_ts_write :: "nat \<times> nat \<Rightarrow> bytes \<Rightarrow> nat \<Rightarrow> plain_error + (bytes \<times> (nat \<times> nat))" where
  "tail_ts_write (s, r) p cap = Inr (p @ plain_tag s, (Suc s, r))"

fun tail_ts_read :: "nat \<times> nat \<Rightarrow> bytes \<Rightarrow> nat \<Rightarrow> plain_error + (bytes \<times> (nat \<times> nat))" where
  "tail_ts_read (s, r) c cap =
     (if drop (length c - 16) c = plain_tag r then Inr (take (length c - 16) c, (s, Suc r)) else Inl DecryptFailed)"

definition tail_noise :: "(unit, bytes option \<times> bytes option, plain_hs, nat \<times> nat, plain_error) noise_lib" where
  "tail_noise = plain_noise\<lparr>n_ts_write := tail_ts_write, n_ts_read := tail_ts_read\<rparr>"

fun tail_queued :: "nat \<Rightarrow> (bytes \<times> bytes) list \<Rightarrow> bool" where
  "tail_queued n [] = True"
| "tail_queued n ((c, p) # q) = (c = p @ plain_tag n \<and> tail_queued (Suc n) q)"

lemma tail_queued_append: "tail_queued n (q @ [(c, p)]) \<longleftrightarrow> tail_queued n q \<and> c = p @ plain_tag (n + length q)"
  by (induction n q rule: tail_queued.induct) auto

lemma tail_noise_pair:
  assumes "tail_queued rb ab" and "tail_queued ra ba" and "sa = rb + length ab" and "sb = ra + length ba"
  shows "noise_pair tail_noise (sa, ra) (sb, rb) ab ba"
  using assms
proof (coinduction arbitrary: sa ra sb rb ab ba)
  case noise_pair
  show ?case
    by (rule exI [of _ "(sa, ra)"], rule exI [of _ "(sb, rb)"], rule exI [of _ ab], rule exI [of _ ba])
       (use noise_pair in \<open>auto simp: tail_noise_def tail_queued_append\<close>)
qed

lemma tail_ik_agreement:
  assumes "length cpriv = 32" and "length spriv = 32"
    and "\<forall>k \<in> set sprivs. k \<noteq> spriv \<longrightarrow> plain_public k \<noteq> plain_public spriv"
  shows "ik_agreement tail_noise cpriv (plain_public cpriv) sprivs spriv (plain_public spriv) (0, 0) (0, 0)"
proof -
  have "noise_pair tail_noise (0, 0) (0, 0) [] []" by (rule tail_noise_pair) simp_all
  with assms show ?thesis
    unfolding ik_agreement_def
    by (auto simp: tail_noise_def plain_noise_def noise_builder_def plain_public_def MAX_HANDSHAKE_MESSAGE_def
        build_responder_for_def)
qed

definition sample_keys :: "byte \<Rightarrow> bytes \<times> bytes" where
  "sample_keys b = (replicate 32 b, plain_public (replicate 32 b))"


end
