(* ===== verification/Program_Tests.thy ===== *)
theory Program_Tests
  imports Library_Tests Memory_Sample Client_Config Server_Config Benchmark_Report
begin

text \<open>
  The unit tests of the two binaries, their configuration modules and the benchmark library, over
  the model, as in \<open>Library_Tests\<close>.  A configuration test is its table as the TOML parser returns it; a
  file test runs on the file-system map from any state.  The test that runs both sides of a handshake
  over an in-memory wire is in \<open>Doctor_Test\<close>; the two that open sockets (keepalive) are not here.

  \<open>error.to_string()\<close> needs the texts of the errors; the printer of addresses and of paths is an
  argument.
\<close>

section \<open>Texts of errors\<close>

fun client_config_text :: "(socket_addr \<Rightarrow> string) \<Rightarrow> 'e client_config_error \<Rightarrow> string" where
  "client_config_text show_addr (UnreadableConfig p) = ''could not read client configuration '' @ p"
| "client_config_text show_addr (InvalidToml e) = ''invalid client TOML''"
| "client_config_text show_addr (ListenerNotLoopback a) =
     ''client listener must bind a loopback address, not '' @ show_addr a"
| "client_config_text show_addr RemoteAddressEmpty = ''remote address must not be empty''"
| "client_config_text show_addr ServerKeyMissing = ''a pinned server public key is required''"
| "client_config_text show_addr TlsServerNameMissing = ''outer_tls.server_name is required when outer TLS is enabled''"
| "client_config_text show_addr TimeoutNotPositive = ''all timeouts must be positive''"
| "client_config_text show_addr ConnectionLimitOutOfRange =
     ''client connection limit must be between 1 and '' @ show_nat MAX_CONCURRENT_CONNECTIONS"

fun server_config_text :: "(socket_addr \<Rightarrow> string) \<Rightarrow> 'e server_config_error \<Rightarrow> string" where
  "server_config_text show_addr (UnreadableServerConfig p) = ''could not read server configuration '' @ p"
| "server_config_text show_addr (InvalidServerToml e) = ''invalid server TOML''"
| "server_config_text show_addr (DestinationNotLoopback a) =
     ''destination must be a fixed loopback address, not '' @ show_addr a"
| "server_config_text show_addr NoAuthorisedClient = ''at least one authorised client is required''"
| "server_config_text show_addr BlankClientEntry = ''authorised clients require a non-empty name and public key''"
| "server_config_text show_addr EmptyKeyPath = ''server private key file paths must not be empty''"
| "server_config_text show_addr TooManyIdentities =
     ''at most '' @ show_nat MAX_SERVER_STATIC_IDENTITIES @ '' server static identities may be configured''"
| "server_config_text show_addr DuplicateKeyPath = ''server private key files must be distinct''"
| "server_config_text show_addr LimitsOutOfRange =
     ''version 1 requires a connection limit from 1 through '' @ show_nat MAX_CONCURRENT_CONNECTIONS
       @ '' and a 16384-byte plaintext record limit''"
| "server_config_text show_addr TlsCertificateMissing =
     ''outer_tls.certificate_file is required when outer TLS is enabled''"
| "server_config_text show_addr TlsKeyMissing = ''outer_tls.private_key_file is required when outer TLS is enabled''"
| "server_config_text show_addr ServerTimeoutNotPositive = ''all timeouts must be positive''"

text \<open>The refusals of the permission checks; \<open>octal\<close> prints a mode.\<close>

fun refusal_text :: "(path \<Rightarrow> string) \<Rightarrow> (32 word \<Rightarrow> string) \<Rightarrow> 'e key_error \<Rightarrow> string option" where
  "refusal_text show_path octal (NotRegularFile kind p) = Some (kind @ '' '' @ show_path p @ '' must be a regular non-symlink file'')"
| "refusal_text show_path octal (GroupReadable kind p mode) =
     Some (kind @ '' '' @ show_path p @ '' must not be group/world readable (mode '' @ octal mode @ '')'')"
| "refusal_text show_path octal (ParentNotDirectory p) =
     Some (''private-key parent directory '' @ show_path p @ '' must be a real directory'')"
| "refusal_text show_path octal (ParentAccessible p mode) =
     Some (''private-key parent directory '' @ show_path p @ '' must not grant group/world access (mode '' @ octal mode @ '')'')"
| "refusal_text show_path octal _ = None"

definition expect_err :: "'e + 'a \<Rightarrow> 'e option" where
  "expect_err r = (case r of Inl e \<Rightarrow> Some e | Inr x \<Rightarrow> None)"

lemma expect_err_simps [simp]: "expect_err (Inl e) = Some e" "expect_err (Inr x) = None"
  by (simp_all add: expect_err_def)

section \<open>Client configuration\<close>

definition test_key :: utext where
  "test_key = utext_of (replicate 43 (CHR ''A'') @ ''='')"

text \<open>The table that the client's tests vary: \<open>accepts_the_documented_loopback_default_port\<close>.\<close>

definition client_table :: raw_client_config where
  "client_table =
     \<lparr>rc_listen_address = SocketAddr (V4 127 0 0 1) 18787, rc_remote_address = utext_of ''example.test:8443'',
      rc_private_key_file = ''/tmp/client.key'', rc_server_public_key = test_key,
      rc_outer_tls = None, rc_timeouts = None, rc_limits = None\<rparr>"

definition client_from :: "raw_client_config \<Rightarrow> unit client_config_error + client_config" where
  "client_from table = client_from_toml (\<lambda>_. Inr table) []"

definition rejects_a_non_loopback_listener :: "(socket_addr \<Rightarrow> string) \<Rightarrow> unit option" where
  "rejects_a_non_loopback_listener show_addr = do {
     e \<leftarrow> expect_err (client_from (client_table\<lparr>rc_listen_address := SocketAddr (V4 0 0 0 0) 18787\<rparr>));
     assert (str_contains (client_config_text show_addr e) ''loopback'')
   }"

definition accepts_the_documented_loopback_default_port :: "unit option" where
  "accepts_the_documented_loopback_default_port = assert (\<not> isl (client_from client_table))"

definition accepts_tls_when_a_server_name_is_supplied :: "unit option" where
  "accepts_tls_when_a_server_name_is_supplied =
     assert (\<not> isl (client_from (client_table\<lparr>rc_outer_tls := Some (Some True, Some (utext_of ''example.test''), None)\<rparr>)))"

definition tls_requires_a_server_name :: "(socket_addr \<Rightarrow> string) \<Rightarrow> unit option" where
  "tls_requires_a_server_name show_addr = do {
     e \<leftarrow> expect_err (client_from (client_table\<lparr>rc_outer_tls := Some (Some True, None, None)\<rparr>));
     assert (str_contains (client_config_text show_addr e) ''server_name'')
   }"

definition accepts_an_explicit_test_ca_with_tls :: "unit option" where
  "accepts_an_explicit_test_ca_with_tls =
     assert (\<not> isl (client_from (client_table\<lparr>rc_outer_tls :=
       Some (Some True, Some (utext_of ''example.test''), Some ''/tmp/test-ca.pem'')\<rparr>)))"

definition rejects_a_zero_connection_limit :: "(socket_addr \<Rightarrow> string) \<Rightarrow> unit option" where
  "rejects_a_zero_connection_limit show_addr = do {
     e \<leftarrow> expect_err (client_from (client_table\<lparr>rc_limits := Some (Some 0)\<rparr>));
     assert (str_contains (client_config_text show_addr e) ''connection limit'')
   }"

definition client_rejects_a_connection_limit_above_the_safe_ceiling :: "(socket_addr \<Rightarrow> string) \<Rightarrow> unit option" where
  "client_rejects_a_connection_limit_above_the_safe_ceiling show_addr = do {
     e \<leftarrow> expect_err (client_from (client_table\<lparr>rc_limits := Some (Some 1025)\<rparr>));
     assert (str_contains (client_config_text show_addr e) ''1024'')
   }"

section \<open>Server configuration\<close>

definition server_table :: raw_server_config where
  "server_table =
     \<lparr>rs_listen_address = SocketAddr (V4 127 0 0 1) 8443, rs_destination_address = SocketAddr (V4 127 0 0 1) 8787,
      rs_private_key_file = ''/tmp/server.key'', rs_additional_files = None,
      rs_authorized_clients = [\<lparr>ac_name = utext_of ''mac'', ac_public_key = test_key\<rparr>],
      rs_outer_tls = None, rs_limits = None, rs_timeouts = None\<rparr>"

definition server_from :: "raw_server_config \<Rightarrow> unit server_config_error + server_config" where
  "server_from table = server_from_toml (\<lambda>_. Inr table) []"

definition destination_must_be_a_fixed_loopback_address :: "(socket_addr \<Rightarrow> string) \<Rightarrow> unit option" where
  "destination_must_be_a_fixed_loopback_address show_addr = do {
     e \<leftarrow> expect_err (server_from (server_table\<lparr>rs_destination_address := SocketAddr (V4 192 0 2 7) 22\<rparr>));
     assert (str_contains (server_config_text show_addr e) ''loopback'')
   }"

definition accepts_tls_with_a_certificate_and_private_key :: "unit option" where
  "accepts_tls_with_a_certificate_and_private_key =
     assert (\<not> isl (server_from (server_table\<lparr>rs_outer_tls := Some (Some True, Some ''/tmp/cert.pem'', Some ''/tmp/tls.key'')\<rparr>)))"

definition tls_requires_a_certificate_and_private_key :: "(socket_addr \<Rightarrow> string) \<Rightarrow> unit option" where
  "tls_requires_a_certificate_and_private_key show_addr = do {
     e \<leftarrow> expect_err (server_from (server_table\<lparr>rs_outer_tls := Some (Some True, Some ''/tmp/cert.pem'', None)\<rparr>));
     assert (str_contains (server_config_text show_addr e) ''private_key_file'')
   }"

definition overlap_table :: "string list \<Rightarrow> raw_server_config" where
  "overlap_table additional =
     server_table\<lparr>rs_private_key_file := ''/tmp/server-current.key'', rs_additional_files := Some additional\<rparr>"

definition accepts_a_bounded_server_static_key_overlap :: "unit option" where
  "accepts_a_bounded_server_static_key_overlap = do {
     config \<leftarrow> expect (server_from (overlap_table [''/tmp/server-rotated.key'']));
     assert (length (id_additional_files (sc_identity config)) = 1)
   }"

definition rejects_an_unbounded_or_duplicate_server_static_key_overlap :: "(socket_addr \<Rightarrow> string) \<Rightarrow> unit option" where
  "rejects_an_unbounded_or_duplicate_server_static_key_overlap show_addr = do {
     e \<leftarrow> expect_err (server_from (overlap_table
       (map (\<lambda>number. ''/tmp/server-'' @ show_nat number @ ''.key'') [0..<MAX_SERVER_STATIC_IDENTITIES])));
     assert (str_contains (server_config_text show_addr e) ''at most'');
     e \<leftarrow> expect_err (server_from (overlap_table [''/tmp/server-current.key'']));
     assert (str_contains (server_config_text show_addr e) ''distinct'')
   }"

definition server_rejects_a_connection_limit_above_the_safe_ceiling :: "(socket_addr \<Rightarrow> string) \<Rightarrow> unit option" where
  "server_rejects_a_connection_limit_above_the_safe_ceiling show_addr = do {
     e \<leftarrow> expect_err (server_from (server_table\<lparr>rs_limits := Some (Some 1025, Some 16384)\<rparr>));
     assert (str_contains (server_config_text show_addr e) ''1024'')
   }"

lemmas test_text = str_contains_def sublist_Cons_right char_of_def bit_0 show_nat.simps tunnel_limits

lemma test_key_not_blank: "\<not> blank test_key" "\<not> blank (utext_of ''mac'')" "\<not> blank (utext_of ''example.test:8443'')"
  "\<not> blank (utext_of ''example.test'')"
  by (auto simp: blank_iff test_key_def utext_of_def white_space_def)

lemmas client_test = client_from_def client_from_toml_def client_validate_def resolve_client_config_def client_table_def
  resolve_client_timeouts_def client_timeouts_default_def default_connect_seconds_def default_handshake_seconds_def
  default_idle_seconds_def client_outer_tls_default_def client_limits_default_def default_max_connections_def unwrap_or_def

lemma client_config_tests:
  "rejects_a_non_loopback_listener show_addr = Some ()"
  "accepts_the_documented_loopback_default_port = Some ()"
  "accepts_tls_when_a_server_name_is_supplied = Some ()"
  "tls_requires_a_server_name show_addr = Some ()"
  "accepts_an_explicit_test_ca_with_tls = Some ()"
  "rejects_a_zero_connection_limit show_addr = Some ()"
  "client_rejects_a_connection_limit_above_the_safe_ceiling show_addr = Some ()"
proof -
  show "rejects_a_non_loopback_listener show_addr = Some ()"
    by (simp add: rejects_a_non_loopback_listener_def client_test test_text)
  show "accepts_the_documented_loopback_default_port = Some ()"
    by (simp add: accepts_the_documented_loopback_default_port_def client_test test_key_not_blank tunnel_limits)
  show "accepts_tls_when_a_server_name_is_supplied = Some ()"
    by (simp add: accepts_tls_when_a_server_name_is_supplied_def client_test test_key_not_blank tunnel_limits)
  show "tls_requires_a_server_name show_addr = Some ()"
    by (simp add: tls_requires_a_server_name_def client_test test_key_not_blank test_text)
  show "accepts_an_explicit_test_ca_with_tls = Some ()"
    by (simp add: accepts_an_explicit_test_ca_with_tls_def client_test test_key_not_blank tunnel_limits)
  show "rejects_a_zero_connection_limit show_addr = Some ()"
    by (simp add: rejects_a_zero_connection_limit_def client_test test_key_not_blank test_text)
  show "client_rejects_a_connection_limit_above_the_safe_ceiling show_addr = Some ()"
    by (simp add: client_rejects_a_connection_limit_above_the_safe_ceiling_def client_test test_key_not_blank test_text)
qed

lemmas server_test = server_from_def server_from_toml_def server_validate_def resolve_server_config_def server_table_def
  server_timeouts_default_def server_default_connect_seconds_def server_default_handshake_seconds_def
  server_default_idle_seconds_def server_outer_tls_default_def server_limits_default_def
  server_default_max_connections_def server_default_record_bytes_def unwrap_or_def

lemma server_config_tests:
  "destination_must_be_a_fixed_loopback_address show_addr = Some ()"
  "accepts_tls_with_a_certificate_and_private_key = Some ()"
  "tls_requires_a_certificate_and_private_key show_addr = Some ()"
  "accepts_a_bounded_server_static_key_overlap = Some ()"
  "rejects_an_unbounded_or_duplicate_server_static_key_overlap show_addr = Some ()"
  "server_rejects_a_connection_limit_above_the_safe_ceiling show_addr = Some ()"
proof -
  let ?files = "map (\<lambda>number. ''/tmp/server-'' @ show_nat number @ ''.key'') [0..<MAX_SERVER_STATIC_IDENTITIES]"
  have "server_from (overlap_table ?files) = Inl TooManyIdentities"
    by (simp add: overlap_table_def server_test test_key_not_blank list_ex_iff image_iff Let_def)
  moreover have "server_from (overlap_table [''/tmp/server-current.key'']) = Inl DuplicateKeyPath"
    by (simp add: overlap_table_def server_test test_key_not_blank Let_def tunnel_limits)
  ultimately show "rejects_an_unbounded_or_duplicate_server_static_key_overlap show_addr = Some ()"
    by (simp add: rejects_an_unbounded_or_duplicate_server_static_key_overlap_def test_text)
  show "destination_must_be_a_fixed_loopback_address show_addr = Some ()"
    by (simp add: destination_must_be_a_fixed_loopback_address_def server_test test_text)
  show "accepts_tls_with_a_certificate_and_private_key = Some ()"
    by (simp add: accepts_tls_with_a_certificate_and_private_key_def server_test test_key_not_blank tunnel_limits)
  show "tls_requires_a_certificate_and_private_key show_addr = Some ()"
    by (simp add: tls_requires_a_certificate_and_private_key_def server_test test_key_not_blank test_text)
  show "accepts_a_bounded_server_static_key_overlap = Some ()"
    by (simp add: accepts_a_bounded_server_static_key_overlap_def overlap_table_def server_test test_key_not_blank
        tunnel_limits path_components_def to_component_def)
  show "server_rejects_a_connection_limit_above_the_safe_ceiling show_addr = Some ()"
    by (simp add: server_rejects_a_connection_limit_above_the_safe_ceiling_def server_test test_key_not_blank test_text)
qed

section \<open>Telemetry\<close>

definition metrics_include_closed_session_traffic_and_duration :: "nat \<Rightarrow> unit option" where
  "metrics_include_closed_session_traffic_and_duration now = do {
     let tel = (telemetry_new 7 now)\<lparr>bytes_client_to_server := 31, bytes_server_to_client := 47, handshake_succeeded := True\<rparr>;
     let (m, _) = connection_opened metrics_default now;
     let s = client_snapshot (client_connection_closed m tel PeerClosed 19);
     assert (snap_active s = 0);
     assert (snap_connections s = 1);
     assert (snap_handshake_success s = 1);
     assert (snap_bytes_in s = 31);
     assert (snap_bytes_out s = 47);
     assert (snap_duration_ms s = 19)
   }"

definition metrics_count_destination_and_handshake_failures :: "nat \<Rightarrow> unit option" where
  "metrics_count_destination_and_handshake_failures now = do {
     let tel = server_telemetry_new 3 now;
     let (m, _) = server_connection_opened metrics_default now;
     let s = server_snapshot (server_connection_closed m tel DestinationConnectFailed 11);
     assert (snap_active s = 0);
     assert (snap_connections s = 1);
     assert (snap_handshake_failure s = 1);
     assert (snap_destination_failure s = 1);
     assert (snap_duration_ms s = 11)
   }"

definition close_reason_never_includes_the_raw_error_text :: "unit option" where
  "close_reason_never_includes_the_raw_error_text = do {
     let reason = client_close_reason_from_error [''record decryption failed for secret application payload''];
     assert (reason = close_reason.DecryptFailed);
     assert (close_reason_as_str reason = ''decrypt_failed'')
   }"

definition close_reason_is_a_fixed_safe_category :: "unit option" where
  "close_reason_is_a_fixed_safe_category = do {
     let reason = server_close_reason_from_error [''unauthorised client key''];
     assert (reason = UnauthorizedClient);
     assert (server_close_reason_as_str reason = ''unauthorized_client'')
   }"

definition error_stage_is_a_fixed_safe_category :: "unit option" where
  "error_stage_is_a_fixed_safe_category = do {
     let error = [''local TCP keepalive setup failed: secret application payload''];
     assert (error_stage error = ''local_keepalive'');
     assert (error_stage error \<noteq> ''secret application payload'')
   }"

lemmas classify = to_ascii_lowercase_def ascii_lower_def str_contains_def sublist_Cons_right char_of_def bit_0

lemma telemetry_tests:
  "metrics_include_closed_session_traffic_and_duration now = Some ()"
  "metrics_count_destination_and_handshake_failures now = Some ()"
  "close_reason_never_includes_the_raw_error_text = Some ()"
  "close_reason_is_a_fixed_safe_category = Some ()"
  "error_stage_is_a_fixed_safe_category = Some ()"
proof -
  show "metrics_include_closed_session_traffic_and_duration now = Some ()"
    by (simp add: metrics_include_closed_session_traffic_and_duration_def client_snapshot_def connection_opened_def metrics_default_def connection_closed_counts telemetry_new_def)
  show "metrics_count_destination_and_handshake_failures now = Some ()"
    by (simp add: metrics_count_destination_and_handshake_failures_def server_snapshot_def server_connection_opened_def metrics_default_def connection_closed_same connection_closed_counts server_telemetry_new_def)
  show "close_reason_never_includes_the_raw_error_text = Some ()"
    by (simp add: close_reason_never_includes_the_raw_error_text_def client_close_reason_from_error_def classify)
  show "close_reason_is_a_fixed_safe_category = Some ()"
    by (simp add: close_reason_is_a_fixed_safe_category_def server_close_reason_from_error_def classify)
  show "error_stage_is_a_fixed_safe_category = Some ()"
    by (simp add: error_stage_is_a_fixed_safe_category_def error_stage_def classify)
qed

section \<open>Benchmark\<close>

definition duration_from_millis :: "nat \<Rightarrow> duration" where
  "duration_from_millis n = Duration (of_nat (n div 1000)) (of_nat (n mod 1000 * 1000000))"

definition nearest_rank_p95_uses_an_observed_sample :: "unit option" where
  "nearest_rank_p95_uses_an_observed_sample = do {
     let samples = map duration_from_millis [1..<21];
     p \<leftarrow> percentile_95 samples;
     assert (p = duration_from_millis 19)
   }"

definition throughput_rejects_zero_duration :: "'f float_ops \<Rightarrow> unit option" where
  "throughput_rejects_zero_duration F = assert (isl (throughput_bytes_per_second F 1 (Duration 0 0)))"

lemma benchmark_tests:
  "nearest_rank_p95_uses_an_observed_sample = Some ()"
  "throughput_rejects_zero_duration F = Some ()"
proof -
  have "sorted (map duration_from_millis [1..<21])"
    by (simp add: upt_rec duration_from_millis_def less_eq_duration_def)
  then have "percentile_95 (map duration_from_millis [1..<21]) = Some (duration_from_millis 19)"
    by (simp add: percentile_95_def sorted_sort_id Let_def div_ceil_def)
  then show "nearest_rank_p95_uses_an_observed_sample = Some ()"
    by (simp add: nearest_rank_p95_uses_an_observed_sample_def)
  show "throughput_rejects_zero_duration F = Some ()"
    by (simp add: throughput_rejects_zero_duration_def throughput_bytes_per_second_def is_zero_def)
qed

section \<open>Files\<close>

text \<open>\<open>std::fs::write\<close> on a path where nothing is, \<open>remove_file\<close>, \<open>remove_dir_all\<close> and \<open>symlink\<close>.\<close>

definition fs_write :: "os \<Rightarrow> fs \<Rightarrow> path \<Rightarrow> utext \<Rightarrow> fs option" where
  "fs_write os fs p s = Option.bind (open_create_new os fs p 0x1B6) (\<lambda>fs. write_file os fs p s)"

definition remove_file :: "fs \<Rightarrow> path \<Rightarrow> fs option" where
  "remove_file fs p = (case fs (place p) of Some (DirNode m) \<Rightarrow> None | None \<Rightarrow> None | _ \<Rightarrow> Some (fs(place p := None)))"

definition remove_dir_all :: "fs \<Rightarrow> path \<Rightarrow> fs" where
  "remove_dir_all fs p = (\<lambda>q. if prefix (place p) q then None else fs q)"

definition symlink :: "os \<Rightarrow> fs \<Rightarrow> path \<Rightarrow> path \<Rightarrow> fs option" where
  "symlink os fs target link =
     (if fs (place link) \<noteq> None \<or> \<not> os_create_ok os link then None else Some (fs(place link \<mapsto> SymlinkNode target)))"

text \<open>The three tests, for the functions of one binary and the name of its file.\<close>

definition refusal_mentions :: "(path \<Rightarrow> string) \<Rightarrow> (32 word \<Rightarrow> string) \<Rightarrow> 'e key_error + 'a \<Rightarrow> string \<Rightarrow> unit option" where
  "refusal_mentions show_path octal r pat = do {
     e \<leftarrow> expect_err r;
     message \<leftarrow> refusal_text show_path octal e;
     assert (str_contains message pat)
   }"

definition configuration_permissions_reject_group_or_world_access ::
    "(fs \<Rightarrow> path \<Rightarrow> unit key_error + unit) \<Rightarrow> (path \<Rightarrow> string) \<Rightarrow> (32 word \<Rightarrow> string) \<Rightarrow> os \<Rightarrow> fs \<Rightarrow> path \<Rightarrow> unit option" where
  "configuration_permissions_reject_group_or_world_access enforce_config show_path octal os fs path = do {
     fs \<leftarrow> fs_write os fs path (utext_of ''[listen]'' @ [10]);
     fs \<leftarrow> set_permissions os fs path 0x1A4;
     refusal_mentions show_path octal (enforce_config fs path) ''configuration'';
     fs \<leftarrow> set_permissions os fs path 0x180;
     expect (enforce_config fs path);
     fs \<leftarrow> remove_file fs path;
     Some ()
   }"

definition keygen_refuses_an_existing_shared_parent_without_chmodding_it ::
    "(fs \<Rightarrow> path \<Rightarrow> bytes \<Rightarrow> fs \<times> (unit key_error + unit)) \<Rightarrow> (path \<Rightarrow> string) \<Rightarrow> (32 word \<Rightarrow> string) \<Rightarrow> string
       \<Rightarrow> os \<Rightarrow> fs \<Rightarrow> path \<Rightarrow> unit option" where
  "keygen_refuses_an_existing_shared_parent_without_chmodding_it write_key show_path octal name os fs parent = do {
     fs \<leftarrow> create_dir os (remove_dir_all fs parent) parent;
     fs \<leftarrow> set_permissions os fs parent 0x1ED;
     let key = parent @ [Normal name];
     let (fs, r) = write_key fs key (replicate 32 3);
     refusal_mentions show_path octal r ''parent directory'';
     node \<leftarrow> follow 40 fs parent;
     assert (node_mode node AND 0x1FF = 0x1ED);
     assert (\<not> path_exists fs key);
     Some ()
   }"

definition configuration_permissions_reject_a_symlink ::
    "(fs \<Rightarrow> path \<Rightarrow> unit key_error + unit) \<Rightarrow> (path \<Rightarrow> string) \<Rightarrow> (32 word \<Rightarrow> string) \<Rightarrow> string
       \<Rightarrow> os \<Rightarrow> fs \<Rightarrow> path \<Rightarrow> unit option" where
  "configuration_permissions_reject_a_symlink enforce_config show_path octal name os fs directory = do {
     fs \<leftarrow> create_dir os (remove_dir_all fs directory) directory;
     let target = directory @ [Normal ''target.toml''];
     let link = directory @ [Normal name];
     fs \<leftarrow> fs_write os fs target (utext_of ''[listen]'' @ [10]);
     fs \<leftarrow> set_permissions os fs target 0x180;
     fs \<leftarrow> symlink os fs target link;
     refusal_mentions show_path octal (enforce_config fs link) ''regular non-symlink'';
     Some ()
   }"

text \<open>The server's copies of the three.\<close>

definition server_configuration_permissions_reject_group_or_world_access ::
    "(path \<Rightarrow> string) \<Rightarrow> (32 word \<Rightarrow> string) \<Rightarrow> os \<Rightarrow> fs \<Rightarrow> path \<Rightarrow> unit option" where
  "server_configuration_permissions_reject_group_or_world_access =
     configuration_permissions_reject_group_or_world_access server_enforce_config_permissions"

definition server_keygen_refuses_an_existing_shared_parent ::
    "(bytes \<Rightarrow> utext) \<Rightarrow> (path \<Rightarrow> string) \<Rightarrow> (32 word \<Rightarrow> string) \<Rightarrow> os \<Rightarrow> fs \<Rightarrow> path \<Rightarrow> unit option" where
  "server_keygen_refuses_an_existing_shared_parent encode show_path octal os =
     keygen_refuses_an_existing_shared_parent_without_chmodding_it (server_write_private_key encode os) show_path octal
       ''server.key'' os"

definition server_configuration_permissions_reject_a_symlink ::
    "(path \<Rightarrow> string) \<Rightarrow> (32 word \<Rightarrow> string) \<Rightarrow> os \<Rightarrow> fs \<Rightarrow> path \<Rightarrow> unit option" where
  "server_configuration_permissions_reject_a_symlink show_path octal =
     configuration_permissions_reject_a_symlink server_enforce_config_permissions show_path octal ''server.toml''"

text \<open>The refusals say what the tests look for, whatever the path prints as.\<close>

lemma refusal_texts:
  "str_contains (''configuration'' @ t) ''configuration''"
  "str_contains (''private-key parent directory '' @ t) ''parent directory''"
  "str_contains (k @ '' '' @ t @ '' must be a regular non-symlink file'') ''regular non-symlink''"
proof -
  show "str_contains (''configuration'' @ t) ''configuration''"
    "str_contains (''private-key parent directory '' @ t) ''parent directory''"
    by (rule str_contains_append1; simp add: test_text)+
  have "str_contains '' must be a regular non-symlink file'' ''regular non-symlink''" by (simp add: test_text)
  then show "str_contains (k @ '' '' @ t @ '' must be a regular non-symlink file'') ''regular non-symlink''"
    by (intro str_contains_append2)
qed

lemma place_child: "place (p @ [Normal n]) = place p @ [Normal n]"
  by (simp add: place_def)

lemma follow_here:
  "fs (place p) = Some (DirNode m) \<Longrightarrow> follow 40 fs p = Some (DirNode m)"
  "fs (place p) = None \<Longrightarrow> follow 40 fs p = None"
  by (simp_all add: numeral_eq_Suc)

lemma configuration_access_test:
  assumes "os_create_ok os p" and "os_write_ok os p" and "os_chmod_ok os p" and "fs (place p) = None"
  shows "configuration_permissions_reject_group_or_world_access client_enforce_config_permissions show_path octal os fs p = Some ()"
  using assms refusal_texts(1)
  by (simp add: configuration_permissions_reject_group_or_world_access_def fs_write_def open_create_new_def write_file_def
      set_permissions_def refusal_mentions_def client_enforce_config_permissions_def client_enforce_sensitive_permissions_def
      symlink_metadata_def remove_file_def Let_def del: append_Cons)

lemma shared_parent_test:
  assumes "os_create_ok os parent" and "os_chmod_ok os parent" and "parent \<noteq> []"
  shows "keygen_refuses_an_existing_shared_parent_without_chmodding_it (client_write_private_key encode os) show_path octal name os fs parent
      = Some ()"
  using assms refusal_texts(2)
  by (simp add: keygen_refuses_an_existing_shared_parent_without_chmodding_it_def remove_dir_all_def create_dir_def
      set_permissions_def refusal_mentions_def client_write_private_key_def client_prepare_private_key_parent_def
      path_parent_def path_exists_def follow_here place_child client_enforce_private_parent_permissions_def
      symlink_metadata_def Let_def del: append_Cons)

lemma symlink_test:
  assumes "\<And>p. os_create_ok os p" and "\<And>p. os_chmod_ok os p" and "\<And>p. os_write_ok os p" and "name \<noteq> ''target.toml''"
  shows "configuration_permissions_reject_a_symlink client_enforce_config_permissions show_path octal name os fs directory = Some ()"
  using assms refusal_texts(3)
  by (simp add: configuration_permissions_reject_a_symlink_def remove_dir_all_def create_dir_def fs_write_def
      open_create_new_def write_file_def set_permissions_def symlink_def refusal_mentions_def place_child
      client_enforce_config_permissions_def client_enforce_sensitive_permissions_def symlink_metadata_def Let_def
      del: append_Cons)

section \<open>Property\<close>

text \<open>The unit tests of the binaries, of their configuration and of the benchmark pass, whatever the
  files before the test are, whatever the clock shows and however addresses, paths and modes are
  printed, on a system that lets the test make its files.\<close>

theorem program_tests_pass:
  assumes ok: "\<forall>p. os_create_ok os p \<and> os_write_ok os p \<and> os_chmod_ok os p"
    and "fs (place path) = None" and "directory \<noteq> []"
  shows "rejects_a_non_loopback_listener show_addr = Some ()
    \<and> accepts_the_documented_loopback_default_port = Some ()
    \<and> accepts_tls_when_a_server_name_is_supplied = Some ()
    \<and> tls_requires_a_server_name show_addr = Some ()
    \<and> accepts_an_explicit_test_ca_with_tls = Some ()
    \<and> rejects_a_zero_connection_limit show_addr = Some ()
    \<and> client_rejects_a_connection_limit_above_the_safe_ceiling show_addr = Some ()
    \<and> destination_must_be_a_fixed_loopback_address show_addr = Some ()
    \<and> accepts_tls_with_a_certificate_and_private_key = Some ()
    \<and> tls_requires_a_certificate_and_private_key show_addr = Some ()
    \<and> accepts_a_bounded_server_static_key_overlap = Some ()
    \<and> rejects_an_unbounded_or_duplicate_server_static_key_overlap show_addr = Some ()
    \<and> server_rejects_a_connection_limit_above_the_safe_ceiling show_addr = Some ()
    \<and> metrics_include_closed_session_traffic_and_duration now = Some ()
    \<and> metrics_count_destination_and_handshake_failures now = Some ()
    \<and> close_reason_never_includes_the_raw_error_text = Some ()
    \<and> close_reason_is_a_fixed_safe_category = Some ()
    \<and> error_stage_is_a_fixed_safe_category = Some ()
    \<and> nearest_rank_p95_uses_an_observed_sample = Some ()
    \<and> throughput_rejects_zero_duration F = Some ()
    \<and> configuration_permissions_reject_group_or_world_access client_enforce_config_permissions show_path octal os fs path = Some ()
    \<and> server_configuration_permissions_reject_group_or_world_access show_path octal os fs path = Some ()
    \<and> keygen_refuses_an_existing_shared_parent_without_chmodding_it (client_write_private_key encode os) show_path octal
        ''client.key'' os fs directory = Some ()
    \<and> server_keygen_refuses_an_existing_shared_parent encode show_path octal os fs directory = Some ()
    \<and> configuration_permissions_reject_a_symlink client_enforce_config_permissions show_path octal ''client.toml'' os fs directory = Some ()
    \<and> server_configuration_permissions_reject_a_symlink show_path octal os fs directory = Some ()"
proof (intro conjI)
  note oks = ok [rule_format, THEN conjunct1] ok [rule_format, THEN conjunct2, THEN conjunct1] ok [rule_format, THEN conjunct2, THEN conjunct2]
  show "configuration_permissions_reject_group_or_world_access client_enforce_config_permissions show_path octal os fs path = Some ()"
    "server_configuration_permissions_reject_group_or_world_access show_path octal os fs path = Some ()"
    using configuration_access_test [where os = os and fs = fs and p = path] oks assms(2)
    by (simp_all add: server_configuration_permissions_reject_group_or_world_access_def key_files_same)
  show "keygen_refuses_an_existing_shared_parent_without_chmodding_it (client_write_private_key encode os) show_path octal
      ''client.key'' os fs directory = Some ()"
    "server_keygen_refuses_an_existing_shared_parent encode show_path octal os fs directory = Some ()"
    using shared_parent_test [where os = os and parent = directory] oks assms(3)
    by (simp_all add: server_keygen_refuses_an_existing_shared_parent_def write_private_key_same)
  show "configuration_permissions_reject_a_symlink client_enforce_config_permissions show_path octal ''client.toml'' os fs directory = Some ()"
    "server_configuration_permissions_reject_a_symlink show_path octal os fs directory = Some ()"
    using symlink_test [where os = os] oks
    by (simp_all add: server_configuration_permissions_reject_a_symlink_def key_files_same)
qed (fact client_config_tests server_config_tests telemetry_tests benchmark_tests)+

lemma program_tests_pass_witness:
  "server_configuration_permissions_reject_a_symlink (\<lambda>_. []) (\<lambda>_. []) sample_os Map.empty [RootDir, Normal ''tmp''] = Some ()
   \<and> server_keygen_refuses_an_existing_shared_parent (\<lambda>_. []) (\<lambda>_. []) (\<lambda>_. []) sample_os Map.empty [RootDir, Normal ''tmp''] = Some ()"
proof -
  have ok: "\<forall>p. os_create_ok sample_os p \<and> os_write_ok sample_os p \<and> os_chmod_ok sample_os p"
    by (simp add: sample_os_def)
  show ?thesis
    using program_tests_pass [where show_addr = "\<lambda>_. []" and now = 0 and F = rat_ops and show_path = "\<lambda>_. []" and octal = "\<lambda>_. []" and fs = Map.empty and encode = "\<lambda>_. []"
        and directory = "[RootDir, Normal ''tmp'']" and path = "[Normal ''c.toml'']", OF ok _ list.distinct(2)]
    by simp
qed

end
