(* ===== verification/Doctor_Test.thy ===== *)
theory Doctor_Test
  imports Library_Tests Session_Safety
begin

text \<open>
  The test \<open>doctor_handshake_authenticates_the_pinned_server_identity\<close> of the client binary: both sides
  of a handshake over an in-memory wire (\<open>tokio::io::duplex\<close>), once with the right pinned key and
  once with a wrong one.  The client is \<open>complete_noise_handshake\<close>; the server is written in the test.

  What the client sends before it waits does not depend on what comes back, so the wire is run in
  the order of the data: the client's bytes, the server task on them, the client again on the
  server's bytes.  When the server task ends its side of the wire is dropped, so the client's
  stream ends there.
\<close>

section \<open>The test\<close>

text \<open>An in-memory wire never fails a write, and no timer fires; the rest of the environment is not used.\<close>

definition wire_env :: "'e texts \<Rightarrow> bytes list \<Rightarrow> stream_end \<Rightarrow> ('t, 'e) client_env" where
  "wire_env texts incoming en =
     \<lparr>ce_shutdown = False, ce_local_nodelay = Inr (), ce_local_keepalive = Inr (), ce_connect = Ready (Inr ()),
      ce_connect_race = OpFirst, ce_remote_nodelay = Inr (), ce_remote_keepalive = Inr (),
      ce_valid_server_name = (\<lambda>_. True), ce_tls = Ready (Inr ()), ce_tls_race = OpFirst,
      ce_fs = (\<lambda>_. None), ce_decode = (\<lambda>_. None), ce_write_preface = Inr (), ce_write_first = Inr (),
      ce_flush = Inr (), ce_incoming = \<lparr>chunks = incoming, net_end = en\<rparr>, ce_reply_race = OpFirst,
      ce_relay = (\<lambda>_ _. Inr ()), ce_texts = texts\<rparr>"

definition wire_read :: "net_stream \<Rightarrow> nat \<Rightarrow> (bytes \<times> net_stream) option" where
  "wire_read net n =
     (case rd_read_exact net_ops net n of (Ready (Inr b), net) \<Rightarrow> Some (b, net) | _ \<Rightarrow> None)"

text \<open>The server task up to its verdict.\<close>

definition test_server ::
    "('p, 'b, 'h, 't, 'e) noise_lib \<Rightarrow> bytes \<Rightarrow> bytes \<Rightarrow> net_stream \<Rightarrow> ('e tunnel_error + 'h server_reply) option" where
  "test_server api server_private allowed_client net = do {
     (preface, net) \<leftarrow> wire_read net 6;
     (header, net) \<leftarrow> wire_read net 2;
     (body, net) \<leftarrow> wire_read net (unat (u16_from_be_bytes (header ! 0) (header ! 1)));
     responder \<leftarrow> expect (server_handshake_new server_private [allowed_client] :: 'e tunnel_error + server_handshake);
     let (responder, accepted) = accept_preface responder preface;
     expect (accepted :: 'e tunnel_error + unit);
     snd (receive_client api responder (header @ body))
   }"

definition doctor_handshake_authenticates_the_pinned_server_identity ::
    "('p, 'b, 'h, 't, 'e) noise_lib \<Rightarrow> 'e texts \<Rightarrow> bytes \<times> bytes \<Rightarrow> bytes \<times> bytes \<Rightarrow> bytes \<times> bytes \<Rightarrow> unit option" where
  "doctor_handshake_authenticates_the_pinned_server_identity api texts client server wrong_server = do {
     let sent = sent_bytes (fst (complete_noise_handshake api (wire_env texts [] Stalled) (fst client) (snd server)));
     verdict \<leftarrow> test_server api (fst server) (snd client) \<lparr>chunks = [sent], net_end = Stalled\<rparr>;
     reply \<leftarrow> expect verdict;
     message \<leftarrow> expect (snd (reply_message api reply));
     expect (snd (complete_noise_handshake api (wire_env texts [message] AtEof) (fst client) (snd server)));
     let sent = sent_bytes (fst (complete_noise_handshake api (wire_env texts [] Stalled) (fst client) (snd wrong_server)));
     verdict \<leftarrow> test_server api (fst server) (snd client) \<lparr>chunks = [sent], net_end = Stalled\<rparr>;
     message \<leftarrow> (case verdict of Inl e \<Rightarrow> Some [] | Inr reply \<Rightarrow> expect (snd (reply_message api reply)));
     assert (\<exists>e. snd (complete_noise_handshake api (wire_env texts [message] AtEof) (fst client) (snd wrong_server)) = Inl e)
   }"

section \<open>Both runs\<close>

lemma wire_client_sends:
  assumes "client_handshake_new api cpriv spub = Inr ch0" and "first_message api ch0 = (ch1, Inr f1)"
  shows "sent_bytes (fst (complete_noise_handshake api (wire_env texts cs en) cpriv spub)) = preface_encode V1 @ f1"
  using assms by (simp add: complete_noise_handshake_def wire_env_def fst_run_bind split: sum.split prod.split)

lemma wire_read_prefix:
  assumes "net_content net = b @ rest"
  shows "\<exists>net'. wire_read net (length b) = Some (b, net') \<and> net_content net' = rest"
proof -
  obtain net' where "rd_read_exact net_ops net (length b) = (Ready (Inr b), net')" "net_content net' = rest"
    by (rule net_exact_prefix [OF assms])
  then show ?thesis by (simp add: wire_read_def)
qed

lemma test_server_hears:
  fixes api :: "('p, 'b, 'h, 't, 'e) noise_lib"
  assumes m: "client_handshake_new api cpriv spub = Inr ch0"
      "first_message api ch0 = (ch1, Inr (framed handshake_header m))" "length m \<le> MAX_HANDSHAKE_MESSAGE"
    and "net_content net = preface_encode V1 @ framed handshake_header m"
  shows "test_server api spriv cpub net = try_identities api {cpub} m [spriv] False None"
proof -
  obtain w1 where w1: "wire_read net 6 = Some (preface_encode V1, w1)" "net_content w1 = framed handshake_header m"
    using wire_read_prefix [OF assms(4)] by (auto simp: preface_length)
  have len: "length (handshake_header (length m)) = 2" by simp
  have "net_content w1 = handshake_header (length m) @ m" using w1(2) by (simp add: framed_def)
  from wire_read_prefix [OF this] len obtain w2 where
    w2: "wire_read w1 2 = Some (handshake_header (length m), w2)" "net_content w2 = m" by metis
  have "unat (u16_from_be_bytes (handshake_header (length m) ! 0) (handshake_header (length m) ! 1)) = length m"
    using m(3) by (intro handshake_header_bytes) (simp add: tunnel_limits)
  moreover obtain w3 where "wire_read w2 (length m) = Some (m, w3)"
    using wire_read_prefix [of w2 m "[]"] w2(2) by auto
  moreover have "decode_handshake_frame (handshake_header (length m) @ m) = (Inr m :: 'e tunnel_error + bytes)"
    using m(3) hs_frame.decode_framed [of m] by (simp add: framed_def)
  ultimately show ?thesis
    using w1(1) w2(1) m(3)
    by (cases "try_identities api {cpub} m [spriv] False None")
       (simp_all add: test_server_def server_handshake_new_def new_with_static_identities_def accept_preface_def
         receive_client_def tunnel_limits del: try_identities.simps)
qed

text \<open>No reply: the client's read of the frame meets the end of the stream.\<close>

lemma wire_client_unanswered:
  "\<exists>e. snd (complete_noise_handshake api (wire_env texts [[]] AtEof) private server) = Inl e"
proof -
  obtain r' where "client_read_handshake_frame net_ops \<lparr>chunks = [[]], net_end = AtEof\<rparr> = (Ready (Inl (WireIo UnexpectedEof)), r')"
    using net.read_handshake_frame_parses [of "\<lparr>chunks = [[]], net_end = AtEof\<rparr>"]
    by (auto simp: parse_handshake_def net_content_new)
  then show ?thesis
    by (simp add: complete_noise_handshake_def wire_env_def no_shutdown_def snd_run_bind with_stream_def
        race_timeout_def split: sum.split prod.split)
qed

lemma wire_client_completes:
  assumes "client_handshake_new api cpriv spub = Inr ch0" and "first_message api ch0 = (ch1, Inr f1)"
    and "client_finish api ch1 (framed handshake_header m2) = (ch2, Inr cell)" and "length m2 \<le> MAX_HANDSHAKE_MESSAGE"
  shows "\<exists>x. snd (complete_noise_handshake api (wire_env texts [framed handshake_header m2] AtEof) cpriv spub) = Inr x"
proof -
  let ?env = "wire_env texts [framed handshake_header m2] AtEof"
  have "net_content (ce_incoming ?env) = framed handshake_header m2 @ []"
    by (simp add: wire_env_def net_content_def)
  from net_reads_framed [OF this assms(4)] obtain r' where
    "client_read_handshake_frame net_ops (ce_incoming ?env) = (Ready (Inr (framed handshake_header m2)), r')" .
  with assms(1-3) show ?thesis
    by (simp add: complete_noise_handshake_def wire_env_def no_shutdown_def)
qed

section \<open>Property\<close>

text \<open>The doctor's handshake authenticates the pinned server.  For every Noise library that keeps its
  promise of an IK handshake between the test's client key and each of its two server keys, the test
  of the doctor passes: over an in-memory wire the handshake succeeds with the server whose
  key is pinned, and fails, without an answer, with any other key pinned.\<close>

theorem doctor_test_passes:
  fixes api :: "('p, 'b, 'h, 't, 'e) noise_lib"
  assumes "ik_agreement api (fst client) (snd client) [fst server] (fst server) (snd server) ta tb"
    and "ik_agreement api (fst client) (snd client) [fst wrong, fst server] (fst wrong) (snd wrong) ta' tb'"
    and "fst server \<noteq> fst wrong" and "length (snd client) = 32"
  shows "doctor_handshake_authenticates_the_pinned_server_identity api texts client server wrong = Some ()"
proof -
  have "snd client \<in> set [snd client]" "fst server \<in> set [fst server]" by simp_all
  from ik_agreement_steps [OF assms(1) this(2,1) assms(4)] obtain ch0 ch1 m1 reply reply2 m2 ch2 where
    m: "client_handshake_new api (fst client) (snd server) = Inr ch0"
      "first_message api ch0 = (ch1, Inr (framed handshake_header m1))" "length m1 \<le> MAX_HANDSHAKE_MESSAGE"
    and t: "try_identities api (set [snd client]) m1 [fst server] False None = Some (Inr reply)"
      "reply_message api reply = (reply2, Inr (framed handshake_header m2))" "length m2 \<le> MAX_HANDSHAKE_MESSAGE"
      "client_finish api ch1 (framed handshake_header m2) = (ch2, Inr (transport_session_new ta))"
    by metis
  obtain wh0 wh1 w1 where
    w: "client_handshake_new api (fst client) (snd wrong) = Inr wh0"
      "first_message api wh0 = (wh1, Inr (framed handshake_header w1))" "length w1 \<le> MAX_HANDSHAKE_MESSAGE"
    and others: "\<And>k. k \<in> set [fst wrong, fst server] \<Longrightarrow> k \<noteq> fst wrong \<Longrightarrow>
       \<exists>st e. build_responder_for api k = Inr st \<and> n_hs_read api st w1 MAX_HANDSHAKE_MESSAGE = Inl e"
    by (rule ik_first_message [OF assms(2)]) blast
  obtain e where e: "try_identities api {snd client} w1 [fst server] False None = Some (Inl (Noise e))"
    using try_identities_all_fail [of "[fst server]" api w1 None "{snd client}"] others [of "fst server"] assms(3) by auto
  have right: "test_server api (fst server) (snd client) \<lparr>chunks = [preface_encode V1 @ framed handshake_header m1], net_end = Stalled\<rparr>
      = Some (Inr reply)"
    using test_server_hears [OF m, of _ "fst server" "snd client"] t(1) by (simp add: net_content_new)
  have wrong: "test_server api (fst server) (snd client) \<lparr>chunks = [preface_encode V1 @ framed handshake_header w1], net_end = Stalled\<rparr>
      = Some (Inl (Noise e))"
    using test_server_hears [OF w, of _ "fst server" "snd client"] e by (simp add: net_content_new)
  obtain x where "snd (complete_noise_handshake api (wire_env texts [framed handshake_header m2] AtEof) (fst client) (snd server)) = Inr x"
    using wire_client_completes [OF m(1,2) t(4,3)] by blast
  with right wrong t(2) wire_client_unanswered show ?thesis
    by (simp add: doctor_handshake_authenticates_the_pinned_server_identity_def wire_client_sends [OF m(1,2)]
        wire_client_sends [OF w(1,2)])
qed

lemma doctor_test_passes_witness:
  "doctor_handshake_authenticates_the_pinned_server_identity tail_noise sample_texts (sample_keys 3) (sample_keys 2) (sample_keys 5)
     = Some ()"
proof -
  have "ik_agreement tail_noise (fst (sample_keys 3)) (snd (sample_keys 3)) [fst (sample_keys 2)] (fst (sample_keys 2))
      (snd (sample_keys 2)) (0, 0) (0, 0)"
    using tail_ik_agreement [of "replicate 32 3" "replicate 32 2" "[replicate 32 2]"] by (simp add: sample_keys_def)
  moreover have "ik_agreement tail_noise (fst (sample_keys 3)) (snd (sample_keys 3)) [fst (sample_keys 5), fst (sample_keys 2)]
      (fst (sample_keys 5)) (snd (sample_keys 5)) (0, 0) (0, 0)"
    using tail_ik_agreement [of "replicate 32 3" "replicate 32 5" "[replicate 32 5, replicate 32 2]"]
    by (simp add: sample_keys_def plain_public_def)
  ultimately show ?thesis
    by (rule doctor_test_passes) (simp_all add: sample_keys_def plain_public_def)
qed

end
