(* ===== verification/Spec2Isabelle.thy ===== *)
theory Spec2Isabelle
  imports Full_Tunnel Buffer_Bounds Services Metrics_Races Command_Line Outer_Tls Benchmark_Main Program_Tests
    Doctor_Test
begin

text \<open>
  A model of Secure Tunnel, a pair of programs that carry TCP connections between a loopback listener
  and one fixed loopback destination through an authenticated, encrypted session.

  \<^bold>\<open>The program.\<close>  The client (\<open>crates/secure-tunnel-client\<close>) accepts local connections; for each it
  connects to the server, optionally through TLS, sends a preface and the first message of a Noise IK
  handshake and, when the reply authenticates the pinned server key, relays bytes in both directions.
  The server (\<open>crates/secure-tunnel-server\<close>) is the other end: it lets in only clients on its list and
  connects to its destination.  Both use the protocol library (\<open>crates/secure-tunnel\<close>).  The
  benchmark harness (\<open>bench\<close>) measures a tunnel against a direct path.

  \<^bold>\<open>The theories\<close>, in the order of the program:

  \<^item> \<open>Tunnel_Prelude\<close>, \<open>Std_Types\<close>: results, futures, big-endian integers, text, addresses and paths.

  \<^item> Library (\<open>secure-tunnel/src/lib.rs\<close>): \<open>Tunnel_Errors\<close> (limits, \<open>TunnelError\<close>), \<open>Framing\<close>
  (preface and frame codecs), \<open>Noise_Api\<close> (what the code calls in the \<open>snow\<close> crate, key pairs),
  \<open>Handshake\<close> (\<open>ClientHandshake\<close>, \<open>ServerHandshake\<close>, \<open>ServerReply\<close>), \<open>Transport\<close>
  (\<open>TransportSession\<close> and its halves: one shared cipher cell).  \<open>Noise_Instance\<close> is a toy cipher on
  which the hypotheses about Noise hold; only witnesses and interpretations use it.
  \<open>Secure_Session\<close> joins the two ends.

  \<^item> Binaries (the two \<open>main.rs\<close>): \<open>Wire_IO\<close> (frame readers), \<open>Telemetry\<close> (metrics, close reasons),
  \<open>Copy_Loops\<close> (\<open>copy_encrypt\<close>, \<open>copy_decrypt\<close>), \<open>Relay\<close> (the \<open>select!\<close> loop), \<open>Session_Ends\<close>
  (the relay together with the copy loops it owns; its loop does not spin), \<open>Tampering\<close> (the receiving
  loop on a stream that was interfered with), \<open>Full_Tunnel\<close> (both ends of a tunnel with the network
  between them, refined to two byte pipes), \<open>Client_Config\<close> and
  \<open>Server_Config\<close> (\<open>config.rs\<close>), \<open>Key_Files\<close> (\<open>keygen\<close>, permissions), \<open>Outer_Tls\<close>
  (\<open>tls_connector\<close>, \<open>tls_acceptor\<close>), \<open>Session\<close> (\<open>handle_local\<close>, \<open>handle_outer\<close>, \<open>run_noise\<close>) with its
  lemmas in \<open>Session_Traces\<close> and its properties in \<open>Session_Safety\<close>, \<open>Serve_Loop\<close> (\<open>serve\<close>), \<open>Services\<close>
  (the loop with the sessions it has spawned taking turns), \<open>Metrics_Races\<close> (the metrics as atomic updates
  that interleave), \<open>Buffer_Bounds\<close> (how much the readers and copy loops ask for), \<open>Doctor\<close> (\<open>doctor\<close>), \<open>Command_Line\<close> (\<open>main\<close>, the commands, \<open>shutdown_signal\<close>).

  \<^item> Benchmark: \<open>Benchmark\<close> (durations, percentile, throughput), \<open>Benchmark_Protocol\<close> (responder and
  client), \<open>Benchmark_Report\<close> (runs, gates, evidence file), \<open>Memory_Sample\<close> (\<open>rss_kib\<close> and the string
  functions it uses), \<open>Benchmark_Main\<close> (the accept loop and the commands).

  \<^item> Unit tests: \<open>Library_Tests\<close>, \<open>Program_Tests\<close> and \<open>Doctor_Test\<close> are the tests written beside the code, over the
  model; that they pass is proved for all keys, texts and file systems, not for one run.

  \<^bold>\<open>How the model corresponds to the code.\<close>  Structs are records and enums datatypes with the code's
  constructors.  A method that takes \<open>&mut self\<close> returns the new state beside its result, errors are
  values of a sum, a panic is \<open>None\<close> (\<open>Inl None\<close> where there is also an error).  Where the two binaries
  have their own copy of a function there are two definitions (\<open>client_...\<close>, \<open>server_...\<close>) and, where
  they agree, a lemma that says so.  Integers with a width are words; counts of bytes and times
  are natural numbers.  An \<open>.await\<close> that does not complete is \<open>Pending\<close>.  The copy loops are partial
  functions, proved to have a value on every finite input (\<open>copy_tasks_come_to_rest\<close>); no
  definition uses fuel except the chain of symbolic links, bounded by 40 as in the kernel.
  The loops of \<open>relay\<close> and \<open>serve\<close> are step relations: any ready branch of a \<open>select!\<close> may run, and
  tasks, time and signals act in any order.

  \<^bold>\<open>Interfaces.\<close>  \<open>frame_codec\<close>, \<open>fail_closed\<close>, \<open>byte_stream\<close>, \<open>byte_sink\<close>, \<open>relay_task\<close> and
  \<open>echo_link\<close> are the contracts between the parts; each is interpreted on the model's definitions.
  What is assumed of the Noise library is \<open>noise_pair\<close> (what one end seals the other opens, in order)
  and \<open>ik_agreement\<close>; nothing is assumed about its secrecy, so the theorems are about what the code
  does with the library's answers.  Where the network is not trusted, \<open>unforged\<close> says of one stream
  that the library refuses every ciphertext in it that is not the next genuine one.

  \<^bold>\<open>What the theorems show.\<close>  The codecs are exact and inverse to each other; handshake objects are
  single-use and never panic; a session ends at its first cryptographic error and otherwise delivers
  in order in both directions.  The server acts only for authorised clients and connects only to its
  configured destination, the client relays only to the pinned server, and two matching sides become
  a tunnel that carries the local bytes to the destination and back (this theory).  The relay ends
  only for the reasons listed; a success means that the downlink was read to its end, and as the
  protocol has no authenticated end of stream, a network that stops between two records looks like
  one (\<open>cut_at_record_boundary_looks_clean\<close>).  The accept loop keeps its limit, its metrics add up, and it drains.
  With its sessions in it, interleaved in any way, a service refines this loop: every session keeps its
  own order, so the running server acts only for authorised clients (\<open>running_server_serves_authorised\<close>), and
  the metrics are the real numbers of connections, live sessions and handshakes; concurrent updates of
  them lose nothing; a shutdown completes in a bounded number of steps (\<open>draining_service_stops\<close>; how long
  a session waits is the environment's answer).  No peer can make a read ask for more than one record (\<open>peer_cannot_size_buffers\<close>).
  An established tunnel refines two independent byte pipes (\<open>tunnel_is_two_byte_pipes\<close>), and whatever
  is done to its records the destination receives only an initial part of what was sent
  (\<open>tampering_never_reaches_destination\<close>).  What is logged at the end of a session comes from fixed
  sets of words.  Configurations, key files and TLS set-ups that are accepted are safe, \<open>doctor\<close>
  predicts the service, no command changes a file that exists, and keys that \<open>keygen\<close> made and that
  were exchanged as printed establish a session.  The benchmark's numbers and gates are what its documentation says.  Five theorems show
  behaviour that the documentation does not intend: \<open>unauthorised_client_not_counted\<close>,
  \<open>refused_destination_not_counted\<close>, \<open>panic_leaves_task_running\<close>, \<open>first_eof_keeps_relay_running\<close> and
  the panicked sessions in \<open>metrics_add_up\<close>.

  \<^bold>\<open>Not modelled.\<close>  The parser of the command line (generated by \<open>clap\<close>), the set-up of the logger,
  SHA-256 in \<open>fingerprint\<close>, the TOML and JSON codecs, Base64, TLS and \<open>ps\<close> are other people's code: each is
  an argument where its answer matters.  Poisoning of the cipher's mutex is a flag that nothing sets, memory
  is not wiped.  A relaxed atomic update is one step; a snapshot of the metrics is taken at rest, as \<open>serve\<close>
  does after the drain.  Of the benchmark, the rounding of \<open>f64\<close> is an
  argument and the constant texts of the report are left out.  Of the unit tests, the two that set
  and read back the keepalive option of a socket are left out: they are about the operating system.
\<close>

section \<open>The tunnel carries the bytes of both directions\<close>

text \<open>C1: Uplink.  The client's \<open>copy_encrypt\<close> reads a local stream and the server's
  \<open>copy_decrypt\<close> is given any initial part of what it wrote to the network, in any chunks.  The
  server task comes to rest, what it delivers is an initial part of the local stream, flushed or shut
  down, and counted exactly; when the network has carried everything and the client has not failed,
  it is all of the local stream (also while the local side is idle: nothing is held back), and a
  clean end of the network closes the destination.\<close>

theorem uplink_delivers:
  assumes "noise_pair api a b [] ba"
    and "p_cell u = transport_session_new a" and "sink_healthy (p_writer u)" and "sink_out (p_writer u) = []"
    and "client_copy_encrypt api net_ops sink_ops u = Some (res, u')"
    and "p_cell d = transport_session_new b" and "sink_healthy (p_writer d)"
    and "prefix (net_content (p_reader d)) (sink_out (p_writer u'))"
  shows "\<exists>res2 d' got. server_copy_decrypt api net_ops sink_ops d = Some (res2, d')
      \<and> sink_out (p_writer d') = sink_out (p_writer d) @ got \<and> prefix got (net_content (p_reader u))
      \<and> p_tel d' = add_client_to_server (length got) (p_tel d)
      \<and> (got \<noteq> [] \<longrightarrow> sink_shut (p_writer d') \<or> sink_flushed (p_writer d'))
      \<and> (net_content (p_reader d) = sink_out (p_writer u') \<longrightarrow>
           (res = Pending \<or> res = Ready (Inr ()) \<longrightarrow> got = net_content (p_reader u))
           \<and> (net_end (p_reader d) = AtEof \<longrightarrow> res2 = Ready (Inr ()) \<and> sink_shut (p_writer d')))
      \<and> (res2 = Ready (Inr ()) \<longrightarrow> net_end (p_reader d) = AtEof \<and> sink_shut (p_writer d'))"
  using c2s.deliver [OF assms(1) _ assms(3,4) _ _ assms(7,8)] assms(2,5,6)
  by (simp add: copy_loops_eq transport_session_new_def)

definition uplink_sample :: "(net_stream, net_sink, nat \<times> nat) pump" where
  "uplink_sample =
     \<lparr>p_reader = \<lparr>chunks = [[1, 2], [], [3]], net_end = AtEof\<rparr>,
      p_writer = \<lparr>sink_out = [], sink_flushed = False, sink_shut = False, sink_fault = None\<rparr>,
      p_cell = transport_session_new (0, 0), p_tel = telemetry_new 1 0, p_activity = False\<rparr>"

definition sample_wire :: bytes where
  "sample_wire = framed record_header (plain_tag 0 @ [1, 2]) @ framed record_header (plain_tag 1 @ [3])"

lemma sample_encrypt_runs:
  "pump_loop (encrypt_iter counted plain_noise net_ops sink_ops) uplink_sample =
     Some (Ready (Inr ()),
       \<lparr>p_reader = \<lparr>chunks = [], net_end = AtEof\<rparr>,
        p_writer = \<lparr>sink_out = sample_wire, sink_flushed = True, sink_shut = True, sink_fault = None\<rparr>,
        p_cell = transport_session_new (2, 0), p_tel = counted 1 (counted 2 (telemetry_new 1 0)), p_activity = True\<rparr>)"
  by (simp add: uplink_sample_def sample_wire_def pump_loop.simps encrypt_iter_def pump_read_def pump_seal_def
      pump_write_def pump_flush_def pump_shutdown_def signal_activity_def net_ops_def net_read_def sink_ops_def
      MAX_PLAINTEXT_RECORD_def numeral_2_eq_2)

lemma sample_pair: "noise_pair plain_noise (0, 0) (0, 0) [] []"
  by (rule plain_noise_pair) simp_all

lemma sample_cells:
  "p_cell uplink_sample = transport_session_new (0, 0)" "sink_healthy (p_writer uplink_sample)"
  "sink_out (p_writer uplink_sample) = []" "net_content (p_reader uplink_sample) = [1, 2, 3]"
  by (simp_all add: uplink_sample_def sink_healthy_def net_content_def)

lemma sample_copy_runs:
  "client_copy_encrypt plain_noise net_ops sink_ops uplink_sample = Some (Ready (Inr ()),
     \<lparr>p_reader = \<lparr>chunks = [], net_end = AtEof\<rparr>,
      p_writer = \<lparr>sink_out = sample_wire, sink_flushed = True, sink_shut = True, sink_fault = None\<rparr>,
      p_cell = transport_session_new (2, 0),
      p_tel = add_client_to_server 1 (add_client_to_server 2 (telemetry_new 1 0)), p_activity = True\<rparr>)"
  "server_copy_encrypt plain_noise net_ops sink_ops uplink_sample = Some (Ready (Inr ()),
     \<lparr>p_reader = \<lparr>chunks = [], net_end = AtEof\<rparr>,
      p_writer = \<lparr>sink_out = sample_wire, sink_flushed = True, sink_shut = True, sink_fault = None\<rparr>,
      p_cell = transport_session_new (2, 0),
      p_tel = add_server_to_client 1 (add_server_to_client 2 (telemetry_new 1 0)), p_activity = True\<rparr>)"
  by (simp_all add: copy_loops_eq sample_encrypt_runs)

lemma uplink_delivers_witness:
  "\<exists>res2 d'. server_copy_decrypt plain_noise net_ops sink_ops
       (uplink_sample\<lparr>p_reader := \<lparr>chunks = map (\<lambda>b. [b]) sample_wire, net_end = AtEof\<rparr>\<rparr>) = Some (res2, d')
     \<and> sink_out (p_writer d') = [1, 2, 3] \<and> res2 = Ready (Inr ())"
proof -
  have one_each: "concat (map (\<lambda>b. [b]) xs) = (xs :: bytes)" for xs by (induction xs) simp_all
  show ?thesis
    using uplink_delivers [OF sample_pair sample_cells(1-3) sample_copy_runs(1),
        where d = "uplink_sample\<lparr>p_reader := \<lparr>chunks = map (\<lambda>b. [b]) sample_wire, net_end = AtEof\<rparr>\<rparr>"]
    by (auto simp: sample_cells copy_loops_eq net_content_new one_each)
qed

text \<open>Downlink.  The same for the server's \<open>copy_encrypt\<close>, reading the destination's stream, and
  the client's \<open>copy_decrypt\<close>, writing to the local application.\<close>

theorem downlink_delivers:
  assumes "noise_pair api a b [] ba"
    and "p_cell u = transport_session_new a" and "sink_healthy (p_writer u)" and "sink_out (p_writer u) = []"
    and "server_copy_encrypt api net_ops sink_ops u = Some (res, u')"
    and "p_cell d = transport_session_new b" and "sink_healthy (p_writer d)"
    and "prefix (net_content (p_reader d)) (sink_out (p_writer u'))"
  shows "\<exists>res2 d' got. client_copy_decrypt api net_ops sink_ops d = Some (res2, d')
      \<and> sink_out (p_writer d') = sink_out (p_writer d) @ got \<and> prefix got (net_content (p_reader u))
      \<and> p_tel d' = add_server_to_client (length got) (p_tel d)
      \<and> (got \<noteq> [] \<longrightarrow> sink_shut (p_writer d') \<or> sink_flushed (p_writer d'))
      \<and> (net_content (p_reader d) = sink_out (p_writer u') \<longrightarrow>
           (res = Pending \<or> res = Ready (Inr ()) \<longrightarrow> got = net_content (p_reader u))
           \<and> (net_end (p_reader d) = AtEof \<longrightarrow> res2 = Ready (Inr ()) \<and> sink_shut (p_writer d')))
      \<and> (res2 = Ready (Inr ()) \<longrightarrow> net_end (p_reader d) = AtEof \<and> sink_shut (p_writer d'))"
  using s2c.deliver [OF assms(1) _ assms(3,4) _ _ assms(7,8)] assms(2,5,6)
  by (simp add: copy_loops_eq transport_session_new_def)

lemma downlink_delivers_witness:
  "\<exists>res2 d'. client_copy_decrypt plain_noise net_ops sink_ops
       (uplink_sample\<lparr>p_reader := \<lparr>chunks = [sample_wire], net_end = AtEof\<rparr>\<rparr>) = Some (res2, d')
     \<and> sink_out (p_writer d') = [1, 2, 3] \<and> res2 = Ready (Inr ())"
proof -
  show ?thesis
    using downlink_delivers [OF sample_pair sample_cells(1-3) sample_copy_runs(2),
        where d = "uplink_sample\<lparr>p_reader := \<lparr>chunks = [sample_wire], net_end = AtEof\<rparr>\<rparr>"]
    by (auto simp: sample_cells copy_loops_eq net_content_new)
qed

section \<open>The end of a session\<close>

text \<open>C23: A client session that ends without an error has delivered what the network brought to its end.
  The relay's downlink is the client's \<open>copy_decrypt\<close> on a stream that is an initial part of what
  the server's \<open>copy_encrypt\<close> wrote.  When the relay returns success, this task has returned, the
  network was at its end, the local writer is shut down, and the delivered bytes are an initial part
  of the destination's stream, all of it if the network lost nothing and the server did not fail.\<close>

theorem closed_session_is_complete:
  assumes "(driven_client_step first_may
        (task_result err_text (client_copy_decrypt api net_ops sink_ops d)) idle)\<^sup>*\<^sup>* (relay_start idle t0) s"
    and "outcome s = Some (Inr ())"
    and "noise_pair api a b [] ba"
    and "p_cell u = transport_session_new a" and "sink_healthy (p_writer u)" and "sink_out (p_writer u) = []"
    and "server_copy_encrypt api net_ops sink_ops u = Some (res, u')"
    and "p_cell d = transport_session_new b" and "sink_healthy (p_writer d)"
    and "prefix (net_content (p_reader d)) (sink_out (p_writer u'))"
  shows "\<exists>d' got. client_copy_decrypt api net_ops sink_ops d = Some (Ready (Inr ()), d')
    \<and> net_end (p_reader d) = AtEof \<and> sink_shut (p_writer d')
    \<and> sink_out (p_writer d') = sink_out (p_writer d) @ got \<and> prefix got (net_content (p_reader u))
    \<and> (net_content (p_reader d) = sink_out (p_writer u') \<and> (res = Pending \<or> res = Ready (Inr ())) \<longrightarrow>
         got = net_content (p_reader u))"
proof -
  from driven_success [OF assms(1,2)] obtain x d' where
    run: "client_copy_decrypt api net_ops sink_ops d = Some (Ready x, d')" and "Inr () = map_err err_text x"
    by (auto simp: task_result_def)
  then have x: "x = Inr ()" by (cases x) simp_all
  from s2c.deliver [OF assms(3) _ assms(5,6) _ _ assms(9,10)] assms(4,7,8)
  show ?thesis using run unfolding x by (fastforce simp: copy_loops_eq transport_session_new_def)
qed

lemma closed_session_is_complete_witness:
  "\<exists>s d'. (driven_client_step (\<lambda>_. True)
        (task_result (\<lambda>_. []) (client_copy_decrypt plain_noise net_ops sink_ops
           (uplink_sample\<lparr>p_reader := \<lparr>chunks = [sample_wire], net_end = AtEof\<rparr>\<rparr>))) 5)\<^sup>*\<^sup>* (relay_start 5 0) s
     \<and> outcome s = Some (Inr ())
     \<and> client_copy_decrypt plain_noise net_ops sink_ops
         (uplink_sample\<lparr>p_reader := \<lparr>chunks = [sample_wire], net_end = AtEof\<rparr>\<rparr>) = Some (Ready (Inr ()), d')
     \<and> sink_out (p_writer d') = [1, 2, 3]"
proof -
  let ?d = "uplink_sample\<lparr>p_reader := \<lparr>chunks = [sample_wire], net_end = AtEof\<rparr>\<rparr>"
  let ?may = "task_result (\<lambda>_. []) (client_copy_decrypt plain_noise net_ops sink_ops ?d)"
  let ?step = "driven_client_step (\<lambda>_. True) ?may 5"
  from s2c.deliver [OF sample_pair _ sample_cells(2,3) sample_encrypt_runs, of ?d] obtain d1 where
    d1: "client_copy_decrypt plain_noise net_ops sink_ops ?d = Some (Ready (Inr ()), d1)"
    by (auto simp: sample_cells copy_loops_eq net_content_new transport_session_new_def)
  let ?s1 = "(relay_start 5 0)\<lparr>second_task := Finished (Returned (Inr ()))\<rparr>"
  let ?s2 = "run_branch ''uplink task panicked'' ''downlink task panicked'' 5 ?s1 JoinSecond"
  have "?step (relay_start 5 0) ?s1"
    using second_ends [of "relay_start 5 0" _ _ 5 "Returned (Inr ())"]
    by (simp add: driven_client_step_def client_relay_step_def driven_def relay_start_def task_result_def d1)
  moreover have "client_relay_step 5 ?s1 ?s2"
    unfolding client_relay_step_def by (rule loop) (simp_all add: relay_start_def)
  then have "?step ?s1 ?s2"
    by (simp add: driven_client_step_def driven_def relay_start_def break_with_def)
  ultimately have run: "?step\<^sup>*\<^sup>* (relay_start 5 0) ?s2"
    by (meson rtranclp.rtrancl_into_rtrancl rtranclp.rtrancl_refl)
  have out: "outcome ?s2 = Some (Inr ())" by (simp add: relay_start_def break_with_def)
  from closed_session_is_complete [OF run out sample_pair sample_cells(1-3) sample_copy_runs(2)]
  obtain d' where "client_copy_decrypt plain_noise net_ops sink_ops ?d = Some (Ready (Inr ()), d')"
    "sink_out (p_writer d') = [1, 2, 3]"
    by (auto simp: sample_cells net_content_new)
  with run out show ?thesis by blast
qed

text \<open>C24: A stream cut at a record boundary looks like a finished one.  The client's uplink turns the local
  stream into records; when the network ends after any number of whole records, the server's task
  returns without an error and shuts the destination's writer down, having delivered only their
  plaintext.  (The protocol has no authenticated end of stream.)\<close>

theorem cut_at_record_boundary_looks_clean:
  assumes "noise_pair api a b [] ba"
    and "p_cell u = transport_session_new a" and "sink_healthy (p_writer u)" and "sink_out (p_writer u) = []"
    and "client_copy_encrypt api net_ops sink_ops u = Some (res, u')"
  shows "\<exists>sent. sink_out (p_writer u') = wire_of sent \<and> prefix (plain_of sent) (net_content (p_reader u))
    \<and> (res = Pending \<or> res = Ready (Inr ()) \<longrightarrow> plain_of sent = net_content (p_reader u))
    \<and> (\<forall>k d. p_cell d = transport_session_new b \<and> sink_healthy (p_writer d)
         \<and> net_content (p_reader d) = wire_of (take k sent) \<and> net_end (p_reader d) = AtEof \<longrightarrow>
         (\<exists>d'. server_copy_decrypt api net_ops sink_ops d = Some (Ready (Inr ()), d') \<and> sink_shut (p_writer d')
            \<and> sink_out (p_writer d') = sink_out (p_writer d) @ plain_of (take k sent)))"
  using c2s.deliver_cut [OF assms(1) _ assms(3,4)] assms(2,5)
  by (simp add: copy_loops_eq transport_session_new_def)

lemma cut_at_record_boundary_looks_clean_witness:
  "\<exists>d'. sample_wire \<noteq> [] \<and> net_content (p_reader uplink_sample) = [1, 2, 3]
     \<and> server_copy_decrypt plain_noise net_ops sink_ops
         (uplink_sample\<lparr>p_reader := \<lparr>chunks = [], net_end = AtEof\<rparr>\<rparr>) = Some (Ready (Inr ()), d')
     \<and> sink_out (p_writer d') = [] \<and> sink_shut (p_writer d')"
proof -
  let ?d = "uplink_sample\<lparr>p_reader := \<lparr>chunks = [], net_end = AtEof\<rparr>\<rparr>"
  from cut_at_record_boundary_looks_clean [OF sample_pair sample_cells(1-3) sample_copy_runs(1)]
  obtain sent where sent: "sample_wire = wire_of sent" "plain_of sent = [1, 2, 3]"
    and cut: "\<And>k d. p_cell d = transport_session_new (0, 0) \<and> sink_healthy (p_writer d)
         \<and> net_content (p_reader d) = wire_of (take k sent) \<and> net_end (p_reader d) = AtEof \<longrightarrow>
         (\<exists>d'. server_copy_decrypt plain_noise net_ops sink_ops d = Some (Ready (Inr ()), d') \<and> sink_shut (p_writer d')
            \<and> sink_out (p_writer d') = sink_out (p_writer d) @ plain_of (take k sent))"
    by (auto simp: sample_cells)
  have "sample_wire \<noteq> []" by (simp add: sample_wire_def framed_def)
  with cut [of ?d 0] sample_cells(4) show ?thesis by (auto simp: sample_cells net_content_new)
qed

section \<open>An untrusted network\<close>

text \<open>C3: Payload integrity.  The client's uplink has turned a local stream into records; the server's
  task reads any stream at all, in which the cipher refuses the ciphertexts that are not the next
  genuine one (it is not forged, but it may be cut, reordered, repeated, changed or made up).  The
  destination then receives an initial part of the local stream and nothing else, counted exactly,
  and the task returns without an error only if the stream was an initial part of what was sent.\<close>

theorem tampering_never_reaches_destination:
  assumes "noise_pair api a b [] ba"
    and "p_cell u = transport_session_new a" and "sink_healthy (p_writer u)" and "sink_out (p_writer u) = []"
    and "client_copy_encrypt api net_ops sink_ops u = Some (res, u')"
  shows "\<exists>sent. sink_out (p_writer u') = wire_of sent \<and> valid_records sent
    \<and> prefix (plain_of sent) (net_content (p_reader u))
    \<and> (res = Pending \<or> res = Ready (Inr ()) \<longrightarrow> plain_of sent = net_content (p_reader u))
    \<and> (\<forall>d. p_cell d = transport_session_new b \<and> sink_healthy (p_writer d)
         \<and> unforged api b sent (set (frames_in (net_content (p_reader d)))) \<longrightarrow>
         (\<exists>res2 d' got. server_copy_decrypt api net_ops sink_ops d = Some (res2, d')
            \<and> sink_out (p_writer d') = sink_out (p_writer d) @ got \<and> prefix got (net_content (p_reader u))
            \<and> p_tel d' = add_client_to_server (length got) (p_tel d)
            \<and> (res2 = Ready (Inr ()) \<longrightarrow> prefix (net_content (p_reader d)) (sink_out (p_writer u'))
                 \<and> net_end (p_reader d) = AtEof \<and> sink_shut (p_writer d'))))"
  using c2s.deliver_tampered [OF assms(1) _ assms(3,4)] assms(2,5)
  by (simp add: copy_loops_eq transport_session_new_def)

text \<open>The first record sent twice: the copy is refused, and nothing is delivered after it.\<close>

definition sample_records :: "(bytes \<times> bytes) list" where
  "sample_records = [(plain_tag 0 @ [1, 2], [1, 2]), (plain_tag 1 @ [3], [3])]"

lemma sample_records_sent:
  assumes "sample_wire = wire_of sent" and "valid_records sent" and "plain_of sent = [1, 2, 3]"
  shows "sent = sample_records"
  by (rule records_unique)
     (use assms in \<open>simp_all add: sample_records_def sample_wire_def MAX_PLAINTEXT_RECORD_def\<close>)

lemma tampering_never_reaches_destination_witness:
  "\<exists>res2 d'. server_copy_decrypt plain_noise net_ops sink_ops
       (uplink_sample\<lparr>p_reader := \<lparr>chunks = [framed record_header (plain_tag 0 @ [1, 2]), sample_wire],
          net_end = AtEof\<rparr>\<rparr>) = Some (res2, d')
     \<and> prefix (sink_out (p_writer d')) [1, 2, 3] \<and> res2 \<noteq> Ready (Inr ())"
proof -
  let ?c = "framed record_header (plain_tag 0 @ [1, 2])"
  let ?d = "uplink_sample\<lparr>p_reader := \<lparr>chunks = [?c, sample_wire], net_end = AtEof\<rparr>\<rparr>"
  from tampering_never_reaches_destination [OF sample_pair sample_cells(1-3) sample_copy_runs(1)]
  obtain sent where sent: "sample_wire = wire_of sent" "valid_records sent" "plain_of sent = [1, 2, 3]"
    and any: "\<forall>d. p_cell d = transport_session_new (0, 0) \<and> sink_healthy (p_writer d)
         \<and> unforged plain_noise (0, 0) sent (set (frames_in (net_content (p_reader d)))) \<longrightarrow>
         (\<exists>res2 d' got. server_copy_decrypt plain_noise net_ops sink_ops d = Some (res2, d')
            \<and> sink_out (p_writer d') = sink_out (p_writer d) @ got \<and> prefix got [1, 2, 3]
            \<and> p_tel d' = add_client_to_server (length got) (p_tel d)
            \<and> (res2 = Ready (Inr ()) \<longrightarrow> prefix (net_content (p_reader d)) sample_wire
                 \<and> net_end (p_reader d) = AtEof \<and> sink_shut (p_writer d')))"
    by (simp add: sample_cells) blast
  have "frames_in (net_content (p_reader ?d)) = [plain_tag 0 @ [1, 2], plain_tag 0 @ [1, 2], plain_tag 1 @ [3]]"
    using frames_in_wire_of [of "hd sample_records # sample_records" "[]"]
    by (simp add: sample_records_def sample_wire_def net_content_new MAX_PLAINTEXT_RECORD_def)
  then have "unforged plain_noise (0, 0) sent (set (frames_in (net_content (p_reader ?d))))"
    unfolding sample_records_sent [OF sent] sample_records_def by (simp add: plain_noise_def plain_tag_def)
  moreover have "\<not> prefix (net_content (p_reader ?d)) sample_wire"
    by (rule notI, drule prefix_length_le) (simp add: net_content_new sample_wire_def framed_def)
  ultimately show ?thesis using any [rule_format, of ?d] by (auto simp: sample_cells)
qed

end
